(* ===== verification/Prelude.thy ===== *)
theory Prelude
  imports Main "HOL-Library.State_Monad" "HOL-Library.Sublist"
begin

text \<open>
  What every component of the model shares: the error values of the Go code, the shape of its
  stateful code (a state monad over the world, results of type \<open>err + 'a\<close> for Go's
  \<open>(value, error)\<close> pairs), the two program logics the component proofs use (Hoare triples, and
  step relations that every primitive of a program respects), and generic list lemmas.
\<close>

section \<open>Errors\<close>

text \<open>
  The sentinel errors the Go packages export, one constructor each, under their Go names;
  \<open>errors.Is(err, ErrX)\<close> is equality with the constructor. \<open>ErrDb\<close> and \<open>ErrRedis\<close> stand for any
  error of the database or Redis client, \<open>ErrText\<close> for an error made in place by
  \<open>errors.New\<close> or \<open>fmt.Errorf\<close>, \<open>ErrLib\<close> for an error passed on from another library,
  and \<open>FiberError\<close> for \<open>fiber.NewError(status, message)\<close>.
\<close>

datatype err =
    ErrNotFound
  | ErrInvalidCredentials | ErrRateLimited | ErrRateLimitDown | ErrInvalidSession | ErrTokenReuse
  | ErrForbidden | ErrPermissionCodeTaken | ErrInvalidPermissionCode | ErrProtectedPermission
  | ErrPermissionInUse | ErrLastAdmin
  | ErrEmailTaken | ErrCannotDeactivateSelf
  | ErrInvalidEmail | ErrPasswordTooShort | ErrPasswordTooLong | ErrPasswordComplexity
  | ErrPasswordWeak | ErrPasswordPwned
  | ErrDb | ErrRedis | ErrText string | ErrLib string | FiberError nat string

section \<open>Stateful programs\<close>

text \<open>
  \<open>try_bind m f\<close> is Go's \<open>x, err := m(); if err != nil { return err }\<close> followed by \<open>f x\<close>.
\<close>

definition try_bind ::
  "('w, err + 'a) state \<Rightarrow> ('a \<Rightarrow> ('w, err + 'b) state) \<Rightarrow> ('w, err + 'b) state" where
  "try_bind m f = State_Monad.bind m (\<lambda>r. case r of Inl e \<Rightarrow> State_Monad.return (Inl e) | Inr a \<Rightarrow> f a)"

lemma run_try_bind [simp]:
  "run_state (try_bind m f) w =
     (case run_state m w of (r, w') \<Rightarrow>
        (case r of Inl e \<Rightarrow> (Inl e, w') | Inr a \<Rightarrow> run_state (f a) w'))"
  by (simp add: try_bind_def split: prod.splits sum.splits)

lemma run_bind_eq:
  "run_state (State_Monad.bind m f) w = (r, w') \<longleftrightarrow>
     (\<exists>a v. run_state m w = (a, v) \<and> run_state (f a) v = (r, w'))"
  by (auto split: prod.splits)

lemma run_try_bind_Inr:
  "run_state (try_bind m f) w = (Inr b, w') \<longleftrightarrow>
     (\<exists>a v. run_state m w = (Inr a, v) \<and> run_state (f a) v = (Inr b, w'))"
  by (auto split: prod.splits sum.splits)

lemma run_try_bind_Inl:
  "run_state (try_bind m f) w = (Inl e, w') \<longleftrightarrow>
     run_state m w = (Inl e, w') \<or>
     (\<exists>a v. run_state m w = (Inr a, v) \<and> run_state (f a) v = (Inl e, w'))"
  by (auto split: prod.splits sum.splits)

lemma try_bindE:
  assumes "run_state (try_bind m f) w = (r, w')"
  obtains (stop) e where "run_state m w = (Inl e, w')" "r = Inl e"
  | (go) a v where "run_state m w = (Inr a, v)" "run_state (f a) v = (r, w')"
  using assms by (auto split: prod.splits sum.splits)

lemma bindE:
  assumes "run_state (State_Monad.bind m f) w = (r, w')"
  obtains a v where "run_state m w = (a, v)" "run_state (f a) v = (r, w')"
  using assms by (auto split: prod.splits)

lemma returnE:
  assumes "run_state (State_Monad.return a) w = (r, w')"
  obtains "r = a" "w' = w"
  using assms by auto

lemma run_range_Inr:
  assumes "fst (run_state m w) \<in> range Inr"
  obtains a where "run_state m w = (Inr a, snd (run_state m w))"
  using assms by (cases "run_state m w") auto

subsection \<open>Hoare triples\<close>

text \<open>
  \<open>triple P m Q\<close>: started where \<open>P\<close> holds, \<open>m\<close> ends (programs are total) with a result and a
  world that satisfy \<open>Q\<close>. The rules for the program constructs are collected in \<open>triple\<close>.
\<close>

named_theorems triple

definition triple :: "('w \<Rightarrow> bool) \<Rightarrow> ('w, 'a) state \<Rightarrow> ('a \<Rightarrow> 'w \<Rightarrow> bool) \<Rightarrow> bool" where
  "triple P m Q \<longleftrightarrow> (\<forall>w. P w \<longrightarrow> (case run_state m w of (a, w') \<Rightarrow> Q a w'))"

lemma tripleI: "(\<And>w a w'. P w \<Longrightarrow> run_state m w = (a, w') \<Longrightarrow> Q a w') \<Longrightarrow> triple P m Q"
  by (auto simp: triple_def split: prod.splits)

lemma tripleD: "triple P m Q \<Longrightarrow> P w \<Longrightarrow> run_state m w = (a, w') \<Longrightarrow> Q a w'"
  by (auto simp: triple_def)

lemma triple_return [triple]: "(\<And>w. P w \<Longrightarrow> Q a w) \<Longrightarrow> triple P (State_Monad.return a) Q"
  by (simp add: triple_def)

lemma triple_bind [triple]:
  "triple P m R \<Longrightarrow> (\<And>a. triple (R a) (f a) Q) \<Longrightarrow> triple P (State_Monad.bind m f) Q"
  by (fastforce simp: triple_def split: prod.splits)

lemma triple_try_bind [triple]:
  "triple P m R \<Longrightarrow> (\<And>e w. R (Inl e) w \<Longrightarrow> Q (Inl e) w) \<Longrightarrow> (\<And>a. triple (R (Inr a)) (f a) Q) \<Longrightarrow>
     triple P (try_bind m f) Q"
  by (fastforce simp: triple_def split: prod.splits sum.splits)

lemma triple_if [triple]:
  "(c \<Longrightarrow> triple P m Q) \<Longrightarrow> (\<not> c \<Longrightarrow> triple P n Q) \<Longrightarrow> triple P (if c then m else n) Q"
  by simp

lemma triple_weaken:
  "triple P' m Q' \<Longrightarrow> (\<And>w. P w \<Longrightarrow> P' w) \<Longrightarrow> (\<And>a w. Q' a w \<Longrightarrow> Q a w) \<Longrightarrow> triple P m Q"
  by (fastforce simp: triple_def split: prod.splits)

subsection \<open>Step relations\<close>

text \<open>
  Many facts about a program relate the world before it to the world after it and compose along
  any sequence of steps: \<open>the audit log only grows\<close>, \<open>a revoked session stays revoked\<close>, \<open>this
  table is not touched\<close>. They are reflexive and transitive relations; a program respects one
  (\<open>state_io_rel R m\<close>, the library's constant) when each of its primitives does.
\<close>

named_theorems respects

locale step_relation =
  fixes R :: "'w \<Rightarrow> 'w \<Rightarrow> bool"
  assumes step_refl: "R w w"
    and step_trans: "R u v \<Longrightarrow> R v w \<Longrightarrow> R u w"
begin

lemma step_return: "state_io_rel R (State_Monad.return a)"
  by (simp add: state_io_rel_def step_refl)

lemma step_bind:
  "state_io_rel R m \<Longrightarrow> (\<And>a. state_io_rel R (f a)) \<Longrightarrow> state_io_rel R (State_Monad.bind m f)"
  by (auto simp: state_io_rel_def split: prod.splits) (metis snd_conv step_trans)

lemma step_try_bind:
  "state_io_rel R m \<Longrightarrow> (\<And>a. state_io_rel R (f a)) \<Longrightarrow> state_io_rel R (try_bind m f)"
  unfolding try_bind_def
  by (rule step_bind) (auto simp: step_return split: sum.splits)

lemmas step_rules = step_return step_bind step_try_bind

end

lemma respects_if [respects]:
  "(c \<Longrightarrow> state_io_rel R m) \<Longrightarrow> (\<not> c \<Longrightarrow> state_io_rel R n) \<Longrightarrow> state_io_rel R (if c then m else n)"
  by simp

lemma respects_sum [respects]:
  "(\<And>e. r = Inl e \<Longrightarrow> state_io_rel R (f e)) \<Longrightarrow> (\<And>a. r = Inr a \<Longrightarrow> state_io_rel R (g a)) \<Longrightarrow>
     state_io_rel R (case r of Inl e \<Rightarrow> f e | Inr a \<Rightarrow> g a)"
  by (cases r) simp_all

lemma respects_option [respects]:
  "(x = None \<Longrightarrow> state_io_rel R m) \<Longrightarrow> (\<And>a. x = Some a \<Longrightarrow> state_io_rel R (f a)) \<Longrightarrow>
     state_io_rel R (case x of None \<Rightarrow> m | Some a \<Rightarrow> f a)"
  by (cases x) simp_all

lemma respects_prod [respects]:
  "(\<And>a b. p = (a, b) \<Longrightarrow> state_io_rel R (f a b)) \<Longrightarrow> state_io_rel R (case p of (a, b) \<Rightarrow> f a b)"
  by (cases p) simp

lemma respects_let [respects]:
  "(\<And>x. x = t \<Longrightarrow> state_io_rel R (f x)) \<Longrightarrow> state_io_rel R (let x = t in f x)"
  by simp

lemma run_respects: "state_io_rel R m \<Longrightarrow> run_state m w = (a, w') \<Longrightarrow> R w w'"
  by (rule state_io_relD)

section \<open>Lists\<close>

lemma find_by_key:
  "distinct (map f xs) \<Longrightarrow> x \<in> set xs \<Longrightarrow> find (\<lambda>y. f y = f x) xs = Some x"
  by (induction xs) (auto simp: rev_image_eqI)

lemma find_Some_member: "find P xs = Some x \<Longrightarrow> x \<in> set xs \<and> P x"
  by (induction xs) (auto split: if_splits)

lemma find_append:
  "find P (xs @ ys) = (case find P xs of None \<Rightarrow> find P ys | Some x \<Rightarrow> Some x)"
  by (induction xs) auto

lemma distinct_map_update:
  "distinct (map f xs) \<Longrightarrow> (\<And>x. x \<in> set xs \<Longrightarrow> f (g x) = f x) \<Longrightarrow> distinct (map f (map g xs))"
  by (simp add: comp_def cong: map_cong)

lemma distinct_map_filter: "distinct (map f xs) \<Longrightarrow> distinct (map f (filter P xs))"
  by (auto simp: distinct_map inj_on_def)

lemma image_key_update:
  "(\<And>x. f (g x) = f x) \<Longrightarrow> f ` g ` A = f ` A"
  by (simp add: image_image)

end
