(* ===== verification/Models.thy ===== *)
theory Models
  imports Prelude
begin

text \<open>
  The rows of the database (\<open>backend/internal/models/models.go\<close>) and the state the program runs
  on: the clock, the PostgreSQL tables, the Redis keys, and scripts that say which calls fail.

  Times and durations are integers that count microseconds, the resolution at which PostgreSQL
  stores a \<open>TIMESTAMP\<close>. Identifiers (\<open>int64\<close>, \<open>BIGINT\<close>) are integers. A nullable column or a
  Go pointer is an \<open>option\<close>.
\<close>

section \<open>Rows\<close>

record role =
  r_id :: int
  r_name :: string
  r_description :: string
  r_created_at :: int

record user =
  u_id :: int
  u_role_id :: "int option"
  u_name :: string
  u_email :: string
  u_password_hash :: string
  u_active :: bool
  u_created_at :: int
  u_updated_at :: int

record permission =
  p_id :: int
  p_code :: string
  p_description :: string
  p_created_at :: int

record user_permission =
  up_user_id :: int
  up_permission_id :: int

record session =
  s_id :: int
  s_user_id :: int
  s_refresh_token_hash :: string
  s_expires_at :: int
  s_revoked :: bool
  s_revoked_at :: "int option"
  s_ip_address :: "string option"
  s_user_agent :: "string option"
  s_last_activity_at :: "int option"
  s_created_at :: int

text \<open>
  The values the program puts into the \<open>map[string]any\<close> of an audit entry. \<open>JDur\<close> is a
  duration written in (fractional) seconds or minutes.
\<close>

datatype json = JStr string | JInt int | JBool bool | JDur int | JNull

type_synonym json_map = "(string \<times> json) list"

record audit_log =
  al_id :: int
  al_user_id :: "int option"
  al_action :: string
  al_entity :: string
  al_entity_id :: "int option"
  al_old_data :: "json_map option"
  al_new_data :: "json_map option"
  al_created_at :: int

text \<open>
  The tables, each a list of rows in insertion order, and the next value of each identity
  sequence.
\<close>

record database =
  roles :: "role list"
  users :: "user list"
  permissions :: "permission list"
  user_permissions :: "user_permission list"
  sessions :: "session list"
  audit_logs :: "audit_log list"
  next_user_id :: int
  next_permission_id :: int
  next_session_id :: int
  next_audit_id :: int

section \<open>Redis keys\<close>

datatype redis_value = RInt int | RStr string | RSet "string list"

record redis_entry =
  re_value :: redis_value
  re_expires :: "int option"

type_synonym redis_store = "string \<rightharpoonup> redis_entry"

section \<open>The world\<close>

text \<open>
  What happens to a call to the database or to Redis: it works; it fails with no effect; or its
  effect is made but the answer is lost, so that the client sees an error. A script of faults
  is consumed call by call; when it is empty every call works.
\<close>

datatype io_fault = Works | Fails | Lost

text \<open>
  \<open>ticks\<close> says how much time passes before each further step that reads the clock or calls a
  service (none, when it is empty). \<open>entropy\<close> holds the answers of \<open>crypto/rand\<close>.
\<close>

record world =
  clock :: int
  ticks :: "nat list"
  db :: database
  db_faults :: "io_fault list"
  redis :: redis_store
  redis_faults :: "io_fault list"
  entropy :: "string list"

definition elapse :: "world \<Rightarrow> world" where
  "elapse w = (case ticks w of [] \<Rightarrow> w | d # ds \<Rightarrow> w\<lparr>clock := clock w + int d, ticks := ds\<rparr>)"

lemma elapse_simps [simp]:
  "db (elapse w) = db w" "db_faults (elapse w) = db_faults w" "redis (elapse w) = redis w"
  "redis_faults (elapse w) = redis_faults w" "entropy (elapse w) = entropy w"
  by (simp_all add: elapse_def split: list.splits)

lemma elapse_clock: "clock w \<le> clock (elapse w)"
  by (simp add: elapse_def split: list.splits)

lemma elapse_update [simp]:
  "elapse (w\<lparr>db := d\<rparr>) = (elapse w)\<lparr>db := d\<rparr>"
  "elapse (w\<lparr>redis := st\<rparr>) = (elapse w)\<lparr>redis := st\<rparr>"
  "elapse (w\<lparr>db_faults := fs\<rparr>) = (elapse w)\<lparr>db_faults := fs\<rparr>"
  "elapse (w\<lparr>redis_faults := fs\<rparr>) = (elapse w)\<lparr>redis_faults := fs\<rparr>"
  "elapse (w\<lparr>entropy := bs\<rparr>) = (elapse w)\<lparr>entropy := bs\<rparr>"
  by (simp_all add: elapse_def split: list.splits)

lemma elapse_no_ticks [simp]: "ticks w = [] \<Longrightarrow> elapse w = w"
  by (simp add: elapse_def)

text \<open>\<open>time.Now()\<close>\<close>

definition time_now :: "(world, int) state" where
  "time_now = State (\<lambda>w. (clock (elapse w), elapse w))"

text \<open>\<open>rand.Read\<close> into a slice of \<open>n\<close> bytes\<close>

definition rand_read :: "nat \<Rightarrow> (world, err + string) state" where
  "rand_read n = State (\<lambda>w. case entropy w of
       [] \<Rightarrow> (Inl (ErrLib ''crypto/rand''), w)
     | b # bs \<Rightarrow>
         (if length b = n then (Inr b, w\<lparr>entropy := bs\<rparr>)
          else (Inl (ErrLib ''crypto/rand''), w\<lparr>entropy := bs\<rparr>)))"

text \<open>
  One statement sent to PostgreSQL. \<open>f\<close> gives, from the time on the server and the tables, the
  answer and the tables after it; a statement is atomic.
\<close>

definition db_call :: "(int \<Rightarrow> database \<Rightarrow> (err + 'a) \<times> database) \<Rightarrow> (world, err + 'a) state" where
  "db_call f = State (\<lambda>w0. let w = elapse w0; (r, d) = f (clock w) (db w) in
     case db_faults w of
       [] \<Rightarrow> (r, w\<lparr>db := d\<rparr>)
     | Works # fs \<Rightarrow> (r, w\<lparr>db := d, db_faults := fs\<rparr>)
     | Fails # fs \<Rightarrow> (Inl ErrDb, w\<lparr>db_faults := fs\<rparr>)
     | Lost # fs \<Rightarrow> (Inl ErrDb, w\<lparr>db := d, db_faults := fs\<rparr>))"

text \<open>One command sent to Redis.\<close>

definition redis_call ::
  "(int \<Rightarrow> redis_store \<Rightarrow> (err + 'a) \<times> redis_store) \<Rightarrow> (world, err + 'a) state" where
  "redis_call f = State (\<lambda>w0. let w = elapse w0; (r, st) = f (clock w) (redis w) in
     case redis_faults w of
       [] \<Rightarrow> (r, w\<lparr>redis := st\<rparr>)
     | Works # fs \<Rightarrow> (r, w\<lparr>redis := st, redis_faults := fs\<rparr>)
     | Fails # fs \<Rightarrow> (Inl ErrRedis, w\<lparr>redis_faults := fs\<rparr>)
     | Lost # fs \<Rightarrow> (Inl ErrRedis, w\<lparr>redis := st, redis_faults := fs\<rparr>))"

section \<open>What a primitive can do\<close>

lemma run_time_now [simp]: "run_state time_now w = (clock (elapse w), elapse w)"
  by (simp add: time_now_def)

lemma run_db_call:
  assumes "run_state (db_call f) w = (r, w')"
  shows "redis w' = redis w" "redis_faults w' = redis_faults w" "entropy w' = entropy w"
    "clock w' = clock (elapse w)" "ticks w' = ticks (elapse w)"
    "(r = fst (f (clock w') (db w)) \<and> db w' = snd (f (clock w') (db w))) \<or>
     (r = Inl ErrDb \<and> (db w' = db w \<or> db w' = snd (f (clock w') (db w))))"
    "db_faults w = [] \<Longrightarrow>
       r = fst (f (clock w') (db w)) \<and> db w' = snd (f (clock w') (db w)) \<and> db_faults w' = []"
  using assms
  by (cases "f (clock (elapse w)) (db w)"; cases "db_faults w";
      auto simp: db_call_def Let_def split: io_fault.splits)+

lemma run_redis_call:
  assumes "run_state (redis_call f) w = (r, w')"
  shows "db w' = db w" "db_faults w' = db_faults w" "entropy w' = entropy w"
    "clock w' = clock (elapse w)" "ticks w' = ticks (elapse w)"
    "(r = fst (f (clock w') (redis w)) \<and> redis w' = snd (f (clock w') (redis w))) \<or>
     (r = Inl ErrRedis \<and> (redis w' = redis w \<or> redis w' = snd (f (clock w') (redis w))))"
    "redis_faults w = [] \<Longrightarrow>
       r = fst (f (clock w') (redis w)) \<and> redis w' = snd (f (clock w') (redis w)) \<and>
       redis_faults w' = []"
  using assms
  by (cases "f (clock (elapse w)) (redis w)"; cases "redis_faults w";
      auto simp: redis_call_def Let_def split: io_fault.splits)+

lemma run_db_call_ok:
  "db_faults w = [] \<Longrightarrow> run_state (db_call f) w =
     (fst (f (clock (elapse w)) (db w)), (elapse w)\<lparr>db := snd (f (clock (elapse w)) (db w))\<rparr>)"
  by (simp add: db_call_def Let_def split: prod.splits)

lemma run_redis_call_ok:
  "redis_faults w = [] \<Longrightarrow> run_state (redis_call f) w =
     (fst (f (clock (elapse w)) (redis w)), (elapse w)\<lparr>redis := snd (f (clock (elapse w)) (redis w))\<rparr>)"
  by (simp add: redis_call_def Let_def split: prod.splits)

lemma run_db_call_clock: "run_state (db_call f) w = (r, w') \<Longrightarrow> clock w \<le> clock w'"
  using elapse_clock [of w] by (simp add: run_db_call(4))

lemma run_redis_call_clock: "run_state (redis_call f) w = (r, w') \<Longrightarrow> clock w \<le> clock w'"
  using elapse_clock [of w] by (simp add: run_redis_call(4))

lemma run_rand_read:
  assumes "run_state (rand_read n) w = (r, w')"
  shows "db w' = db w" "redis w' = redis w" "clock w' = clock w"
    "db_faults w' = db_faults w" "redis_faults w' = redis_faults w"
    "r = Inr b \<Longrightarrow> length b = n \<and> entropy w = b # entropy w'"
  using assms by (auto simp: rand_read_def split: list.splits if_splits)

section \<open>Time only passes\<close>

definition clock_mono :: "world \<Rightarrow> world \<Rightarrow> bool" where
  "clock_mono v w \<longleftrightarrow> clock v \<le> clock w"

interpretation cm: step_relation clock_mono
  by unfold_locales (auto simp: clock_mono_def)

lemma clock_mono_prims [respects]:
  "state_io_rel clock_mono time_now"
  "state_io_rel clock_mono (rand_read n)"
  "state_io_rel clock_mono (db_call f)"
  "state_io_rel clock_mono (redis_call g)"
  by (rule state_io_relI, auto simp: clock_mono_def elapse_clock run_rand_read(3)
      dest: run_db_call_clock run_redis_call_clock)+

section \<open>Sample worlds\<close>

text \<open>Empty tables and an empty store; the examples of the development start here.\<close>

definition empty_db :: database where
  "empty_db = \<lparr>roles = [], users = [], permissions = [], user_permissions = [], sessions = [],
     audit_logs = [], next_user_id = 1, next_permission_id = 1, next_session_id = 1,
     next_audit_id = 1\<rparr>"

definition empty_world :: world where
  "empty_world = \<lparr>clock = 0, ticks = [], db = empty_db, db_faults = [], redis = Map.empty,
     redis_faults = [], entropy = []\<rparr>"

end
