(* ===== verification/Redis.thy ===== *)
theory Redis
  imports Models
begin

text \<open>
  The Redis commands the program sends (\<open>backend/cache\<close>), with their documented meaning on a
  store of keys with an optional expiry, and the interface of a store of expiring keys that the
  rate limiter and the permission cache rest on. A key whose expiry has come is absent.
\<close>

section \<open>Commands\<close>

definition lookup :: "int \<Rightarrow> redis_store \<Rightarrow> string \<Rightarrow> redis_entry option" where
  "lookup now st k = (case st k of
     None \<Rightarrow> None
   | Some e \<Rightarrow> (case re_expires e of
        None \<Rightarrow> Some e
      | Some t \<Rightarrow> if now < t then Some e else None))"

text \<open>
  \<open>TTL\<close>: the time left, in the unit of the answer. Redis answers in whole seconds and does not
  say how it rounds, so the rounding is a parameter \<open>ttl_reply\<close>; a key without expiry and an
  absent key give negative numbers.
\<close>

definition ttl_cmd :: "(int \<Rightarrow> int) \<Rightarrow> string \<Rightarrow> int \<Rightarrow> redis_store \<Rightarrow> (err + int) \<times> redis_store" where
  "ttl_cmd ttl_reply k now st = (Inr (case lookup now st k of
       None \<Rightarrow> - 2
     | Some e \<Rightarrow> (case re_expires e of None \<Rightarrow> - 1 | Some t \<Rightarrow> ttl_reply (t - now))), st)"

text \<open>\<open>GET\<close> read as an integer (\<open>.Int64()\<close>).\<close>

definition get_int_cmd :: "string \<Rightarrow> int \<Rightarrow> redis_store \<Rightarrow> (err + int) \<times> redis_store" where
  "get_int_cmd k now st = ((case lookup now st k of
       None \<Rightarrow> Inl ErrRedis
     | Some e \<Rightarrow> (case re_value e of RInt n \<Rightarrow> Inr n | _ \<Rightarrow> Inl ErrRedis)), st)"

text \<open>\<open>GET\<close> read as bytes; \<open>None\<close> is \<open>redis.Nil\<close>.\<close>

definition get_cmd :: "string \<Rightarrow> int \<Rightarrow> redis_store \<Rightarrow> (err + string option) \<times> redis_store" where
  "get_cmd k now st = ((case lookup now st k of
       None \<Rightarrow> Inr None
     | Some e \<Rightarrow> (case re_value e of RStr s \<Rightarrow> Inr (Some s) | _ \<Rightarrow> Inl ErrRedis)), st)"

definition incr_cmd :: "string \<Rightarrow> int \<Rightarrow> redis_store \<Rightarrow> (err + int) \<times> redis_store" where
  "incr_cmd k now st = (case lookup now st k of
       None \<Rightarrow> (Inr 1, st(k \<mapsto> \<lparr>re_value = RInt 1, re_expires = None\<rparr>))
     | Some e \<Rightarrow> (case re_value e of
          RInt n \<Rightarrow>
            (if n < 2 ^ 63 - 1 then (Inr (n + 1), st(k \<mapsto> e\<lparr>re_value := RInt (n + 1)\<rparr>))
             else (Inl ErrRedis, st))
        | _ \<Rightarrow> (Inl ErrRedis, st)))"

definition expire_cmd :: "string \<Rightarrow> int \<Rightarrow> int \<Rightarrow> redis_store \<Rightarrow> (err + unit) \<times> redis_store" where
  "expire_cmd k ttl now st = (Inr (), case lookup now st k of
       None \<Rightarrow> st
     | Some e \<Rightarrow> if ttl \<le> 0 then st(k := None) else st(k \<mapsto> e\<lparr>re_expires := Some (now + ttl)\<rparr>))"

definition set_cmd :: "string \<Rightarrow> redis_value \<Rightarrow> int \<Rightarrow> int \<Rightarrow> redis_store \<Rightarrow> (err + unit) \<times> redis_store" where
  "set_cmd k v ttl now st = (Inr (),
     st(k \<mapsto> \<lparr>re_value = v, re_expires = (if 0 < ttl then Some (now + ttl) else None)\<rparr>))"

definition del_cmd :: "string list \<Rightarrow> int \<Rightarrow> redis_store \<Rightarrow> (err + unit) \<times> redis_store" where
  "del_cmd ks now st = (Inr (), \<lambda>k. if k \<in> set ks then None else st k)"

definition smembers_cmd :: "string \<Rightarrow> int \<Rightarrow> redis_store \<Rightarrow> (err + string list) \<times> redis_store" where
  "smembers_cmd k now st = ((case lookup now st k of
       None \<Rightarrow> Inr []
     | Some e \<Rightarrow> (case re_value e of RSet xs \<Rightarrow> Inr xs | _ \<Rightarrow> Inl ErrRedis)), st)"

definition sadd_cmd :: "string \<Rightarrow> string list \<Rightarrow> int \<Rightarrow> redis_store \<Rightarrow> (err + unit) \<times> redis_store" where
  "sadd_cmd k xs now st = (case lookup now st k of
       None \<Rightarrow> (Inr (), st(k \<mapsto> \<lparr>re_value = RSet (remdups xs), re_expires = None\<rparr>))
     | Some e \<Rightarrow> (case re_value e of
          RSet ys \<Rightarrow> (Inr (), st(k \<mapsto> e\<lparr>re_value := RSet (remdups (ys @ xs))\<rparr>))
        | _ \<Rightarrow> (Inl ErrRedis, st)))"

section \<open>A store of expiring keys\<close>

text \<open>
  What a client of the store relies on: a read sees the last write until its expiry, a write to
  one key leaves the others alone, a deletion removes, and time only ever removes entries. The
  lemmas after the laws are what the rate limiter and the cache use.
\<close>

locale expiring_store =
  fixes look :: "int \<Rightarrow> 'st \<Rightarrow> 'k \<Rightarrow> 'e option"
    and put :: "'k \<Rightarrow> 'e \<Rightarrow> 'st \<Rightarrow> 'st"
    and del :: "'k list \<Rightarrow> 'st \<Rightarrow> 'st"
    and until :: "'e \<Rightarrow> int option"
  assumes look_put: "look now (put k e st) j =
      (if j = k then (case until e of None \<Rightarrow> Some e | Some t \<Rightarrow> if now < t then Some e else None)
       else look now st j)"
    and look_del: "look now (del ks st) j = (if j \<in> set ks then None else look now st j)"
    and look_later: "now \<le> later \<Longrightarrow> look later st k =
      (case look now st k of None \<Rightarrow> None
       | Some e \<Rightarrow> (case until e of None \<Rightarrow> Some e | Some t \<Rightarrow> if later < t then Some e else None))"
begin

lemma look_absent_later: "look now st k = None \<Longrightarrow> now \<le> later \<Longrightarrow> look later st k = None"
  by (simp add: look_later)

lemma look_kept_later:
  "look now st k = Some e \<Longrightarrow> now \<le> later \<Longrightarrow> (\<And>t. until e = Some t \<Longrightarrow> later < t) \<Longrightarrow>
     look later st k = Some e"
  by (simp add: look_later split: option.splits)

lemma look_earlier: "look later st k = Some e \<Longrightarrow> now \<le> later \<Longrightarrow> look now st k = Some e"
  by (simp add: look_later split: option.splits if_splits)

lemma look_alive: "look now st k = Some e \<Longrightarrow> until e = Some t \<Longrightarrow> now < t"
  using look_later [of now now st k] by (auto split: option.splits if_splits)

end

definition store_put :: "string \<Rightarrow> redis_entry \<Rightarrow> redis_store \<Rightarrow> redis_store" where
  "store_put k e st = st(k \<mapsto> e)"

definition store_del :: "string list \<Rightarrow> redis_store \<Rightarrow> redis_store" where
  "store_del ks st = (\<lambda>k. if k \<in> set ks then None else st k)"

interpretation rs: expiring_store lookup store_put store_del re_expires
  by unfold_locales (auto simp: lookup_def store_put_def store_del_def split: option.splits)

lemmas store_views = store_put_def [symmetric] store_del_def [symmetric]

lemma lookup_upd [simp]:
  "lookup now (st(k \<mapsto> e)) j =
     (if j = k then (case re_expires e of None \<Rightarrow> Some e | Some t \<Rightarrow> if now < t then Some e else None)
      else lookup now st j)"
  using rs.look_put [of now k e st j] by (simp add: store_put_def)

lemma lookup_remove [simp]:
  "lookup now (st(k := None)) j = (if j = k then None else lookup now st j)"
  using rs.look_del [of now "[k]" st j] by (simp add: store_del_def fun_upd_def)

lemma lookup_del [simp]:
  "lookup now (\<lambda>k. if k \<in> set ks then None else st k) j =
     (if j \<in> set ks then None else lookup now st j)"
  using rs.look_del [of now ks st j] by (simp add: store_del_def)

section \<open>Commands as programs\<close>

text \<open>The commands, as \<open>redis.Client\<close> (\<open>client.rdb\<close>) offers them.\<close>

definition rdb_ttl :: "(int \<Rightarrow> int) \<Rightarrow> string \<Rightarrow> (world, err + int) state" where
  "rdb_ttl ttl_reply k = redis_call (ttl_cmd ttl_reply k)"

definition rdb_get_int :: "string \<Rightarrow> (world, err + int) state" where
  "rdb_get_int k = redis_call (get_int_cmd k)"

definition rdb_get :: "string \<Rightarrow> (world, err + string option) state" where
  "rdb_get k = redis_call (get_cmd k)"

definition rdb_incr :: "string \<Rightarrow> (world, err + int) state" where
  "rdb_incr k = redis_call (incr_cmd k)"

text \<open>
  The commands carry a duration as a number: \<open>EXPIRE\<close> of seconds, \<open>SET\<close> of seconds or, where these
  are not exact, of milliseconds. What is left over is dropped, and a positive duration is at least one.
\<close>

definition in_units :: "int \<Rightarrow> int \<Rightarrow> int" where
  "in_units unit d = (if 0 < d \<and> d < unit then unit else d - d mod unit)"

abbreviation in_seconds :: "int \<Rightarrow> int" where "in_seconds \<equiv> in_units 1000000"
abbreviation in_millis :: "int \<Rightarrow> int" where "in_millis \<equiv> in_units 1000"

lemma in_units_exact [simp]: "d mod unit = 0 \<Longrightarrow> in_units unit d = d"
  by (auto simp: in_units_def dest: zdvd_not_zless)

lemma in_units_positive:
  assumes "0 < unit" shows "0 < in_units unit d \<longleftrightarrow> 0 < d"
proof -
  have "d mod unit < d" if "unit \<le> d" using assms that pos_mod_bound [of unit d] by linarith
  moreover have "d \<le> d mod unit" if "d \<le> 0" using assms that pos_mod_sign [of unit d] by linarith
  ultimately show ?thesis using assms by (smt (verit) in_units_def)
qed

lemma in_seconds_sign [simp]: "0 < in_seconds d \<longleftrightarrow> 0 < d" "in_seconds d \<le> 0 \<longleftrightarrow> d \<le> 0"
  using in_units_positive [of 1000000 d] by (simp_all add: not_less [symmetric])

definition rdb_expire :: "string \<Rightarrow> int \<Rightarrow> (world, err + unit) state" where
  "rdb_expire k ttl = redis_call (expire_cmd k (in_seconds ttl))"

definition rdb_set :: "string \<Rightarrow> redis_value \<Rightarrow> int \<Rightarrow> (world, err + unit) state" where
  "rdb_set k v ttl = redis_call (set_cmd k v (in_millis ttl))"

definition rdb_del :: "string list \<Rightarrow> (world, err + unit) state" where
  "rdb_del ks = redis_call (del_cmd ks)"

definition rdb_smembers :: "string \<Rightarrow> (world, err + string list) state" where
  "rdb_smembers k = redis_call (smembers_cmd k)"

definition rdb_sadd :: "string \<Rightarrow> string list \<Rightarrow> (world, err + unit) state" where
  "rdb_sadd k xs = redis_call (sadd_cmd k xs)"

lemmas rdb_defs = rdb_ttl_def rdb_get_int_def rdb_get_def rdb_incr_def rdb_expire_def rdb_set_def
  rdb_del_def rdb_smembers_def rdb_sadd_def

text \<open>\<open>Client.key\<close>: every key carries the configured prefix.\<close>

definition client_key :: "string \<Rightarrow> string \<Rightarrow> string" where
  "client_key pre parts = pre @ parts"

lemma client_key_inj [simp]: "client_key pre a = client_key pre b \<longleftrightarrow> a = b"
  by (simp add: client_key_def)

end
