(* ===== verification/Repository.thy ===== *)
theory Repository
  imports Models "HOL-Library.Product_Lexorder" "HOL-Library.List_Lexorder" "HOL-Library.Char_ord"
begin

text \<open>
  The repositories (\<open>backend/internal/repository\<close>): every query of the program, translated to
  functions on the tables of \<open>database\<close>. A query function takes the time on the server and the
  tables and gives the answer and the tables after it; the repository operation of the same name
  sends it with \<open>db_call\<close>, so that it can fail. The constraints of the schema
  (\<open>backend/migrations\<close>: identities, \<open>UNIQUE\<close>, foreign keys, \<open>ON DELETE CASCADE\<close>) are part of
  the queries; a value the server refuses for another reason (a text too long, a wrong
  encoding) is a call that fails. The order of an answer without \<open>ORDER BY\<close> is the insertion
  order; \<open>ORDER BY\<close> on text uses the database's collation, the parameter \<open>collate\<close>.
\<close>

section \<open>Users\<close>

text \<open>A user with the relations the query loads (\<open>Relation("Role")\<close>, \<open>Relation("Permissions")\<close>).\<close>

record user_view =
  uv_user :: user
  uv_role :: "role option"
  uv_permissions :: "permission list"

definition role_of :: "database \<Rightarrow> user \<Rightarrow> role option" where
  "role_of d u = (case u_role_id u of None \<Rightarrow> None | Some i \<Rightarrow> find (\<lambda>r. r_id r = i) (roles d))"

definition permissions_of :: "database \<Rightarrow> int \<Rightarrow> permission list" where
  "permissions_of d uid =
     [p. p \<leftarrow> permissions d, up \<leftarrow> user_permissions d, up_permission_id up = p_id p \<and> up_user_id up = uid]"

definition q_user_by_email :: "string \<Rightarrow> int \<Rightarrow> database \<Rightarrow> (err + user_view) \<times> database" where
  "q_user_by_email email now d = ((case find (\<lambda>u. u_email u = email) (users d) of
       None \<Rightarrow> Inl ErrNotFound
     | Some u \<Rightarrow> Inr \<lparr>uv_user = u, uv_role = role_of d u, uv_permissions = []\<rparr>), d)"

definition q_user_by_id :: "int \<Rightarrow> int \<Rightarrow> database \<Rightarrow> (err + user_view) \<times> database" where
  "q_user_by_id uid now d = ((case find (\<lambda>u. u_id u = uid) (users d) of
       None \<Rightarrow> Inl ErrNotFound
     | Some u \<Rightarrow> Inr \<lparr>uv_user = u, uv_role = role_of d u, uv_permissions = []\<rparr>), d)"

definition user_repo_find_by_email :: "string \<Rightarrow> (world, err + user_view) state" where
  "user_repo_find_by_email email = db_call (q_user_by_email email)"

text \<open>The many-to-many relation is loaded by a second query.\<close>

definition user_repo_find_by_id :: "int \<Rightarrow> (world, err + user_view) state" where
  "user_repo_find_by_id uid =
     try_bind (db_call (q_user_by_id uid)) (\<lambda>v.
     try_bind (db_call (\<lambda>now d. (Inr (permissions_of d uid), d))) (\<lambda>ps.
       State_Monad.return (Inr (v\<lparr>uv_permissions := ps\<rparr>))))"

definition user_repo_list :: "(world, err + user_view list) state" where
  "user_repo_list =
     try_bind (db_call (\<lambda>now d. (Inr (map (\<lambda>u. (u, role_of d u)) (sort_key u_id (users d))), d))) (\<lambda>us.
     try_bind (db_call (\<lambda>now d. (Inr (map (\<lambda>(u, r). permissions_of d (u_id u)) us), d))) (\<lambda>pss.
       State_Monad.return (Inr (map (\<lambda>((u, r), ps).
         \<lparr>uv_user = u, uv_role = r, uv_permissions = ps\<rparr>) (zip us pss)))))"

definition user_repo_count :: "(world, err + int) state" where
  "user_repo_count = db_call (\<lambda>now d. (Inr (int (length (users d))), d))"

definition role_exists :: "database \<Rightarrow> int option \<Rightarrow> bool" where
  "role_exists d r = (case r of None \<Rightarrow> True | Some i \<Rightarrow> i \<in> r_id ` set (roles d))"

text \<open>An insert takes the next identity even when a constraint refuses the row.\<close>

definition q_user_create :: "user \<Rightarrow> int \<Rightarrow> database \<Rightarrow> (err + user) \<times> database" where
  "q_user_create u now d =
     (let row = u\<lparr>u_id := next_user_id d, u_created_at := now, u_updated_at := now\<rparr>;
          d' = d\<lparr>next_user_id := next_user_id d + 1\<rparr>
      in if u_email u \<in> u_email ` set (users d) \<or> \<not> role_exists d (u_role_id u) then (Inl ErrDb, d')
         else (Inr row, d'\<lparr>users := users d @ [row]\<rparr>))"

definition user_repo_create :: "user \<Rightarrow> (world, err + user) state" where
  "user_repo_create u = db_call (q_user_create u)"

definition q_user_update_password_hash ::
  "int \<Rightarrow> string \<Rightarrow> int \<Rightarrow> int \<Rightarrow> database \<Rightarrow> (err + unit) \<times> database" where
  "q_user_update_password_hash uid hash stamp now d =
     (if uid \<in> u_id ` set (users d) then
        (Inr (), d\<lparr>users := map (\<lambda>u. if u_id u = uid then u\<lparr>u_password_hash := hash, u_updated_at := stamp\<rparr>
                                     else u) (users d)\<rparr>)
      else (Inl ErrNotFound, d))"

definition user_repo_update_password_hash :: "int \<Rightarrow> string \<Rightarrow> (world, err + unit) state" where
  "user_repo_update_password_hash uid hash = do {
     stamp \<leftarrow> time_now;
     db_call (q_user_update_password_hash uid hash stamp)
   }"

definition q_user_update :: "user \<Rightarrow> int \<Rightarrow> database \<Rightarrow> (err + unit) \<times> database" where
  "q_user_update v now d =
     (if u_id v \<notin> u_id ` set (users d) then (Inl ErrNotFound, d)
      else if (\<exists>u\<in>set (users d). u_email u = u_email v \<and> u_id u \<noteq> u_id v) \<or> \<not> role_exists d (u_role_id v)
      then (Inl ErrDb, d)
      else (Inr (), d\<lparr>users := map (\<lambda>u. if u_id u = u_id v
               then u\<lparr>u_role_id := u_role_id v, u_name := u_name v, u_email := u_email v,
                      u_password_hash := u_password_hash v, u_active := u_active v,
                      u_updated_at := u_updated_at v\<rparr>
               else u) (users d)\<rparr>))"

text \<open>\<open>Update\<close> stamps the user it is given; the stamped user is returned with the answer.\<close>

definition user_repo_update :: "user \<Rightarrow> (world, err + user) state" where
  "user_repo_update u = do {
     stamp \<leftarrow> time_now;
     try_bind (db_call (q_user_update (u\<lparr>u_updated_at := stamp\<rparr>))) (\<lambda>_.
       State_Monad.return (Inr (u\<lparr>u_updated_at := stamp\<rparr>)))
   }"

section \<open>Permissions and grants\<close>

definition permission_repo_list_all :: "(string \<Rightarrow> string) \<Rightarrow> (world, err + permission list) state" where
  "permission_repo_list_all collate =
     db_call (\<lambda>now d. (Inr (sort_key (\<lambda>p. collate (p_code p)) (permissions d)), d))"

definition role_repo_list :: "(string \<Rightarrow> string) \<Rightarrow> (world, err + role list) state" where
  "role_repo_list collate = db_call (\<lambda>now d. (Inr (sort_key (\<lambda>r. collate (r_name r)) (roles d)), d))"

definition q_permission_by :: "(permission \<Rightarrow> bool) \<Rightarrow> int \<Rightarrow> database \<Rightarrow> (err + permission) \<times> database" where
  "q_permission_by P now d =
     ((case find P (permissions d) of None \<Rightarrow> Inl ErrNotFound | Some p \<Rightarrow> Inr p), d)"

definition permission_repo_find_by_code :: "string \<Rightarrow> (world, err + permission) state" where
  "permission_repo_find_by_code code = db_call (q_permission_by (\<lambda>p. p_code p = code))"

definition permission_repo_find_by_id :: "int \<Rightarrow> (world, err + permission) state" where
  "permission_repo_find_by_id pid = db_call (q_permission_by (\<lambda>p. p_id p = pid))"

definition codes_of :: "database \<Rightarrow> int \<Rightarrow> string list" where
  "codes_of d uid = map p_code (permissions_of d uid)"

definition permission_repo_list_codes_by_user_id :: "int \<Rightarrow> (world, err + string list) state" where
  "permission_repo_list_codes_by_user_id uid = db_call (\<lambda>now d. (Inr (codes_of d uid), d))"

definition add_grant :: "user_permission \<Rightarrow> user_permission list \<Rightarrow> user_permission list" where
  "add_grant g gs = (if g \<in> set gs then gs else gs @ [g])"

definition q_grant :: "int \<Rightarrow> int \<Rightarrow> int \<Rightarrow> database \<Rightarrow> (err + unit) \<times> database" where
  "q_grant uid pid now d =
     (if uid \<notin> u_id ` set (users d) \<or> pid \<notin> p_id ` set (permissions d) then (Inl ErrDb, d)
      else (Inr (), d\<lparr>user_permissions :=
        add_grant \<lparr>up_user_id = uid, up_permission_id = pid\<rparr> (user_permissions d)\<rparr>))"

definition permission_repo_grant :: "int \<Rightarrow> int \<Rightarrow> (world, err + unit) state" where
  "permission_repo_grant uid pid = db_call (q_grant uid pid)"

definition q_revoke :: "int \<Rightarrow> int \<Rightarrow> int \<Rightarrow> database \<Rightarrow> (err + unit) \<times> database" where
  "q_revoke uid pid now d = (Inr (), d\<lparr>user_permissions :=
     filter (\<lambda>g. \<not> (up_user_id g = uid \<and> up_permission_id g = pid)) (user_permissions d)\<rparr>)"

definition permission_repo_revoke :: "int \<Rightarrow> int \<Rightarrow> (world, err + unit) state" where
  "permission_repo_revoke uid pid = db_call (q_revoke uid pid)"

definition q_grant_all :: "int \<Rightarrow> int \<Rightarrow> database \<Rightarrow> (err + unit) \<times> database" where
  "q_grant_all uid now d =
     (if uid \<notin> u_id ` set (users d) \<and> permissions d \<noteq> [] then (Inl ErrDb, d)
      else (Inr (), d\<lparr>user_permissions := fold (\<lambda>p. add_grant \<lparr>up_user_id = uid, up_permission_id = p_id p\<rparr>)
        (permissions d) (user_permissions d)\<rparr>))"

definition permission_repo_grant_all :: "int \<Rightarrow> (world, err + unit) state" where
  "permission_repo_grant_all uid = db_call (q_grant_all uid)"

definition q_permission_create :: "permission \<Rightarrow> int \<Rightarrow> database \<Rightarrow> (err + permission) \<times> database" where
  "q_permission_create p now d =
     (let row = p\<lparr>p_id := next_permission_id d, p_created_at := now\<rparr>;
          d' = d\<lparr>next_permission_id := next_permission_id d + 1\<rparr>
      in if p_code p \<in> p_code ` set (permissions d) then (Inl ErrDb, d')
         else (Inr row, d'\<lparr>permissions := permissions d @ [row]\<rparr>))"

definition permission_repo_create :: "permission \<Rightarrow> (world, err + permission) state" where
  "permission_repo_create p = db_call (q_permission_create p)"

definition q_permission_update_description ::
  "int \<Rightarrow> string \<Rightarrow> int \<Rightarrow> database \<Rightarrow> (err + unit) \<times> database" where
  "q_permission_update_description pid description now d =
     (if pid \<in> p_id ` set (permissions d) then
        (Inr (), d\<lparr>permissions := map (\<lambda>p. if p_id p = pid then p\<lparr>p_description := description\<rparr> else p)
          (permissions d)\<rparr>)
      else (Inl ErrNotFound, d))"

definition permission_repo_update_description :: "int \<Rightarrow> string \<Rightarrow> (world, err + unit) state" where
  "permission_repo_update_description pid description =
     db_call (q_permission_update_description pid description)"

text \<open>Deleting a permission deletes its grants (\<open>ON DELETE CASCADE\<close>).\<close>

definition q_permission_delete :: "int \<Rightarrow> int \<Rightarrow> database \<Rightarrow> (err + unit) \<times> database" where
  "q_permission_delete pid now d =
     (if pid \<in> p_id ` set (permissions d) then
        (Inr (), d\<lparr>permissions := filter (\<lambda>p. p_id p \<noteq> pid) (permissions d),
                   user_permissions := filter (\<lambda>g. up_permission_id g \<noteq> pid) (user_permissions d)\<rparr>)
      else (Inl ErrNotFound, d))"

definition permission_repo_delete :: "int \<Rightarrow> (world, err + unit) state" where
  "permission_repo_delete pid = db_call (q_permission_delete pid)"

definition assignments :: "database \<Rightarrow> int \<Rightarrow> int" where
  "assignments d pid = int (length (filter (\<lambda>g. up_permission_id g = pid) (user_permissions d)))"

definition permission_repo_count_assignments :: "int \<Rightarrow> (world, err + int) state" where
  "permission_repo_count_assignments pid = db_call (\<lambda>now d. (Inr (assignments d pid), d))"

text \<open>The joined rows of active users, their grants and the permission with the code.\<close>

definition active_users_with_code :: "database \<Rightarrow> string \<Rightarrow> user list" where
  "active_users_with_code d code =
     [u. u \<leftarrow> users d, up \<leftarrow> user_permissions d, p \<leftarrow> permissions d,
         up_user_id up = u_id u \<and> p_id p = up_permission_id up \<and> p_code p = code \<and> u_active u]"

definition permission_repo_count_active_users_with_code :: "string \<Rightarrow> (world, err + int) state" where
  "permission_repo_count_active_users_with_code code =
     db_call (\<lambda>now d. (Inr (int (length (active_users_with_code d code))), d))"

end
