(* ===== verification/Session_Repository.thy ===== *)
theory Session_Repository
  imports Repository
begin

text \<open>
  The queries on sessions (\<open>repository/session.go\<close>) and on the audit log
  (\<open>repository/audit.go\<close>), in the style of \<open>Repository\<close>.
\<close>

section \<open>Sessions\<close>

definition q_session_create :: "session \<Rightarrow> int \<Rightarrow> database \<Rightarrow> (err + session) \<times> database" where
  "q_session_create s now d =
     (let row = s\<lparr>s_id := next_session_id d, s_created_at := now\<rparr>;
          d' = d\<lparr>next_session_id := next_session_id d + 1\<rparr>
      in if s_user_id s \<notin> u_id ` set (users d) then (Inl ErrDb, d')
         else (Inr row, d'\<lparr>sessions := sessions d @ [row]\<rparr>))"

definition session_repo_create :: "session \<Rightarrow> (world, err + session) state" where
  "session_repo_create s = db_call (q_session_create s)"

definition q_session_by :: "(session \<Rightarrow> bool) \<Rightarrow> int \<Rightarrow> database \<Rightarrow> (err + session) \<times> database" where
  "q_session_by P now d = ((case find P (sessions d) of None \<Rightarrow> Inl ErrNotFound | Some s \<Rightarrow> Inr s), d)"

text \<open>A session is active when it is neither revoked nor expired.\<close>

definition active_at :: "int \<Rightarrow> session \<Rightarrow> bool" where
  "active_at now s \<longleftrightarrow> \<not> s_revoked s \<and> now < s_expires_at s"

definition session_repo_find_active_by_token_hash :: "string \<Rightarrow> (world, err + session) state" where
  "session_repo_find_active_by_token_hash token_hash = do {
     now \<leftarrow> time_now;
     db_call (q_session_by (\<lambda>s. s_refresh_token_hash s = token_hash \<and> active_at now s))
   }"

definition session_repo_find_by_token_hash :: "string \<Rightarrow> (world, err + session) state" where
  "session_repo_find_by_token_hash token_hash = db_call (q_session_by (\<lambda>s. s_refresh_token_hash s = token_hash))"

definition session_repo_find_by_id :: "int \<Rightarrow> (world, err + session) state" where
  "session_repo_find_by_id sid = db_call (q_session_by (\<lambda>s. s_id s = sid))"

definition revoke_row :: "int \<Rightarrow> session \<Rightarrow> session" where
  "revoke_row now s = s\<lparr>s_revoked := True, s_revoked_at := Some now\<rparr>"

text \<open>\<open>UPDATE sessions SET revoked, revoked_at WHERE P AND revoked = FALSE\<close>\<close>

definition q_session_revoke :: "(session \<Rightarrow> bool) \<Rightarrow> int \<Rightarrow> int \<Rightarrow> database \<Rightarrow> (err + unit) \<times> database" where
  "q_session_revoke P stamp now d = (Inr (), d\<lparr>sessions :=
     map (\<lambda>s. if P s \<and> \<not> s_revoked s then revoke_row stamp s else s) (sessions d)\<rparr>)"

definition session_repo_revoke_with_timestamp :: "int \<Rightarrow> (world, err + unit) state" where
  "session_repo_revoke_with_timestamp sid = do {
     now \<leftarrow> time_now;
     db_call (q_session_revoke (\<lambda>s. s_id s = sid) now)
   }"

definition session_repo_revoke_all_by_user :: "int \<Rightarrow> (world, err + unit) state" where
  "session_repo_revoke_all_by_user uid = do {
     now \<leftarrow> time_now;
     db_call (q_session_revoke (\<lambda>s. s_user_id s = uid) now)
   }"

definition session_repo_revoke_all_by_user_except_current :: "int \<Rightarrow> int \<Rightarrow> (world, err + unit) state" where
  "session_repo_revoke_all_by_user_except_current uid current = do {
     now \<leftarrow> time_now;
     db_call (q_session_revoke (\<lambda>s. s_user_id s = uid \<and> s_id s \<noteq> current) now)
   }"

definition q_session_touch :: "int \<Rightarrow> int \<Rightarrow> int \<Rightarrow> database \<Rightarrow> (err + int) \<times> database" where
  "q_session_touch sid stamp now d =
     (Inr (int (length (filter (\<lambda>s. s_id s = sid \<and> \<not> s_revoked s) (sessions d)))),
      d\<lparr>sessions := map (\<lambda>s. if s_id s = sid \<and> \<not> s_revoked s then s\<lparr>s_last_activity_at := Some stamp\<rparr> else s)
        (sessions d)\<rparr>)"

text \<open>The answer is the number of rows affected.\<close>

definition session_repo_touch_activity :: "int \<Rightarrow> (world, err + int) state" where
  "session_repo_touch_activity sid = do {
     stamp \<leftarrow> time_now;
     db_call (q_session_touch sid stamp)
   }"

definition session_repo_count_by_user_id :: "int \<Rightarrow> (world, err + int) state" where
  "session_repo_count_by_user_id uid =
     db_call (\<lambda>now d. (Inr (int (length (filter (\<lambda>s. s_user_id s = uid) (sessions d)))), d))"

definition session_repo_count_active_by_user_id :: "int \<Rightarrow> (world, err + int) state" where
  "session_repo_count_active_by_user_id uid = do {
     now \<leftarrow> time_now;
     db_call (\<lambda>_ d. (Inr (int (length (filter (\<lambda>s. s_user_id s = uid \<and> active_at now s) (sessions d)))), d))
   }"

text \<open>
  \<open>ORDER BY last_activity_at DESC, created_at DESC\<close>: a \<open>NULL\<close> comes first, as PostgreSQL does
  for a descending order.
\<close>

definition recency :: "session \<Rightarrow> int \<times> int \<times> int" where
  "recency s = (case s_last_activity_at s of None \<Rightarrow> (0, 0, - s_created_at s)
     | Some t \<Rightarrow> (1, - t, - s_created_at s))"

definition session_repo_find_active_by_user_id :: "int \<Rightarrow> (world, err + session list) state" where
  "session_repo_find_active_by_user_id uid = do {
     now \<leftarrow> time_now;
     db_call (\<lambda>_ d. (Inr (sort_key recency (filter (\<lambda>s. s_user_id s = uid \<and> active_at now s) (sessions d))), d))
   }"

text \<open>\<open>expires_at < cutoff OR (revoked AND COALESCE(revoked_at, created_at) < cutoff)\<close>\<close>

definition stale :: "int \<Rightarrow> session \<Rightarrow> bool" where
  "stale cutoff s \<longleftrightarrow> s_expires_at s < cutoff \<or>
     (s_revoked s \<and> (case s_revoked_at s of None \<Rightarrow> s_created_at s | Some t \<Rightarrow> t) < cutoff)"

definition q_session_delete :: "(session \<Rightarrow> bool) \<Rightarrow> int \<Rightarrow> database \<Rightarrow> (err + int) \<times> database" where
  "q_session_delete P now d =
     (Inr (int (length (filter P (sessions d)))), d\<lparr>sessions := filter (\<lambda>s. \<not> P s) (sessions d)\<rparr>)"

definition session_repo_delete_expired :: "int \<Rightarrow> (world, err + int \<times> session list) state" where
  "session_repo_delete_expired retention = do {
     now \<leftarrow> time_now;
     (let cutoff = now - retention
      in try_bind (db_call (\<lambda>_ d. (Inr (filter (stale cutoff) (sessions d)), d))) (\<lambda>expired.
         try_bind (db_call (q_session_delete (stale cutoff))) (\<lambda>n.
           State_Monad.return (Inr (n, expired)))))
   }"

section \<open>The audit log\<close>

definition q_audit_insert :: "audit_log \<Rightarrow> int \<Rightarrow> database \<Rightarrow> (err + unit) \<times> database" where
  "q_audit_insert a now d =
     (let row = a\<lparr>al_id := next_audit_id d, al_created_at := now\<rparr>;
          d' = d\<lparr>next_audit_id := next_audit_id d + 1\<rparr>
      in if (case al_user_id a of None \<Rightarrow> False | Some i \<Rightarrow> i \<notin> u_id ` set (users d)) then (Inl ErrDb, d')
         else (Inr (), d'\<lparr>audit_logs := audit_logs d @ [row]\<rparr>))"

definition audit_repo_insert :: "audit_log \<Rightarrow> (world, err + unit) state" where
  "audit_repo_insert a = db_call (q_audit_insert a)"

definition audit_repo_list :: "nat \<Rightarrow> nat \<Rightarrow> (world, err + audit_log list) state" where
  "audit_repo_list limit offset = db_call (\<lambda>now d.
     (Inr (take limit (drop offset (sort_key (\<lambda>a. - al_created_at a) (audit_logs d)))), d))"

end
