(* ===== verification/Schema.thy ===== *)
theory Schema
  imports Session_Repository
begin

text \<open>
  The integrity of the tables, and what the queries do to them: the constraints of the schema
  hold in every state, the audit log only grows, a session never comes back from revoked and
  never changes its owner, its token or its expiry. Each is a relation on databases that every
  query respects, so every program built from the queries respects it too.
\<close>

section \<open>Tables with an identity\<close>

text \<open>
  A table whose rows get their key from a sequence: an insert appends the row under the next
  value. From that contract: keys stay unique and below the sequence, a lookup after an insert
  finds the new row under its key and every other row as before.
\<close>

definition ids_ok :: "('d \<Rightarrow> 'r list) \<Rightarrow> ('r \<Rightarrow> int) \<Rightarrow> ('d \<Rightarrow> int) \<Rightarrow> 'd \<Rightarrow> bool" where
  "ids_ok rows key nxt d \<longleftrightarrow> distinct (map key (rows d)) \<and> (\<forall>r\<in>set (rows d). key r < nxt d)"

locale identity_table =
  fixes rows :: "'d \<Rightarrow> 'r list" and key :: "'r \<Rightarrow> int" and nxt :: "'d \<Rightarrow> int"
    and append_row :: "'r \<Rightarrow> 'd \<Rightarrow> 'd" and replace :: "'r list \<Rightarrow> 'd \<Rightarrow> 'd"
  assumes rows_append: "rows (append_row r d) = rows d @ [r]"
    and nxt_append: "nxt (append_row r d) = nxt d + 1"
    and rows_replace: "rows (replace rs d) = rs"
    and nxt_replace: "nxt (replace rs d) = nxt d"
begin

lemma ids_append: "ids_ok rows key nxt d \<Longrightarrow> key r = nxt d \<Longrightarrow> ids_ok rows key nxt (append_row r d)"
  by (auto simp: ids_ok_def rows_append nxt_append intro: less_trans)

lemma ids_update:
  "ids_ok rows key nxt d \<Longrightarrow> (\<And>r. key (f r) = key r) \<Longrightarrow> ids_ok rows key nxt (replace (map f (rows d)) d)"
  by (simp add: ids_ok_def rows_replace nxt_replace comp_def)

lemma ids_filter: "ids_ok rows key nxt d \<Longrightarrow> ids_ok rows key nxt (replace (filter P (rows d)) d)"
  by (auto simp: ids_ok_def rows_replace nxt_replace distinct_map inj_on_def)

lemma find_appended:
  assumes "ids_ok rows key nxt d" and "key r = nxt d"
  shows "find (\<lambda>x. key x = i) (rows (append_row r d)) =
    (if i = nxt d then Some r else find (\<lambda>x. key x = i) (rows d))"
proof -
  have "find (\<lambda>x. key x = nxt d) (rows d) = None"
    using assms(1) by (auto simp: ids_ok_def find_None_iff)
  then show ?thesis using assms(2) by (auto simp: rows_append find_append split: option.splits)
qed

lemma find_by_id:
  "ids_ok rows key nxt d \<Longrightarrow> r \<in> set (rows d) \<Longrightarrow> find (\<lambda>x. key x = key r) (rows d) = Some r"
  by (simp add: ids_ok_def find_by_key)

end

definition append_user :: "user \<Rightarrow> database \<Rightarrow> database" where
  "append_user u d = d\<lparr>next_user_id := next_user_id d + 1, users := users d @ [u]\<rparr>"

definition append_permission :: "permission \<Rightarrow> database \<Rightarrow> database" where
  "append_permission p d =
     d\<lparr>next_permission_id := next_permission_id d + 1, permissions := permissions d @ [p]\<rparr>"

definition append_session :: "session \<Rightarrow> database \<Rightarrow> database" where
  "append_session s d = d\<lparr>next_session_id := next_session_id d + 1, sessions := sessions d @ [s]\<rparr>"

definition append_audit :: "audit_log \<Rightarrow> database \<Rightarrow> database" where
  "append_audit a d = d\<lparr>next_audit_id := next_audit_id d + 1, audit_logs := audit_logs d @ [a]\<rparr>"

interpretation ut: identity_table users u_id next_user_id append_user "\<lambda>us d. d\<lparr>users := us\<rparr>"
  by unfold_locales (simp_all add: append_user_def)

interpretation pt: identity_table permissions p_id next_permission_id append_permission
    "\<lambda>ps d. d\<lparr>permissions := ps\<rparr>"
  by unfold_locales (simp_all add: append_permission_def)

interpretation st: identity_table sessions s_id next_session_id append_session "\<lambda>ss d. d\<lparr>sessions := ss\<rparr>"
  by unfold_locales (simp_all add: append_session_def)

interpretation at: identity_table audit_logs al_id next_audit_id append_audit "\<lambda>as d. d\<lparr>audit_logs := as\<rparr>"
  by unfold_locales (simp_all add: append_audit_def)

section \<open>Integrity\<close>

definition user_ids :: "database \<Rightarrow> int set" where
  "user_ids d = u_id ` set (users d)"

definition permission_ids :: "database \<Rightarrow> int set" where
  "permission_ids d = p_id ` set (permissions d)"

definition users_ok :: "database \<Rightarrow> bool" where
  "users_ok d \<longleftrightarrow> ids_ok users u_id next_user_id d \<and> distinct (map u_email (users d)) \<and>
     (\<forall>u\<in>set (users d). role_exists d (u_role_id u))"

definition permissions_ok :: "database \<Rightarrow> bool" where
  "permissions_ok d \<longleftrightarrow> ids_ok permissions p_id next_permission_id d \<and> distinct (map p_code (permissions d))"

definition grants_ok :: "database \<Rightarrow> bool" where
  "grants_ok d \<longleftrightarrow> distinct (user_permissions d) \<and>
     (\<forall>g\<in>set (user_permissions d). up_user_id g \<in> user_ids d \<and> up_permission_id g \<in> permission_ids d)"

definition sessions_ok :: "database \<Rightarrow> bool" where
  "sessions_ok d \<longleftrightarrow> ids_ok sessions s_id next_session_id d \<and>
     (\<forall>s\<in>set (sessions d). s_user_id s \<in> user_ids d)"

definition audit_ok :: "database \<Rightarrow> bool" where
  "audit_ok d \<longleftrightarrow> ids_ok audit_logs al_id next_audit_id d \<and>
     (\<forall>a\<in>set (audit_logs d). \<forall>i. al_user_id a = Some i \<longrightarrow> i \<in> user_ids d)"

definition db_wf :: "database \<Rightarrow> bool" where
  "db_wf d \<longleftrightarrow> users_ok d \<and> permissions_ok d \<and> grants_ok d \<and> sessions_ok d \<and> audit_ok d"

lemmas wf_defs = db_wf_def users_ok_def permissions_ok_def grants_ok_def sessions_ok_def audit_ok_def
  user_ids_def permission_ids_def

lemma role_exists_update [simp]:
  "role_exists (d\<lparr>users := us\<rparr>) r = role_exists d r"
  "role_exists (d\<lparr>next_user_id := n\<rparr>) r = role_exists d r"
  "role_exists (d\<lparr>permissions := ps\<rparr>) r = role_exists d r"
  "role_exists (d\<lparr>next_permission_id := n\<rparr>) r = role_exists d r"
  "role_exists (d\<lparr>user_permissions := gs\<rparr>) r = role_exists d r"
  "role_exists (d\<lparr>sessions := ss\<rparr>) r = role_exists d r"
  "role_exists (d\<lparr>next_session_id := n\<rparr>) r = role_exists d r"
  "role_exists (d\<lparr>audit_logs := as\<rparr>) r = role_exists d r"
  "role_exists (d\<lparr>next_audit_id := n\<rparr>) r = role_exists d r"
  by (simp_all add: role_exists_def split: option.splits)

lemma ids_ok_frame:
  "rows d' = rows d \<Longrightarrow> nxt d \<le> nxt d' \<Longrightarrow> ids_ok rows key nxt d \<Longrightarrow> ids_ok rows key nxt d'"
  by (fastforce simp: ids_ok_def)

lemma wf_user_create: "db_wf d \<Longrightarrow> db_wf (snd (q_user_create u now d))"
  using ut.ids_append [of d "u\<lparr>u_id := next_user_id d, u_created_at := now, u_updated_at := now\<rparr>"]
  by (auto simp: wf_defs q_user_create_def Let_def append_user_def image_iff intro: ids_ok_frame)

text \<open>Replacing the rows of one table.\<close>

lemma wf_replace_users:
  assumes "db_wf d" and "map u_id us = map u_id (users d)" and "distinct (map u_email us)"
    and "\<And>u. u \<in> set us \<Longrightarrow> role_exists d (u_role_id u)"
  shows "db_wf (d\<lparr>users := us\<rparr>)"
proof -
  from assms(2) have ids: "u_id ` set us = u_id ` set (users d)" by (metis set_map)
  then have "(\<forall>u\<in>set us. u_id u < n) \<longleftrightarrow> (\<forall>u\<in>set (users d). u_id u < n)" for n
    by (metis (no_types, lifting) image_iff)
  with assms ids show ?thesis by (simp add: wf_defs ids_ok_def)
qed

lemma wf_replace_permissions:
  assumes "db_wf d" and "map p_id ps = map p_id (permissions d)" and "distinct (map p_code ps)"
  shows "db_wf (d\<lparr>permissions := ps\<rparr>)"
proof -
  from assms(2) have ids: "p_id ` set ps = p_id ` set (permissions d)" by (metis set_map)
  then have "(\<forall>u\<in>set ps. p_id u < n) \<longleftrightarrow> (\<forall>u\<in>set (permissions d). p_id u < n)" for n
    by (metis (no_types, lifting) image_iff)
  with assms ids show ?thesis by (simp add: wf_defs ids_ok_def)
qed

lemma wf_replace_sessions:
  assumes "db_wf d" and "distinct (map s_id ss)"
    and "\<And>s. s \<in> set ss \<Longrightarrow> \<exists>t\<in>set (sessions d). s_id s = s_id t \<and> s_user_id s = s_user_id t"
  shows "db_wf (d\<lparr>sessions := ss\<rparr>)"
  using assms by (fastforce simp: wf_defs ids_ok_def)

lemma wf_map_sessions:
  assumes "db_wf d" and "\<And>s. s_id (f s) = s_id s" and "\<And>s. s_user_id (f s) = s_user_id s"
  shows "db_wf (d\<lparr>sessions := map f (sessions d)\<rparr>)"
proof (rule wf_replace_sessions [OF assms(1)])
  have "map s_id (map f (sessions d)) = map s_id (sessions d)" by (simp add: assms(2))
  then show "distinct (map s_id (map f (sessions d)))"
    using assms(1) by (simp only:) (simp add: wf_defs ids_ok_def)
qed (use assms in auto)

lemma wf_user_update_password_hash:
  assumes "db_wf d"
  shows "db_wf (snd (q_user_update_password_hash uid hash stamp now d))"
proof -
  let ?f = "\<lambda>u. if u_id u = uid then u\<lparr>u_password_hash := hash, u_updated_at := stamp\<rparr> else u"
  have "map u_email (map ?f (users d)) = map u_email (users d)" by simp
  then have "distinct (map u_email (map ?f (users d)))"
    using assms by (simp only:) (simp add: wf_defs)
  then have "db_wf (d\<lparr>users := map ?f (users d)\<rparr>)"
    using assms by (intro wf_replace_users) (auto simp: wf_defs)
  with assms show ?thesis by (simp add: q_user_update_password_hash_def)
qed

lemma wf_user_update:
  assumes "db_wf d"
  shows "db_wf (snd (q_user_update v now d))"
proof (cases "(\<exists>u\<in>set (users d). u_email u = u_email v \<and> u_id u \<noteq> u_id v) \<or>
    \<not> role_exists d (u_role_id v) \<or> u_id v \<notin> u_id ` set (users d)")
  case True
  with assms show ?thesis by (auto simp: q_user_update_def)
next
  case False
  let ?f = "\<lambda>u. if u_id u = u_id v
     then u\<lparr>u_role_id := u_role_id v, u_name := u_name v, u_email := u_email v,
            u_password_hash := u_password_hash v, u_active := u_active v,
            u_updated_at := u_updated_at v\<rparr> else u"
  from assms have d: "distinct (map u_email (users d))" "distinct (map u_id (users d))"
    by (simp_all add: wf_defs ids_ok_def)
  then have "inj_on (u_email \<circ> ?f) (set (users d))"
    using False by (auto simp: inj_on_def distinct_map)
  with d have emails: "distinct (map u_email (map ?f (users d)))"
    by (simp add: distinct_map)
  have old: "role_exists d (u_role_id u)" if "u \<in> set (users d)" for u
    using assms that by (simp add: db_wf_def users_ok_def)
  have "db_wf (d\<lparr>users := map ?f (users d)\<rparr>)"
  proof (rule wf_replace_users [OF assms _ emails])
    show "map u_id (map ?f (users d)) = map u_id (users d)" by simp
    show "role_exists d (u_role_id u)" if "u \<in> set (map ?f (users d))" for u
      using that old False by (auto split: if_splits)
  qed
  with False show ?thesis by (auto simp: q_user_update_def)
qed

lemma set_add_grant [simp]: "set (add_grant g gs) = insert g (set gs)"
  by (auto simp: add_grant_def)

lemma distinct_add_grant [simp]: "distinct (add_grant g gs) = distinct gs"
  by (auto simp: add_grant_def)

lemma fold_add_grant:
  "distinct (fold (\<lambda>p. add_grant (h p)) ps gs) = distinct gs \<and>
   set (fold (\<lambda>p. add_grant (h p)) ps gs) = set gs \<union> h ` set ps"
  by (induction ps arbitrary: gs) auto

lemma wf_grant: "db_wf d \<Longrightarrow> db_wf (snd (q_grant uid pid now d))"
  unfolding q_grant_def by (auto simp: wf_defs ids_ok_def)

lemma wf_revoke: "db_wf d \<Longrightarrow> db_wf (snd (q_revoke uid pid now d))"
  unfolding q_revoke_def by (auto simp: wf_defs ids_ok_def)

lemma wf_grant_all: "db_wf d \<Longrightarrow> db_wf (snd (q_grant_all uid now d))"
  unfolding q_grant_all_def by (auto simp: wf_defs ids_ok_def fold_add_grant)

lemma wf_permission_create: "db_wf d \<Longrightarrow> db_wf (snd (q_permission_create p now d))"
  using pt.ids_append [of d "p\<lparr>p_id := next_permission_id d, p_created_at := now\<rparr>"]
  by (auto simp: wf_defs q_permission_create_def Let_def append_permission_def image_iff intro: ids_ok_frame)

lemma wf_permission_update_description:
  assumes "db_wf d"
  shows "db_wf (snd (q_permission_update_description pid description now d))"
proof -
  let ?f = "\<lambda>p. if p_id p = pid then p\<lparr>p_description := description\<rparr> else p"
  have "map p_code (map ?f (permissions d)) = map p_code (permissions d)" by simp
  then have "distinct (map p_code (map ?f (permissions d)))"
    using assms by (simp only:) (simp add: wf_defs)
  then have "db_wf (d\<lparr>permissions := map ?f (permissions d)\<rparr>)"
    using assms by (intro wf_replace_permissions) auto
  with assms show ?thesis by (simp add: q_permission_update_description_def)
qed

lemma wf_permission_delete: "db_wf d \<Longrightarrow> db_wf (snd (q_permission_delete pid now d))"
  by (auto simp: wf_defs q_permission_delete_def ids_ok_def distinct_map_filter)

lemma wf_session_create: "db_wf d \<Longrightarrow> db_wf (snd (q_session_create s now d))"
  using st.ids_append [of d "s\<lparr>s_id := next_session_id d, s_created_at := now\<rparr>"]
  by (auto simp: wf_defs q_session_create_def Let_def append_session_def image_iff intro: ids_ok_frame)

lemma wf_session_revoke: "db_wf d \<Longrightarrow> db_wf (snd (q_session_revoke P stamp now d))"
  unfolding q_session_revoke_def snd_conv by (rule wf_map_sessions) (simp_all add: revoke_row_def)

lemma wf_session_touch: "db_wf d \<Longrightarrow> db_wf (snd (q_session_touch sid stamp now d))"
  unfolding q_session_touch_def snd_conv by (rule wf_map_sessions) simp_all

lemma wf_session_delete: "db_wf d \<Longrightarrow> db_wf (snd (q_session_delete P now d))"
  unfolding q_session_delete_def
  by (simp, rule wf_replace_sessions) (auto simp: wf_defs ids_ok_def distinct_map_filter)

lemma wf_audit_insert: "db_wf d \<Longrightarrow> db_wf (snd (q_audit_insert a now d))"
  using at.ids_append [of d "a\<lparr>al_id := next_audit_id d, al_created_at := now\<rparr>"]
  by (auto simp: wf_defs q_audit_insert_def Let_def append_audit_def image_iff
      intro: ids_ok_frame split: option.splits)

lemmas wf_queries = wf_user_create wf_user_update_password_hash wf_user_update wf_grant wf_revoke
  wf_grant_all wf_permission_create wf_permission_update_description wf_permission_delete
  wf_session_create wf_session_revoke wf_session_touch wf_session_delete wf_audit_insert

section \<open>Relations on databases\<close>

text \<open>
  A reflexive and transitive relation on databases that every query of a program respects is
  respected by the program: the other primitives do not touch the database.
\<close>

locale db_relation =
  fixes Q :: "database \<Rightarrow> database \<Rightarrow> bool"
  assumes Q_refl: "Q d d"
    and Q_trans: "Q c d \<Longrightarrow> Q d e \<Longrightarrow> Q c e"

definition on_db :: "(database \<Rightarrow> database \<Rightarrow> bool) \<Rightarrow> world \<Rightarrow> world \<Rightarrow> bool" where
  "on_db Q v w \<longleftrightarrow> Q (db v) (db w)"

sublocale db_relation \<subseteq> step: step_relation "on_db Q"
  by unfold_locales (auto simp: on_db_def intro: Q_refl Q_trans)

context db_relation
begin

lemma on_db_call:
  assumes "\<And>now d. Q d (snd (f now d))"
  shows "state_io_rel (on_db Q) (db_call f)"
proof (rule state_io_relI)
  fix r w w'
  assume "run_state (db_call f) w = (r, w')"
  from run_db_call(6) [OF this] assms [of "db w" "clock w'"] show "on_db Q w w'"
    by (auto simp: on_db_def Q_refl)
qed

lemma on_other:
  "state_io_rel (on_db Q) time_now"
  "state_io_rel (on_db Q) (rand_read n)"
  "state_io_rel (on_db Q) (redis_call g)"
  by (rule state_io_relI, auto simp: on_db_def Q_refl run_rand_read(1) run_redis_call(1))+

lemmas on_rules = step.step_rules on_other

end

subsection \<open>How the database evolves\<close>

definition session_later :: "session \<Rightarrow> session \<Rightarrow> bool" where
  "session_later s t \<longleftrightarrow>
     s_id t = s_id s \<and> s_user_id t = s_user_id s \<and> s_refresh_token_hash t = s_refresh_token_hash s \<and>
     s_expires_at t = s_expires_at s \<and> s_created_at t = s_created_at s \<and>
     (s_revoked s \<longrightarrow> s_revoked t \<and> s_revoked_at t = s_revoked_at s)"

lemma session_later_refl [simp]: "session_later s s"
  by (simp add: session_later_def)

lemma session_later_trans: "session_later r s \<Longrightarrow> session_later s t \<Longrightarrow> session_later r t"
  by (simp add: session_later_def)

text \<open>
  The integrity is kept, the audit log is extended, every session that has an identity given
  out before is one of the sessions before, in a later state, and no user disappears.
\<close>

definition evolves :: "database \<Rightarrow> database \<Rightarrow> bool" where
  "evolves d e \<longleftrightarrow>
     (db_wf d \<longrightarrow> db_wf e) \<and> (\<exists>more. audit_logs e = audit_logs d @ more) \<and>
     next_session_id d \<le> next_session_id e \<and>
     (\<forall>t\<in>set (sessions e). s_id t < next_session_id d \<longrightarrow> (\<exists>s\<in>set (sessions d). session_later s t)) \<and>
     user_ids d \<subseteq> user_ids e \<and> roles e = roles d"

interpretation ev: db_relation evolves
proof unfold_locales
  fix d
  show "evolves d d" by (auto simp: evolves_def intro: session_later_refl)
next
  fix c d e
  assume cd: "evolves c d" and de: "evolves d e"
  have "\<exists>r\<in>set (sessions c). session_later r t" if "t \<in> set (sessions e)" "s_id t < next_session_id c" for t
  proof -
    from that cd de obtain s where s: "s \<in> set (sessions d)" "session_later s t"
      by (auto simp: evolves_def)
    with that cd obtain r where "r \<in> set (sessions c)" "session_later r s"
      by (auto simp: evolves_def session_later_def)
    with s show ?thesis by (blast intro: session_later_trans)
  qed
  with cd de show "evolves c e" by (auto simp: evolves_def)
qed

lemma evolves_frame:
  assumes "db_wf d \<Longrightarrow> db_wf e" and "audit_logs e = audit_logs d" and "sessions e = sessions d"
    and "next_session_id e = next_session_id d" and "user_ids d \<subseteq> user_ids e" and "roles e = roles d"
  shows "evolves d e"
  using assms unfolding evolves_def by (auto intro: session_later_refl)

lemma evolves_sessions:
  assumes "db_wf d \<Longrightarrow> db_wf (d\<lparr>sessions := ss\<rparr>)"
    and "\<And>t. t \<in> set ss \<Longrightarrow> \<exists>s\<in>set (sessions d). session_later s t"
  shows "evolves d (d\<lparr>sessions := ss\<rparr>)"
  using assms unfolding evolves_def by (auto simp: user_ids_def)

lemma user_ids_same: "map u_id (users e) = map u_id (users d) \<Longrightarrow> user_ids d \<subseteq> user_ids e"
  by (metis order_refl set_map user_ids_def)

lemma evolves_users_queries:
  "evolves d (snd (q_user_create u now d))"
  "evolves d (snd (q_user_update_password_hash uid hash stamp now d))"
  "evolves d (snd (q_user_update u now d))"
proof -
  show "evolves d (snd (q_user_create u now d))"
    by (rule evolves_frame, erule wf_queries) (auto simp: q_user_create_def Let_def user_ids_def)
  show "evolves d (snd (q_user_update_password_hash uid hash stamp now d))"
    by (rule evolves_frame, erule wf_queries)
      (simp_all add: q_user_update_password_hash_def user_ids_same)
  show "evolves d (snd (q_user_update u now d))"
    by (rule evolves_frame, erule wf_queries) (simp_all add: q_user_update_def user_ids_same)
qed

lemma evolves_permission_queries:
  "evolves d (snd (q_grant uid pid now d))"
  "evolves d (snd (q_revoke uid pid now d))"
  "evolves d (snd (q_grant_all uid now d))"
  "evolves d (snd (q_permission_create p now d))"
  "evolves d (snd (q_permission_update_description pid s now d))"
  "evolves d (snd (q_permission_delete pid now d))"
  by (rule evolves_frame, erule wf_queries,
      (auto simp: q_grant_def q_revoke_def q_grant_all_def q_permission_create_def Let_def
        q_permission_update_description_def q_permission_delete_def user_ids_def)[5])+

lemma evolves_session_create: "evolves d (snd (q_session_create s now d))"
  using wf_session_create [of d s now]
  by (auto simp: evolves_def q_session_create_def Let_def user_ids_def intro: session_later_refl)

lemma evolves_session_queries:
  "evolves d (snd (q_session_revoke P stamp now d))"
  "evolves d (snd (q_session_touch sid stamp now d))"
  "evolves d (snd (q_session_delete P now d))"
  using wf_session_revoke [of d P stamp now] wf_session_touch [of d sid stamp now]
    wf_session_delete [of d P now]
  unfolding q_session_revoke_def q_session_touch_def q_session_delete_def snd_conv
  by - (rule evolves_sessions, blast, force simp: session_later_def revoke_row_def)+

lemma evolves_audit_insert: "evolves d (snd (q_audit_insert a now d))"
  using wf_audit_insert [of d a now]
  by (auto simp: evolves_def q_audit_insert_def Let_def user_ids_def intro: session_later_refl)

lemmas evolves_queries = evolves_users_queries evolves_permission_queries evolves_session_create
  evolves_session_queries evolves_audit_insert

lemma reads [simp]:
  "snd (q_user_by_email email now d) = d" "snd (q_user_by_id uid now d) = d"
  "snd (q_permission_by P now d) = d" "snd (q_session_by R now d) = d"
  by (simp_all add: q_user_by_email_def q_user_by_id_def q_permission_by_def q_session_by_def)

lemma evolves_refl [simp]: "evolves d d"
  by (rule ev.Q_refl)

lemmas repository_defs = user_repo_find_by_email_def user_repo_find_by_id_def user_repo_list_def
  user_repo_count_def user_repo_create_def user_repo_update_password_hash_def user_repo_update_def
  permission_repo_list_all_def role_repo_list_def permission_repo_find_by_code_def
  permission_repo_find_by_id_def permission_repo_list_codes_by_user_id_def
  permission_repo_grant_def permission_repo_revoke_def permission_repo_grant_all_def
  permission_repo_create_def permission_repo_update_description_def permission_repo_delete_def
  permission_repo_count_assignments_def permission_repo_count_active_users_with_code_def
  session_repo_create_def session_repo_find_active_by_token_hash_def
  session_repo_find_by_token_hash_def session_repo_find_by_id_def
  session_repo_revoke_with_timestamp_def session_repo_revoke_all_by_user_def
  session_repo_revoke_all_by_user_except_current_def session_repo_touch_activity_def
  session_repo_count_by_user_id_def session_repo_count_active_by_user_id_def
  session_repo_find_active_by_user_id_def session_repo_delete_expired_def
  audit_repo_insert_def audit_repo_list_def

lemma evolves_repository [respects]:
  "state_io_rel (on_db evolves) (user_repo_find_by_email email)"
  "state_io_rel (on_db evolves) (user_repo_find_by_id uid)"
  "state_io_rel (on_db evolves) user_repo_list"
  "state_io_rel (on_db evolves) user_repo_count"
  "state_io_rel (on_db evolves) (user_repo_create u)"
  "state_io_rel (on_db evolves) (user_repo_update_password_hash uid hash)"
  "state_io_rel (on_db evolves) (user_repo_update u)"
  "state_io_rel (on_db evolves) (permission_repo_list_all collate)"
  "state_io_rel (on_db evolves) (role_repo_list collate)"
  "state_io_rel (on_db evolves) (permission_repo_find_by_code code)"
  "state_io_rel (on_db evolves) (permission_repo_find_by_id pid)"
  "state_io_rel (on_db evolves) (permission_repo_list_codes_by_user_id uid)"
  "state_io_rel (on_db evolves) (permission_repo_grant uid pid)"
  "state_io_rel (on_db evolves) (permission_repo_revoke uid pid)"
  "state_io_rel (on_db evolves) (permission_repo_grant_all uid)"
  "state_io_rel (on_db evolves) (permission_repo_create p)"
  "state_io_rel (on_db evolves) (permission_repo_update_description pid description)"
  "state_io_rel (on_db evolves) (permission_repo_delete pid)"
  "state_io_rel (on_db evolves) (permission_repo_count_assignments pid)"
  "state_io_rel (on_db evolves) (permission_repo_count_active_users_with_code code)"
  "state_io_rel (on_db evolves) (session_repo_create s)"
  "state_io_rel (on_db evolves) (session_repo_find_active_by_token_hash hash)"
  "state_io_rel (on_db evolves) (session_repo_find_by_token_hash hash)"
  "state_io_rel (on_db evolves) (session_repo_find_by_id sid)"
  "state_io_rel (on_db evolves) (session_repo_revoke_with_timestamp sid)"
  "state_io_rel (on_db evolves) (session_repo_revoke_all_by_user uid)"
  "state_io_rel (on_db evolves) (session_repo_revoke_all_by_user_except_current uid sid)"
  "state_io_rel (on_db evolves) (session_repo_touch_activity sid)"
  "state_io_rel (on_db evolves) (session_repo_count_by_user_id uid)"
  "state_io_rel (on_db evolves) (session_repo_count_active_by_user_id uid)"
  "state_io_rel (on_db evolves) (session_repo_find_active_by_user_id uid)"
  "state_io_rel (on_db evolves) (session_repo_delete_expired retention)"
  "state_io_rel (on_db evolves) (audit_repo_insert a)"
  "state_io_rel (on_db evolves) (audit_repo_list limit offset)"
  unfolding repository_defs
  by (intro ev.on_rules respects ev.on_db_call, simp_all add: evolves_queries)+

lemma wf_after:
  assumes "state_io_rel (on_db evolves) m" and "db_wf (db w)"
  shows "db_wf (db (snd (run_state m w)))"
  using run_respects [OF assms(1), of w "fst (run_state m w)" "snd (run_state m w)"] assms(2)
  by (simp add: on_db_def evolves_def)

end
