(* ===== verification/Go_Strings.thy ===== *)
theory Go_Strings
  imports Prelude
begin

text \<open>
  The string operations of the Go standard library that the program calls. A Go string is a
  sequence of bytes: here a \<open>string\<close>, that is a \<open>char list\<close>, one \<open>char\<close> per byte.
\<close>

section \<open>Prefixes, suffixes, substrings\<close>

definition has_prefix :: "string \<Rightarrow> string \<Rightarrow> bool" where
  "has_prefix s p \<longleftrightarrow> length p \<le> length s \<and> take (length p) s = p"

definition has_suffix :: "string \<Rightarrow> string \<Rightarrow> bool" where
  "has_suffix s p \<longleftrightarrow> length p \<le> length s \<and> drop (length s - length p) s = p"

definition trim_prefix :: "string \<Rightarrow> string \<Rightarrow> string" where
  "trim_prefix s p = (if has_prefix s p then drop (length p) s else s)"

definition trim_suffix :: "string \<Rightarrow> string \<Rightarrow> string" where
  "trim_suffix s p = (if has_suffix s p then take (length s - length p) s else s)"

lemma has_prefix_iff: "has_prefix s p \<longleftrightarrow> (\<exists>t. s = p @ t)"
  unfolding has_prefix_def by (metis append_eq_conv_conj append_take_drop_id length_append le_add1)

lemma has_suffix_iff: "has_suffix s p \<longleftrightarrow> (\<exists>t. s = t @ p)"
  unfolding has_suffix_def
  by (metis append_eq_append_conv append_take_drop_id diff_diff_cancel diff_le_self length_append
      length_drop add_diff_cancel_right' append_eq_conv_conj le_add2)

lemma has_prefix_append [simp]: "has_prefix (p @ t) p"
  by (auto simp: has_prefix_iff)

lemma has_suffix_append [simp]: "has_suffix (t @ p) p"
  by (auto simp: has_suffix_iff)

lemma trim_suffix_append [simp]: "trim_suffix (t @ p) p = t"
  by (simp add: trim_suffix_def)

lemma trim_prefix_append [simp]: "trim_prefix (p @ t) p = t"
  by (simp add: trim_prefix_def)

section \<open>Bytes\<close>

definition byte :: "char \<Rightarrow> nat" where
  "byte c = of_char c"

lemma byte_less [simp]: "byte c < 256"
  unfolding byte_def by (rule nat_of_char_less_256)

lemma char_between_self [simp]:
  "(of_char a :: nat) \<le> of_char c \<and> of_char c \<le> (of_char a :: nat) \<longleftrightarrow> c = a"
  by (metis order_antisym order_refl of_char_eq_iff)

definition ascii_lower :: "char \<Rightarrow> bool" where
  "ascii_lower c \<longleftrightarrow> 97 \<le> (of_char c :: nat) \<and> of_char c \<le> (122 :: nat)"

definition ascii_upper :: "char \<Rightarrow> bool" where
  "ascii_upper c \<longleftrightarrow> 65 \<le> (of_char c :: nat) \<and> of_char c \<le> (90 :: nat)"

definition ascii_digit :: "char \<Rightarrow> bool" where
  "ascii_digit c \<longleftrightarrow> 48 \<le> (of_char c :: nat) \<and> of_char c \<le> (57 :: nat)"

section \<open>Decimal numbers\<close>

text \<open>\<open>%d\<close> of \<open>fmt.Sprintf\<close>, \<open>strconv.Itoa\<close>, and \<open>strconv.ParseInt(s, 10, 64)\<close>.\<close>

definition digit_char :: "nat \<Rightarrow> char" where
  "digit_char n = char_of (48 + n)"

definition digit_value :: "char \<Rightarrow> nat" where
  "digit_value c = of_char c - 48"

fun dec_nat :: "nat \<Rightarrow> string" where
  "dec_nat n = (if n < 10 then [digit_char n] else dec_nat (n div 10) @ [digit_char (n mod 10)])"

declare dec_nat.simps [simp del]

definition dec :: "int \<Rightarrow> string" where
  "dec i = (if i < 0 then CHR ''-'' # dec_nat (nat (- i)) else dec_nat (nat i))"

definition digits_value :: "string \<Rightarrow> nat" where
  "digits_value s = foldl (\<lambda>v c. 10 * v + digit_value c) 0 s"

definition parse_digits :: "string \<Rightarrow> nat option" where
  "parse_digits s = (if s \<noteq> [] \<and> list_all ascii_digit s then Some (digits_value s) else None)"

text \<open>\<open>None\<close> stands for the syntax or range error.\<close>

definition parse_int64 :: "string \<Rightarrow> int option" where
  "parse_int64 s =
     (let (neg, body) = (case s of
          [] \<Rightarrow> (False, [])
        | c # cs \<Rightarrow> if c = CHR ''-'' then (True, cs) else if c = CHR ''+'' then (False, cs) else (False, s))
      in case parse_digits body of
           None \<Rightarrow> None
         | Some n \<Rightarrow>
             (let v = (if neg then - int n else int n)
              in if - (2 ^ 63) \<le> v \<and> v < 2 ^ 63 then Some v else None))"

lemma digit_char_value [simp]: "n < 10 \<Longrightarrow> digit_value (digit_char n) = n"
  by (simp add: digit_value_def digit_char_def)

lemma digit_char_digit [simp]: "n < 10 \<Longrightarrow> ascii_digit (digit_char n)"
  by (simp add: ascii_digit_def digit_char_def)

lemma dec_nat_digits: "list_all ascii_digit (dec_nat n) \<and> dec_nat n \<noteq> []"
  by (induction n rule: dec_nat.induct) (subst (1 2) dec_nat.simps, simp)

lemma digits_value_dec_nat [simp]: "digits_value (dec_nat n) = n"
proof (induction n rule: dec_nat.induct)
  case (1 n)
  show ?case
  proof (cases "n < 10")
    case True
    then show ?thesis by (subst dec_nat.simps) (simp add: digits_value_def)
  next
    case False
    with 1 have "foldl (\<lambda>v c. 10 * v + digit_value c) 0 (dec_nat (n div 10)) = n div 10"
      by (simp add: digits_value_def)
    with False show ?thesis by (subst dec_nat.simps) (simp add: digits_value_def)
  qed
qed

lemma parse_digits_dec_nat [simp]: "parse_digits (dec_nat n) = Some n"
  using dec_nat_digits [of n] by (simp add: parse_digits_def)

lemma dec_nat_head: "dec_nat n = c # cs \<Longrightarrow> ascii_digit c"
  using dec_nat_digits [of n] by simp

lemma parse_unsigned:
  assumes "dec_nat n = s"
  shows "(case s of [] \<Rightarrow> (False, []) | c # cs \<Rightarrow>
      if c = CHR ''-'' then (True, cs) else if c = CHR ''+'' then (False, cs) else (False, s)) = (False, s)"
  using dec_nat_digits [of n] assms by (cases s) (auto simp: ascii_digit_def)

lemma parse_dec:
  assumes "- (2 ^ 63) \<le> i" and "i < 2 ^ 63"
  shows "parse_int64 (dec i) = Some i"
proof (cases "i < 0")
  case True
  with assms show ?thesis by (simp add: parse_int64_def dec_def)
next
  case False
  with assms show ?thesis
    by (simp add: parse_int64_def dec_def parse_unsigned [OF refl])
qed

lemma dec_inj: "dec i = dec j \<longleftrightarrow> i = j"
proof
  have head: "dec_nat n \<noteq> CHR ''-'' # t" and head': "CHR ''-'' # t \<noteq> dec_nat n" for n t
    using dec_nat_head [of n "CHR ''-''" t] by (auto simp: ascii_digit_def)
  have same: "dec_nat m = dec_nat n \<longleftrightarrow> m = n" for m n
    by (metis digits_value_dec_nat)
  assume "dec i = dec j"
  then show "i = j"
    by (simp add: dec_def head head' same split: if_splits)
qed simp

end
