(* ===== verification/Permission_Cache.thy ===== *)
theory Permission_Cache
  imports Redis Schema Go_Strings
begin

text \<open>
  The cache of permission codes per user (\<open>backend/cache/permissions.go\<close>), and the interface a
  cache-aside reader rests on: an entry that is present holds the codes of the database.
\<close>

section \<open>Definitions\<close>

record perm_cache =
  pc_prefix :: string
  pc_ttl :: int

definition cache_key :: "perm_cache \<Rightarrow> int \<Rightarrow> string" where
  "cache_key p uid = client_key (pc_prefix p) (''permissions:user:'' @ dec uid)"

text \<open>\<open>Get\<close> answers the codes and \<open>found\<close>; an empty set counts as a miss.\<close>

definition cache_get :: "perm_cache \<Rightarrow> int \<Rightarrow> (world, err + string list \<times> bool) state" where
  "cache_get p uid = try_bind (rdb_smembers (cache_key p uid)) (\<lambda>codes.
     State_Monad.return (Inr (codes, 0 < length codes)))"

text \<open>
  \<open>Set\<close> sends a pipeline; \<open>Exec\<close> gives the first error. The commands of a pipeline that is not
  a transaction fail one by one.
\<close>

definition cache_set :: "perm_cache \<Rightarrow> int \<Rightarrow> string list \<Rightarrow> (world, err + unit) state" where
  "cache_set p uid codes = do {
     deleted \<leftarrow> rdb_del [cache_key p uid];
     added \<leftarrow> (if 0 < length codes then rdb_sadd (cache_key p uid) codes else State_Monad.return (Inr ()));
     expires \<leftarrow> rdb_expire (cache_key p uid) (pc_ttl p);
     State_Monad.return (case deleted of Inl e \<Rightarrow> Inl e | Inr _ \<Rightarrow>
       (case added of Inl e \<Rightarrow> Inl e | Inr _ \<Rightarrow> expires))
   }"

definition cache_invalidate :: "perm_cache \<Rightarrow> int \<Rightarrow> (world, err + unit) state" where
  "cache_invalidate p uid = rdb_del [cache_key p uid]"

section \<open>What is cached\<close>

text \<open>The codes a reader would get for a user now; none when the key is absent or not a set.\<close>

definition cached :: "perm_cache \<Rightarrow> world \<Rightarrow> int \<Rightarrow> string set" where
  "cached p w uid = (case lookup (clock w) (redis w) (cache_key p uid) of
     None \<Rightarrow> {}
   | Some e \<Rightarrow> (case re_value e of RSet xs \<Rightarrow> set xs | _ \<Rightarrow> {}))"

text \<open>The codes the database gives to a user.\<close>

definition granted :: "world \<Rightarrow> int \<Rightarrow> string set" where
  "granted w uid = set (codes_of (db w) uid)"

lemma cache_key_inj [simp]: "cache_key p u = cache_key p v \<longleftrightarrow> u = v"
  by (simp add: cache_key_def dec_inj)

text \<open>
  The interface: the operations of a cache, the content a reader sees (\<open>content\<close>), and the truth
  it stands for. Entries may vanish at any time, never change on their own.
\<close>

locale read_cache =
  fixes get :: "int \<Rightarrow> ('w, err + string list \<times> bool) state"
    and put :: "int \<Rightarrow> string list \<Rightarrow> ('w, err + unit) state"
    and drop_entry :: "int \<Rightarrow> ('w, err + unit) state"
    and load :: "int \<Rightarrow> ('w, err + string list) state"
    and content :: "'w \<Rightarrow> int \<Rightarrow> string set"
    and truth :: "'w \<Rightarrow> int \<Rightarrow> string set"
  assumes get_truth: "run_state (get u) w = (r, w') \<Longrightarrow> truth w' = truth w"
    and get_content: "run_state (get u) w = (r, w') \<Longrightarrow> content w' v \<in> {{}, content w v}"
    and get_answer: "run_state (get u) w = (Inr (xs, found), w') \<Longrightarrow>
      (found \<longleftrightarrow> xs \<noteq> []) \<and> (xs = [] \<or> set xs = content w u)"
    and load_truth: "run_state (load u) w = (rl, w') \<Longrightarrow> truth w' = truth w"
    and load_content: "run_state (load u) w = (rl, w') \<Longrightarrow> content w' v \<in> {{}, content w v}"
    and load_answer: "run_state (load u) w = (Inr xs, w') \<Longrightarrow> set xs = truth w u"
    and put_truth: "run_state (put u xs) w = (ru, w') \<Longrightarrow> truth w' = truth w"
    and put_content: "run_state (put u xs) w = (ru, w') \<Longrightarrow>
      content w' v \<in> (if v = u then {{}, content w u, set xs, content w u \<union> set xs} else {{}, content w v})"
    and drop_truth: "run_state (drop_entry u) w = (ru, w') \<Longrightarrow> truth w' = truth w"
    and drop_content: "run_state (drop_entry u) w = (ru, w') \<Longrightarrow> content w' v \<in> {{}, content w v}"
    and drop_done: "run_state (drop_entry u) w = (Inr (), w') \<Longrightarrow> content w' u = {}"
begin

definition coherent_for :: "int \<Rightarrow> 'w \<Rightarrow> bool" where
  "coherent_for u w \<longleftrightarrow> content w u \<in> {{}, truth w u}"

text \<open>The read through the cache: on an error or a miss the truth is loaded, on a miss it is kept.\<close>

definition read_through :: "int \<Rightarrow> ('w, err + string list) state" where
  "read_through u = do {
     r \<leftarrow> get u;
     (case r of
        Inl _ \<Rightarrow> load u
      | Inr (codes, found) \<Rightarrow>
          (if \<not> found then try_bind (load u) (\<lambda>codes'. do {
             _ \<leftarrow> put u codes';
             State_Monad.return (Inr codes')
           })
           else State_Monad.return (Inr codes)))
   }"

lemma read_through_cases:
  assumes "run_state (read_through u) w = (r, w')"
  obtains (down) e w1 where "run_state (get u) w = (Inl e, w1)" "run_state (load u) w1 = (r, w')"
  | (fail) w1 e where "run_state (get u) w = (Inr ([], False), w1)" "run_state (load u) w1 = (Inl e, w')" "r = Inl e"
  | (miss) w1 w2 x codes where "run_state (get u) w = (Inr ([], False), w1)"
      "run_state (load u) w1 = (Inr codes, w2)" "run_state (put u codes) w2 = (x, w')" "r = Inr codes"
  | (hit) codes where "run_state (get u) w = (Inr (codes, True), w')" "codes \<noteq> []" "r = Inr codes"
  using assms get_answer
  by (fastforce simp: read_through_def split: prod.splits sum.splits if_splits)

lemma coherent_get: "run_state (get u) w = (r, w') \<Longrightarrow> coherent_for v w \<Longrightarrow> coherent_for v w'"
  using get_content [of u w r w' v] get_truth [of u w r w'] by (auto simp: coherent_for_def)

lemma coherent_load: "run_state (load u) w = (r, w') \<Longrightarrow> coherent_for v w \<Longrightarrow> coherent_for v w'"
  using load_content [of u w r w' v] load_truth [of u w r w'] by (auto simp: coherent_for_def)

lemma coherent_drop: "run_state (drop_entry u) w = (r, w') \<Longrightarrow> coherent_for v w \<Longrightarrow> coherent_for v w'"
  using drop_content [of u w r w' v] drop_truth [of u w r w'] by (auto simp: coherent_for_def)

lemma coherent_put:
  "run_state (put u xs) w = (r, w') \<Longrightarrow> set xs = truth w u \<Longrightarrow> coherent_for v w \<Longrightarrow> coherent_for v w'"
  using put_content [of u xs w r w' v] put_truth [of u xs w r w']
  by (auto simp: coherent_for_def split: if_splits)

lemma coherent_read:
  assumes "run_state (read_through u) w = (r, w')" and "coherent_for v w"
  shows "coherent_for v w'"
  using assms(1)
proof (cases rule: read_through_cases)
  case (miss w1 w2 x codes)
  then have "coherent_for v w2" using assms(2) coherent_get coherent_load by blast
  moreover have "set codes = truth w2 u"
    using load_answer [OF miss(2)] load_truth [OF miss(2)] by simp
  ultimately show ?thesis using coherent_put miss(3) by blast
qed (use assms(2) coherent_get coherent_load in blast)+

text \<open>A reader of a coherent cache gets the truth, from the cache or around it.\<close>

lemma read_answer:
  assumes "run_state (read_through u) w = (Inr xs, w')" and "coherent_for u w"
  shows "set xs = truth w u"
  using assms(1)
proof (cases rule: read_through_cases)
  case (down e w1)
  then show ?thesis using load_answer get_truth by metis
next
  case (miss w1 w2 x codes)
  then show ?thesis using load_answer get_truth by (metis sum.inject(2))
next
  case (hit codes)
  then show ?thesis using get_answer [OF hit(1)] assms(2) by (auto simp: coherent_for_def)
qed simp

lemma read_truth: "run_state (read_through u) w = (r, w') \<Longrightarrow> truth w' = truth w"
  by (erule read_through_cases) (simp_all add: get_truth load_truth put_truth)

end

section \<open>The model's cache is one\<close>

lemma cached_same_store:
  assumes "clock w \<le> clock w'"
    and "lookup (clock w') (redis w') (cache_key p v) = lookup (clock w') (redis w) (cache_key p v)"
  shows "cached p w' v \<in> {{}, cached p w v}"
  using assms rs.look_later [OF assms(1), of "redis w" "cache_key p v"]
  by (auto simp: cached_def split: option.splits)

lemma cached_redis_call:
  assumes run: "run_state (redis_call f) w = (r, w')"
    and other: "\<And>now st. lookup now (snd (f now st)) (cache_key p v) = lookup now st (cache_key p v)"
  shows "cached p w' v \<in> {{}, cached p w v}"
proof (rule cached_same_store [OF run_redis_call_clock [OF run]])
  show "lookup (clock w') (redis w') (cache_key p v) = lookup (clock w') (redis w) (cache_key p v)"
    using run_redis_call(6) [OF run] other by auto
qed

lemma granted_redis_call: "run_state (redis_call f) w = (r, w') \<Longrightarrow> granted w' = granted w"
  by (simp add: granted_def fun_eq_iff run_redis_call(1))

lemma granted_db_read:
  assumes "run_state (db_call f) w = (r, w')" and "\<And>now d. snd (f now d) = d"
  shows "granted w' = granted w"
  using run_db_call(6) [OF assms(1)] assms(2) by (auto simp: granted_def fun_eq_iff)

lemma cached_db_call:
  assumes run: "run_state (db_call f) w = (r, w')"
  shows "cached p w' v \<in> {{}, cached p w v}"
  by (rule cached_same_store [OF run_db_call_clock [OF run]]) (simp add: run_db_call(1) [OF run])

interpretation sd: db_relation "(=)"
  by unfold_locales auto

lemma same_db_cache [respects]:
  "state_io_rel (on_db (=)) (cache_get p uid)"
  "state_io_rel (on_db (=)) (cache_set p uid codes)"
  "state_io_rel (on_db (=)) (cache_invalidate p uid)"
  unfolding cache_get_def cache_set_def cache_invalidate_def rdb_defs
  by (intro sd.on_rules respects)+

text \<open>The three commands of \<open>Set\<close>, each on the entry of one user.\<close>

lemma cached_del:
  assumes "run_state (rdb_del [cache_key p u]) w = (r, w')"
  shows "cached p w' v \<in> {{}, cached p w v}" and "r = Inr () \<Longrightarrow> cached p w' u = {}"
proof -
  note run = assms [unfolded rdb_del_def]
  show "cached p w' v \<in> {{}, cached p w v}"
  proof (cases "v = u")
    case True
    have "cached p w' u \<in> {{}, cached p w u} \<or> lookup (clock w') (redis w') (cache_key p u) = None"
      using cached_same_store [OF run_redis_call_clock [OF run], of p u] run_redis_call(6) [OF run]
      by (auto simp: del_cmd_def lookup_def)
    with True show ?thesis by (auto simp: cached_def)
  next
    case False
    then show ?thesis
      by (intro cached_redis_call [OF run]) (simp add: del_cmd_def lookup_def)
  qed
  show "cached p w' u = {}" if "r = Inr ()"
    using that run_redis_call(6) [OF run] by (auto simp: cached_def del_cmd_def lookup_def)
qed

lemma cached_sadd:
  assumes "run_state (rdb_sadd (cache_key p u) xs) w = (r, w')"
  shows "cached p w' v \<in> (if v = u then {{}, cached p w u, set xs, cached p w u \<union> set xs}
    else {{}, cached p w v})"
proof -
  note run = assms [unfolded rdb_sadd_def]
  show ?thesis
  proof (cases "v = u")
    case True
    define c where "c = (case lookup (clock w') (redis w) (cache_key p u) of None \<Rightarrow> {}
      | Some e \<Rightarrow> (case re_value e of RSet ys \<Rightarrow> set ys | _ \<Rightarrow> {}))"
    have "c \<in> {{}, cached p w u}"
      using rs.look_later [OF run_redis_call_clock [OF run], of "redis w" "cache_key p u"]
      by (auto simp: c_def cached_def split: option.splits)
    moreover have "cached p w' u \<in> {{}, c, set xs, c \<union> set xs}"
      using run_redis_call(6) [OF run] rs.look_alive [of "clock w'" "redis w" "cache_key p u"]
      by (auto simp: c_def cached_def sadd_cmd_def split: option.splits redis_value.splits)
    ultimately show ?thesis using True by auto
  next
    case False
    then have "cached p w' v \<in> {{}, cached p w v}"
      by (intro cached_redis_call [OF run]) (auto simp: sadd_cmd_def split: option.splits redis_value.splits)
    with False show ?thesis by simp
  qed
qed

lemma cached_expire:
  assumes "run_state (rdb_expire (cache_key p u) ttl) w = (r, w')"
  shows "cached p w' v \<in> {{}, cached p w v}"
proof -
  note run = assms [unfolded rdb_expire_def]
  show ?thesis
  proof (cases "v = u")
    case True
    define c where "c = (case lookup (clock w') (redis w) (cache_key p u) of None \<Rightarrow> {}
      | Some e \<Rightarrow> (case re_value e of RSet ys \<Rightarrow> set ys | _ \<Rightarrow> {}))"
    have "c \<in> {{}, cached p w u}"
      using rs.look_later [OF run_redis_call_clock [OF run], of "redis w" "cache_key p u"]
      by (auto simp: c_def cached_def split: option.splits)
    moreover have "cached p w' u \<in> {{}, c}"
      using run_redis_call(6) [OF run]
      by (auto simp: c_def cached_def expire_cmd_def split: option.splits if_splits)
    ultimately show ?thesis using True by auto
  next
    case False
    then show ?thesis
      by (intro cached_redis_call [OF run]) (auto simp: expire_cmd_def split: option.splits)
  qed
qed

lemma cached_set:
  assumes "run_state (cache_set p u xs) w = (r, w')"
  shows "granted w' = granted w"
    and "cached p w' v \<in> (if v = u then {{}, cached p w u, set xs, cached p w u \<union> set xs}
      else {{}, cached p w v})"
proof -
  obtain r1 w1 r2 w2 r3 where del: "run_state (rdb_del [cache_key p u]) w = (r1, w1)"
    and add: "run_state (if 0 < length xs then rdb_sadd (cache_key p u) xs else State_Monad.return (Inr ())) w1
      = (r2, w2)"
    and exp: "run_state (rdb_expire (cache_key p u) (pc_ttl p)) w2 = (r3, w')"
    using assms by (auto simp: cache_set_def split: prod.splits)
  have "cached p w2 v \<in> (if v = u then {{}, cached p w1 u, set xs, cached p w1 u \<union> set xs}
      else {{}, cached p w1 v})"
    using add cached_sadd [of p u xs w1 r2 w2 v] by (auto split: if_splits)
  then show "cached p w' v \<in> (if v = u then {{}, cached p w u, set xs, cached p w u \<union> set xs}
      else {{}, cached p w v})"
    using cached_del(1) [OF del, of v] cached_expire [OF exp, of v] by (auto split: if_splits)
  have "granted w2 = granted w1"
    using add by (auto simp: rdb_sadd_def granted_redis_call split: if_splits)
  then show "granted w' = granted w"
    using del exp by (simp add: rdb_defs granted_redis_call)
qed

interpretation cache: read_cache "cache_get p" "cache_set p" "cache_invalidate p"
    permission_repo_list_codes_by_user_id "cached p" granted for p :: perm_cache
proof unfold_locales
  fix u v w r w' xs found rl ru
  have get: "\<exists>q. run_state (redis_call (smembers_cmd (cache_key p u))) w = (q, w')"
    if "run_state (cache_get p u) w = (r, w')"
    using that by (auto simp: cache_get_def rdb_smembers_def split: prod.splits sum.splits)
  show "granted w' = granted w" if "run_state (cache_get p u) w = (r, w')"
    using get [OF that] granted_redis_call by blast
  show "cached p w' v \<in> {{}, cached p w v}" if "run_state (cache_get p u) w = (r, w')"
  proof -
    from get [OF that] obtain q where
      run: "run_state (redis_call (smembers_cmd (cache_key p u))) w = (q, w')" ..
    show ?thesis by (rule cached_redis_call [OF run]) (simp add: smembers_cmd_def)
  qed
  show "(found \<longleftrightarrow> xs \<noteq> []) \<and> (xs = [] \<or> set xs = cached p w u)"
    if get: "run_state (cache_get p u) w = (Inr (xs, found), w')"
  proof -
    from get have run: "run_state (redis_call (smembers_cmd (cache_key p u))) w = (Inr xs, w')"
      and found: "found = (0 < length xs)"
      by (auto simp: cache_get_def rdb_smembers_def split: prod.splits sum.splits)
    have "xs = [] \<or> (\<exists>e. lookup (clock w') (redis w) (cache_key p u) = Some e \<and> re_value e = RSet xs)"
      using run_redis_call(6) [OF run]
      by (auto simp: smembers_cmd_def split: option.splits redis_value.splits)
    then have "xs = [] \<or> set xs = cached p w u"
    proof (elim disjE exE conjE)
      fix e assume "lookup (clock w') (redis w) (cache_key p u) = Some e" and "re_value e = RSet xs"
      then show ?thesis
        using rs.look_earlier [OF _ run_redis_call_clock [OF run]] by (simp add: cached_def)
    qed simp
    with found show ?thesis by auto
  qed
  show "granted w' = granted w" if "run_state (permission_repo_list_codes_by_user_id u) w = (rl, w')"
    using that unfolding permission_repo_list_codes_by_user_id_def by (rule granted_db_read) simp
  show "cached p w' v \<in> {{}, cached p w v}"
    if "run_state (permission_repo_list_codes_by_user_id u) w = (rl, w')"
    using that unfolding permission_repo_list_codes_by_user_id_def by (rule cached_db_call)
  show "set xs = granted w u" if "run_state (permission_repo_list_codes_by_user_id u) w = (Inr xs, w')"
    using run_db_call(6) [OF that [unfolded permission_repo_list_codes_by_user_id_def]]
    by (simp add: granted_def)
  show "granted w' = granted w" if "run_state (cache_set p u xs) w = (ru, w')"
    using that by (rule cached_set)
  show "cached p w' v \<in> (if v = u then {{}, cached p w u, set xs, cached p w u \<union> set xs}
      else {{}, cached p w v})" if "run_state (cache_set p u xs) w = (ru, w')"
    using that by (rule cached_set)
  show "granted w' = granted w" if "run_state (cache_invalidate p u) w = (ru, w')"
    using that by (simp add: cache_invalidate_def rdb_del_def granted_redis_call)
  show "cached p w' v \<in> {{}, cached p w v}" if "run_state (cache_invalidate p u) w = (ru, w')"
    using that unfolding cache_invalidate_def by (rule cached_del)
  show "cached p w' u = {}" if "run_state (cache_invalidate p u) w = (Inr (), w')"
    using that unfolding cache_invalidate_def by (rule cached_del) simp
qed

text \<open>The cache is coherent for a user when an entry that is present holds the granted codes.\<close>

definition coherent :: "perm_cache \<Rightarrow> world \<Rightarrow> int \<Rightarrow> bool" where
  "coherent p w u \<longleftrightarrow> cached p w u = {} \<or> cached p w u = granted w u"

lemma coherent_for_eq: "cache.coherent_for p u w \<longleftrightarrow> coherent p w u"
  by (simp add: cache.coherent_for_def coherent_def)

lemmas coherent_read = cache.coherent_read [unfolded coherent_for_eq]
lemmas read_answer = cache.read_answer [unfolded coherent_for_eq]

lemma coherent_later:
  assumes "coherent p w u" and "cached p w' u \<in> {{}, cached p w u}" and "granted w' u = granted w u"
  shows "coherent p w' u"
  using assms by (auto simp: coherent_def)

lemma codes_set:
  "set (codes_of d u) = {p_code p |p. p \<in> set (permissions d) \<and>
     \<lparr>up_user_id = u, up_permission_id = p_id p\<rparr> \<in> set (user_permissions d)}"
proof -
  have "\<lparr>up_user_id = u, up_permission_id = i\<rparr> \<in> G \<longleftrightarrow>
      (\<exists>g\<in>G. up_permission_id g = i \<and> up_user_id g = u)" for i and G :: "user_permission set"
    by (auto intro: rev_bexI) (metis (full_types) user_permission.surjective old.unit.exhaust)
  then show ?thesis
    by (fastforce simp: codes_of_def permissions_of_def)
qed

end
