(* ===== verification/Permission_Match.thy ===== *)
theory Permission_Match
  imports Go_Strings
begin

text \<open>
  Permission codes: the wildcard match that decides every authorisation
  (\<open>backend/internal/service/permission_match.go\<close>) and the validation of the codes that can be
  created (\<open>permission_validation.go\<close>), with the regular expression it compiles.
\<close>

section \<open>The wildcard match\<close>

fun match_permission :: "string list \<Rightarrow> string \<Rightarrow> bool" where
  "match_permission [] required = False"
| "match_permission (g # granted) required =
     (if g = ''*'' \<or> g = required then True
      else if has_suffix g ''.*'' \<and> has_prefix required (trim_suffix g ''.*'' @ ''.'') then True
      else match_permission granted required)"

text \<open>What a granted code promises to cover.\<close>

inductive covers :: "string \<Rightarrow> string \<Rightarrow> bool" where
  everything: "covers ''*'' c"
| itself: "covers c c"
| module: "covers (m @ ''.*'') (m @ ''.'' @ rest)"

lemma covers_iff:
  "covers g c \<longleftrightarrow> g = ''*'' \<or> g = c \<or>
     (has_suffix g ''.*'' \<and> has_prefix c (trim_suffix g ''.*'' @ ''.''))"
proof
  assume "covers g c"
  then show "g = ''*'' \<or> g = c \<or> (has_suffix g ''.*'' \<and> has_prefix c (trim_suffix g ''.*'' @ ''.''))"
    by cases (auto simp: has_prefix_iff)
next
  assume r: "g = ''*'' \<or> g = c \<or> (has_suffix g ''.*'' \<and> has_prefix c (trim_suffix g ''.*'' @ ''.''))"
  show "covers g c"
  proof (cases "g = ''*'' \<or> g = c")
    case True
    then show ?thesis by (auto intro: covers.intros)
  next
    case False
    with r obtain m t where "g = m @ ''.*''" and "c = m @ ''.'' @ t"
      by (auto simp: has_suffix_iff has_prefix_iff)
    then show ?thesis using covers.module by simp
  qed
qed

lemma match_permission_covers: "match_permission gs c \<longleftrightarrow> (\<exists>g\<in>set gs. covers g c)"
  by (induction gs) (auto simp: covers_iff)


lemma covers_star: "covers g ''*'' \<Longrightarrow> g = ''*''"
  by (erule covers.cases) (auto simp: append_eq_Cons_conv Cons_eq_append_conv)

lemma covers_trans:
  assumes "covers g c" and "covers c d"
  shows "covers g d"
  using assms(2)
proof cases
  case everything
  with assms(1) have "g = ''*''" by (simp add: covers_star)
  then show ?thesis by (simp add: covers.everything)
next
  case itself
  with assms(1) show ?thesis by simp
next
  case (module k rest)
  from assms(1) show ?thesis
  proof cases
    case everything
    then show ?thesis by (simp add: covers.everything)
  next
    case itself
    with assms(2) show ?thesis by simp
  next
    case (module m t)
    from \<open>c = k @ ''.*''\<close> \<open>c = m @ ''.'' @ t\<close> have eq: "(k @ ''.'') @ ''*'' = (m @ ''.'') @ t"
      by simp
    have "t \<noteq> []"
    proof
      assume "t = []"
      with eq have "last (k @ ''.*'') = last (m @ ''.'')" by simp
      then show False by simp
    qed
    with eq obtain u where "k @ ''.'' = (m @ ''.'') @ u"
      by (metis append_butlast_last_id butlast_append butlast_snoc)
    with \<open>d = k @ ''.'' @ rest\<close> have "d = m @ ''.'' @ (u @ rest)" by simp
    with \<open>g = m @ ''.*''\<close> show ?thesis by (simp only: covers.module)
  qed
qed

lemma match_permission_mono:
  "set gs \<subseteq> set hs \<Longrightarrow> match_permission gs c \<Longrightarrow> match_permission hs c"
  by (auto simp: match_permission_covers)

lemma match_permission_trans:
  "match_permission gs c \<Longrightarrow> covers c d \<Longrightarrow> match_permission gs d"
  by (auto simp: match_permission_covers intro: covers_trans)

lemma match_permission_set:
  "set gs = set hs \<Longrightarrow> match_permission gs c = match_permission hs c"
  by (auto simp: match_permission_covers)

section \<open>Regular expressions\<close>

text \<open>
  The part of Go's \<open>regexp\<close> syntax the program uses: character classes, sequence, repetition.
  \<open>matches\<close> is the language of an expression; \<open>rx_match\<close> decides it by derivatives, as
  \<open>MatchString\<close> does for a pattern anchored at both ends.
\<close>

datatype rx = Zero | One | Cls "(char \<times> char) list" | Cat rx rx | Alt rx rx | Star rx

definition Plus :: "rx \<Rightarrow> rx" where
  "Plus r = Cat r (Star r)"

definition in_class :: "(char \<times> char) list \<Rightarrow> char \<Rightarrow> bool" where
  "in_class rs c \<longleftrightarrow> list_ex (\<lambda>(lo, hi). of_char lo \<le> (of_char c :: nat) \<and> of_char c \<le> (of_char hi :: nat)) rs"

inductive matches :: "rx \<Rightarrow> string \<Rightarrow> bool" where
  m_One: "matches One []"
| m_Cls: "in_class rs c \<Longrightarrow> matches (Cls rs) [c]"
| m_Cat: "matches r s \<Longrightarrow> matches q t \<Longrightarrow> matches (Cat r q) (s @ t)"
| m_AltL: "matches r s \<Longrightarrow> matches (Alt r q) s"
| m_AltR: "matches q s \<Longrightarrow> matches (Alt r q) s"
| m_Star_Nil: "matches (Star r) []"
| m_Star_Cons: "matches r s \<Longrightarrow> matches (Star r) t \<Longrightarrow> matches (Star r) (s @ t)"

inductive_simps matches_Zero [simp]: "matches Zero s"
inductive_simps matches_One [simp]: "matches One s"
inductive_simps matches_Cls [simp]: "matches (Cls rs) s"
inductive_simps matches_Cat: "matches (Cat r q) s"
inductive_simps matches_Alt [simp]: "matches (Alt r q) s"

lemma matches_Cls_Cat [simp]:
  "matches (Cat (Cls rs) r) s \<longleftrightarrow> (\<exists>c t. s = c # t \<and> in_class rs c \<and> matches r t)"
  unfolding matches_Cat matches_Cls by (metis append_Cons append_Nil)

lemma in_class_Nil [simp]: "\<not> in_class [] c"
  by (simp add: in_class_def)

lemma in_class_Cons: "in_class (p # rs) c \<longleftrightarrow> in_class [p] c \<or> in_class rs c"
  by (simp add: in_class_def)

lemma in_class_single [simp]: "in_class [(a, a)] c \<longleftrightarrow> c = a"
  using char_between_self [of a c] by (simp add: in_class_def)

fun nullable :: "rx \<Rightarrow> bool" where
  "nullable Zero = False"
| "nullable One = True"
| "nullable (Cls rs) = False"
| "nullable (Cat r q) = (nullable r \<and> nullable q)"
| "nullable (Alt r q) = (nullable r \<or> nullable q)"
| "nullable (Star r) = True"

fun deriv :: "char \<Rightarrow> rx \<Rightarrow> rx" where
  "deriv c Zero = Zero"
| "deriv c One = Zero"
| "deriv c (Cls rs) = (if in_class rs c then One else Zero)"
| "deriv c (Cat r q) =
     (if nullable r then Alt (Cat (deriv c r) q) (deriv c q) else Cat (deriv c r) q)"
| "deriv c (Alt r q) = Alt (deriv c r) (deriv c q)"
| "deriv c (Star r) = Cat (deriv c r) (Star r)"

fun rx_match :: "rx \<Rightarrow> string \<Rightarrow> bool" where
  "rx_match r [] = nullable r"
| "rx_match r (c # s) = rx_match (deriv c r) s"

lemma nullable_matches: "nullable r \<longleftrightarrow> matches r []"
  by (induction r) (auto simp: matches_Cat intro: m_Star_Nil)

lemma star_first:
  assumes "matches (Star r) w" and "w = c # s"
  shows "\<exists>u t. s = u @ t \<and> matches r (c # u) \<and> matches (Star r) t"
  using assms
proof (induction "Star r" w arbitrary: r c s rule: matches.induct)
  case (m_Star_Cons r v t)
  show ?case
  proof (cases v)
    case Nil
    with m_Star_Cons show ?thesis by simp
  next
    case (Cons d u)
    with m_Star_Cons show ?thesis by auto
  qed
qed auto

lemma deriv_matches: "matches (deriv c r) s \<longleftrightarrow> matches r (c # s)"
proof (induction r arbitrary: s)
  case (Cat r q)
  have "matches (Cat r q) (c # s) \<longleftrightarrow>
      (\<exists>u t. s = u @ t \<and> matches r (c # u) \<and> matches q t) \<or> (matches r [] \<and> matches q (c # s))"
    by (auto simp: matches_Cat Cons_eq_append_conv)
  then show ?case
    using Cat by (auto simp: matches_Cat nullable_matches)
next
  case (Star r)
  show ?case
  proof
    assume "matches (deriv c (Star r)) s"
    with Star obtain u t where "s = u @ t" "matches r (c # u)" "matches (Star r) t"
      by (auto simp: matches_Cat)
    then show "matches (Star r) (c # s)"
      using m_Star_Cons [of r "c # u" t] by simp
  next
    assume "matches (Star r) (c # s)"
    with Star show "matches (deriv c (Star r)) s"
      by (auto simp: matches_Cat dest: star_first)
  qed
qed auto

lemma rx_match_iff: "rx_match r s \<longleftrightarrow> matches r s"
  by (induction s arbitrary: r) (simp_all add: nullable_matches deriv_matches)

section \<open>Validation of permission codes\<close>

text \<open>\<open>^[a-z][a-z0-9_]*(\.[a-z][a-z0-9_]*)+$\<close>\<close>

definition cls_first :: rx where
  "cls_first = Cls [(CHR ''a'', CHR ''z'')]"

definition cls_rest :: rx where
  "cls_rest = Cls [(CHR ''a'', CHR ''z''), (CHR ''0'', CHR ''9''), (CHR ''_'', CHR ''_'')]"

definition cls_dot :: rx where
  "cls_dot = Cls [(CHR ''.'', CHR ''.'')]"

definition permission_code_pattern :: rx where
  "permission_code_pattern =
     Cat cls_first (Cat (Star cls_rest) (Plus (Cat cls_dot (Cat cls_first (Star cls_rest)))))"

definition validate_permission_code :: "string \<Rightarrow> err + unit" where
  "validate_permission_code code =
     (if code = ''*'' \<or> code = ''users.*'' then Inl ErrInvalidPermissionCode
      else if has_suffix code ''.manage'' then Inl ErrInvalidPermissionCode
      else if \<not> rx_match permission_code_pattern code then Inl ErrInvalidPermissionCode
      else Inr ())"

definition is_protected_permission_code :: "string \<Rightarrow> bool" where
  "is_protected_permission_code code \<longleftrightarrow>
     code = ''*'' \<or> code = ''users.*'' \<or> code = ''audit_logs.read''"

text \<open>The format the pattern stands for: two or more segments joined by dots.\<close>

fun join :: "string \<Rightarrow> string list \<Rightarrow> string" where
  "join sep [] = []"
| "join sep [s] = s"
| "join sep (s # t # ss) = s @ sep @ join sep (t # ss)"

lemma join_Cons: "ss \<noteq> [] \<Longrightarrow> join sep (s # ss) = s @ sep @ join sep ss"
  by (cases ss) auto

definition code_segment :: "string \<Rightarrow> bool" where
  "code_segment s \<longleftrightarrow>
     (case s of [] \<Rightarrow> False
      | c # cs \<Rightarrow> ascii_lower c \<and> (\<forall>d\<in>set cs. ascii_lower d \<or> ascii_digit d \<or> d = CHR ''_''))"

lemma matches_star_class:
  "matches (Star (Cls rs)) s \<longleftrightarrow> (\<forall>c\<in>set s. in_class rs c)"
proof
  show "matches (Star (Cls rs)) s \<Longrightarrow> \<forall>c\<in>set s. in_class rs c"
    by (induction "Star (Cls rs)" s rule: matches.induct) auto
  show "\<forall>c\<in>set s. in_class rs c \<Longrightarrow> matches (Star (Cls rs)) s"
  proof (induction s)
    case Nil
    show ?case by (rule m_Star_Nil)
  next
    case (Cons c s)
    then show ?case using m_Star_Cons [of "Cls rs" "[c]" s] by simp
  qed
qed

lemma matches_segment: "matches (Cat cls_first (Star cls_rest)) s \<longleftrightarrow> code_segment s"
proof -
  have first: "in_class [(CHR ''a'', CHR ''z'')] c \<longleftrightarrow> ascii_lower c" for c
    by (simp add: in_class_def ascii_lower_def)
  have digit: "in_class [(CHR ''0'', CHR ''9'')] c \<longleftrightarrow> ascii_digit c" for c
    by (simp add: in_class_def ascii_digit_def)
  have rest: "in_class [(CHR ''a'', CHR ''z''), (CHR ''0'', CHR ''9''), (CHR ''_'', CHR ''_'')] c \<longleftrightarrow>
      ascii_lower c \<or> ascii_digit c \<or> c = CHR ''_''" for c
    by (subst in_class_Cons, subst (2) in_class_Cons) (simp add: first digit)
  show ?thesis
    by (cases s) (simp_all add: cls_first_def cls_rest_def matches_star_class code_segment_def first rest)
qed

lemma matches_dotted:
  "matches (Star (Cat cls_dot (Cat cls_first (Star cls_rest)))) s \<longleftrightarrow>
     (\<exists>ss. s = concat (map (Cons (CHR ''.'')) ss) \<and> (\<forall>g\<in>set ss. code_segment g))"
    (is "matches (Star ?r) s \<longleftrightarrow> ?R s")
proof
  have one: "matches ?r t \<longleftrightarrow> (\<exists>g. t = CHR ''.'' # g \<and> code_segment g)" for t
    by (auto simp: cls_dot_def matches_segment)
  show "matches (Star ?r) s \<Longrightarrow> ?R s"
  proof (induction "Star ?r" s rule: matches.induct)
    case m_Star_Nil
    show ?case by (rule exI [of _ "[]"]) simp
  next
    case (m_Star_Cons u t)
    then obtain g ss where "u = CHR ''.'' # g" "code_segment g"
      "t = concat (map (Cons (CHR ''.'')) ss)" "\<forall>g\<in>set ss. code_segment g"
      by (auto simp: one)
    then show ?case by (intro exI [of _ "g # ss"]) simp
  qed
  have "\<forall>g\<in>set ss. code_segment g \<Longrightarrow> matches (Star ?r) (concat (map (Cons (CHR ''.'')) ss))" for ss
  proof (induction ss)
    case Nil
    show ?case by (simp add: m_Star_Nil)
  next
    case (Cons g ss)
    then show ?case using m_Star_Cons [of ?r "CHR ''.'' # g"] one by simp
  qed
  then show "?R s \<Longrightarrow> matches (Star ?r) s" by auto
qed

lemma join_dots: "join ''.'' (g # ss) = g @ concat (map (Cons (CHR ''.'')) ss)"
  by (induction ss arbitrary: g) auto

lemma ex_two_or_more: "(\<exists>xs. 2 \<le> length xs \<and> P xs) \<longleftrightarrow> (\<exists>x y zs. P (x # y # zs))"
proof
  show "\<exists>xs. 2 \<le> length xs \<and> P xs \<Longrightarrow> \<exists>x y zs. P (x # y # zs)"
    by (auto simp: numeral_2_eq_2 Suc_le_length_iff)
  assume "\<exists>x y zs. P (x # y # zs)"
  then obtain x y zs where "P (x # y # zs)" by blast
  then show "\<exists>xs. 2 \<le> length xs \<and> P xs" by (intro exI [of _ "x # y # zs"]) simp
qed

lemma pattern_segments:
  "rx_match permission_code_pattern s \<longleftrightarrow>
     (\<exists>ss. 2 \<le> length ss \<and> (\<forall>g\<in>set ss. code_segment g) \<and> s = join ''.'' ss)"
proof -
  let ?seg = "Cat cls_first (Star cls_rest)" and ?dotted = "concat \<circ> map (Cons (CHR ''.''))"
  have dot: "matches (Cat cls_dot ?seg) t \<longleftrightarrow> (\<exists>g. t = CHR ''.'' # g \<and> code_segment g)" for t
    by (auto simp: cls_dot_def matches_segment)
  have plus: "matches (Plus (Cat cls_dot ?seg)) v \<longleftrightarrow>
      (\<exists>g ss. v = ?dotted (g # ss) \<and> (\<forall>h\<in>set (g # ss). code_segment h))" for v
    unfolding Plus_def matches_Cat [of "Cat cls_dot ?seg"] dot matches_dotted
    by (simp add: o_def) (metis append_Cons)
  have "matches permission_code_pattern s \<longleftrightarrow>
      (\<exists>u v. s = u @ v \<and> matches ?seg u \<and> matches (Plus (Cat cls_dot ?seg)) v)"
    unfolding permission_code_pattern_def by (auto simp: matches_Cat) (metis append.assoc)+
  also have "\<dots> \<longleftrightarrow> (\<exists>u g ss. s = join ''.'' (u # g # ss) \<and> (\<forall>h\<in>set (u # g # ss). code_segment h))"
    unfolding matches_segment plus join_dots by auto
  also have "\<dots> \<longleftrightarrow> (\<exists>ss. 2 \<le> length ss \<and> (\<forall>g\<in>set ss. code_segment g) \<and> s = join ''.'' ss)"
    unfolding ex_two_or_more [of "\<lambda>ss. (\<forall>g\<in>set ss. code_segment g) \<and> s = join ''.'' ss"] by blast
  finally show ?thesis by (simp add: rx_match_iff)
qed

lemma code_segment_chars:
  "code_segment g \<Longrightarrow> CHR ''.'' \<notin> set g \<and> CHR ''*'' \<notin> set g \<and> g \<noteq> []"
  by (cases g) (auto simp: code_segment_def ascii_lower_def ascii_digit_def)

lemma join_snoc: "ss \<noteq> [] \<Longrightarrow> join sep (ss @ [g]) = join sep ss @ sep @ g"
  by (induction sep ss rule: join.induct) auto

lemma set_join: "set (join sep ss) \<subseteq> set sep \<union> \<Union> (set ` set ss)"
  by (induction sep ss rule: join.induct) auto

lemma last_part_unique:
  assumes "xs @ d # l = ys @ d # m" and "d \<notin> set l" and "d \<notin> set m"
  shows "l = m"
proof -
  from assms(1) have "rev l @ d # rev xs = rev m @ d # rev ys"
    by (metis append_Cons append_Nil append_assoc rev.simps(2) rev_append)
  moreover have "takeWhile (\<lambda>x. x \<noteq> d) (rev k @ d # zs) = rev k" if "d \<notin> set k" for k zs
    using that by (subst takeWhile_append2) auto
  ultimately have "rev l = rev m" using assms(2,3) by metis
  then show ?thesis by simp
qed

lemma join_suffix:
  assumes "2 \<le> length ss" and "\<forall>g\<in>set ss. code_segment g"
  shows "has_suffix (join ''.'' ss) ''.manage'' \<longleftrightarrow> last ss = ''manage''"
proof -
  from assms(1) have ne: "ss \<noteq> []" "butlast ss \<noteq> []" by (cases ss; auto)+
  then have j: "join ''.'' ss = join ''.'' (butlast ss) @ CHR ''.'' # last ss"
    using join_snoc [of "butlast ss" "''.''" "last ss"] by simp
  from assms(2) ne have "CHR ''.'' \<notin> set (last ss)"
    using code_segment_chars last_in_set by blast
  then show ?thesis
    unfolding has_suffix_iff j by (auto dest: last_part_unique)
qed

lemma valid_code_star_free:
  assumes "validate_permission_code code = Inr ()"
  shows "CHR ''*'' \<notin> set code"
proof -
  from assms obtain ss where "\<forall>g\<in>set ss. code_segment g" "code = join ''.'' ss"
    by (auto simp: validate_permission_code_def pattern_segments split: if_splits)
  then show ?thesis using set_join [of "''.''" ss] code_segment_chars by fastforce
qed

section \<open>Properties\<close>

text \<open>
  C18: a set of granted codes gives a required code exactly when one granted code covers it: the
  global wildcard, the code itself, or the wildcard of a module whose dotted prefix it has.
\<close>

theorem match_permission_spec:
  "match_permission granted required \<longleftrightarrow> (\<exists>g\<in>set granted. covers g required)"
  by (rule match_permission_covers)

text \<open>
  Granting never amplifies. If an actor's codes match a code \<open>c\<close> (the check that
  \<open>actorCanGrant\<close> makes) and \<open>c\<close> is added to somebody's codes, then whatever that user can do
  afterwards the user could do before or the actor can do, even when \<open>c\<close> is a wildcard.
\<close>

theorem grant_no_amplification:
  assumes "match_permission actor c" and "match_permission (c # granted) r"
  shows "match_permission granted r \<or> match_permission actor r"
proof -
  from assms(2) have "covers c r \<or> match_permission granted r"
    by (auto simp: match_permission_covers)
  with assms(1) show ?thesis by (auto intro: match_permission_trans)
qed

theorem grant_no_amplification_witness:
  "match_permission [''audit_logs.read''] ''users.read'' \<or> match_permission [''users.*''] ''users.read''"
proof (rule grant_no_amplification [of _ "''users.*''"])
  show "match_permission [''users.*''] ''users.*''" by simp
  show "match_permission [''users.*'', ''audit_logs.read''] ''users.read''"
    by (simp add: has_suffix_def has_prefix_def trim_suffix_def)
qed

text \<open>
  C35: the codes that can be created are exactly two or more dot-separated lower-case segments
  whose last one is not \<open>manage\<close>: the compiled pattern and the two explicit refusals together.
\<close>

theorem validate_permission_code_spec:
  "validate_permission_code code = Inr () \<longleftrightarrow>
     (\<exists>ss. 2 \<le> length ss \<and> list_all code_segment ss \<and> code = join ''.'' ss \<and> last ss \<noteq> ''manage'')"
proof
  assume ok: "validate_permission_code code = Inr ()"
  then obtain ss where ss: "2 \<le> length ss" "\<forall>g\<in>set ss. code_segment g" "code = join ''.'' ss"
    by (auto simp: validate_permission_code_def pattern_segments split: if_splits)
  with ok have "last ss \<noteq> ''manage''"
    by (auto simp: validate_permission_code_def join_suffix split: if_splits)
  with ss show "\<exists>ss. 2 \<le> length ss \<and> list_all code_segment ss \<and> code = join ''.'' ss \<and> last ss \<noteq> ''manage''"
    by (auto simp: list_all_iff)
next
  assume "\<exists>ss. 2 \<le> length ss \<and> list_all code_segment ss \<and> code = join ''.'' ss \<and> last ss \<noteq> ''manage''"
  then obtain ss where ss: "2 \<le> length ss" "\<forall>g\<in>set ss. code_segment g" "code = join ''.'' ss"
      "last ss \<noteq> ''manage''"
    by (auto simp: list_all_iff)
  then have "CHR ''*'' \<notin> set code"
    using set_join [of "''.''" ss] code_segment_chars by fastforce
  then have "code \<noteq> ''*''" "code \<noteq> ''users.*''" by auto
  moreover from ss have "\<not> has_suffix code ''.manage''" by (simp add: join_suffix)
  moreover from ss have "rx_match permission_code_pattern code" by (auto simp: pattern_segments)
  ultimately show "validate_permission_code code = Inr ()" by (simp add: validate_permission_code_def)
qed

text \<open>
  A code that passes the validation gives no more than itself: no permission made through the
  API is a wildcard, and none of the protected wildcards can be made.
\<close>

theorem valid_code_covers_only_itself:
  assumes "validate_permission_code code = Inr ()"
  shows "covers code r \<longleftrightarrow> r = code"
  using valid_code_star_free [OF assms] by (auto simp: covers_iff has_suffix_iff)

theorem valid_code_covers_only_itself_witness:
  "\<forall>r. covers ''reports.read'' r \<longleftrightarrow> r = ''reports.read''"
proof -
  have "validate_permission_code ''reports.read'' = Inr ()" by code_simp
  then show ?thesis using valid_code_covers_only_itself by blast
qed

end
