(* ===== verification/Reads.thy ===== *)
theory Reads
  imports Schema
begin

text \<open>
  What the reads of the repositories answer, whatever call fails: they leave the tables and Redis
  alone, and an answer that is not an error is the query on the tables as they are. The services'
  proofs use a read only through the lemmas here.
\<close>

section \<open>Quiet steps\<close>

definition quiet :: "world \<Rightarrow> world \<Rightarrow> bool" where
  "quiet v w \<longleftrightarrow> db w = db v \<and> redis w = redis v \<and> clock v \<le> clock w"

interpretation quiet: step_relation quiet
  by unfold_locales (auto simp: quiet_def)

lemma quiet_other [respects]:
  "state_io_rel quiet time_now"
  "state_io_rel quiet (rand_read n)"
  by (rule state_io_relI, auto simp: quiet_def elapse_clock run_rand_read)+

lemma quiet_read:
  assumes "\<And>now d. snd (f now d) = d"
  shows "state_io_rel quiet (db_call f)"
proof (rule state_io_relI)
  fix r w w' assume run: "run_state (db_call f) w = (r, w')"
  then show "quiet w w'"
    using run_db_call(1,6) [OF run] run_db_call_clock [OF run] assms by (auto simp: quiet_def)
qed

lemma quiet_redis_read:
  assumes "\<And>now st. snd (f now st) = st"
  shows "state_io_rel quiet (redis_call f)"
proof (rule state_io_relI)
  fix r w w' assume run: "run_state (redis_call f) w = (r, w')"
  then show "quiet w w'"
    using run_redis_call(1,6) [OF run] run_redis_call_clock [OF run] assms by (auto simp: quiet_def)
qed

lemma quiet_repository [respects]:
  "state_io_rel quiet (user_repo_find_by_email email)"
  "state_io_rel quiet (user_repo_find_by_id uid)"
  "state_io_rel quiet user_repo_list"
  "state_io_rel quiet user_repo_count"
  "state_io_rel quiet (permission_repo_list_all collate)"
  "state_io_rel quiet (role_repo_list collate)"
  "state_io_rel quiet (permission_repo_find_by_code code)"
  "state_io_rel quiet (permission_repo_find_by_id pid)"
  "state_io_rel quiet (permission_repo_list_codes_by_user_id uid)"
  "state_io_rel quiet (permission_repo_count_assignments pid)"
  "state_io_rel quiet (permission_repo_count_active_users_with_code code)"
  "state_io_rel quiet (session_repo_find_active_by_token_hash hash)"
  "state_io_rel quiet (session_repo_find_by_token_hash hash)"
  "state_io_rel quiet (session_repo_find_by_id sid)"
  "state_io_rel quiet (session_repo_count_by_user_id uid)"
  "state_io_rel quiet (session_repo_count_active_by_user_id uid)"
  "state_io_rel quiet (session_repo_find_active_by_user_id uid)"
  "state_io_rel quiet (audit_repo_list limit offset)"
  unfolding repository_defs
  by (intro quiet.step_rules respects quiet_read, simp_all)+

lemmas quietD = run_respects [of quiet]

section \<open>Answers\<close>

lemma db_call_Inr: "run_state (db_call f) w = (Inr x, w') \<Longrightarrow>
    fst (f (clock w') (db w)) = Inr x \<and> db w' = snd (f (clock w') (db w))"
  using run_db_call(6) by fastforce

lemma db_call_Inl: "run_state (db_call f) w = (Inl e, w') \<Longrightarrow>
    e = ErrDb \<or> fst (f (clock w') (db w)) = Inl e \<and> db w' = snd (f (clock w') (db w))"
  using run_db_call(6) by fastforce

lemma db_read_Inr:
  "run_state (db_call (\<lambda>now d. (f now d, d))) w = (Inr x, w') \<Longrightarrow> f (clock w') (db w) = Inr x"
  by (drule db_call_Inr) simp

text \<open>The user as the queries give it, with its role and permissions.\<close>

definition user_view_of :: "database \<Rightarrow> user \<Rightarrow> user_view" where
  "user_view_of d u = \<lparr>uv_user = u, uv_role = role_of d u, uv_permissions = permissions_of d (u_id u)\<rparr>"

lemma user_view_of_simps [simp]: "uv_user (user_view_of d u) = u"
  by (simp add: user_view_of_def)

lemma user_by_id_Inr:
  assumes "run_state (user_repo_find_by_id uid) w = (Inr v, w')"
  shows "find (\<lambda>u. u_id u = uid) (users (db w)) = Some (uv_user v)" "u_id (uv_user v) = uid"
    "v = user_view_of (db w) (uv_user v)"
proof -
  from assms obtain v1 w1 where a: "run_state (db_call (q_user_by_id uid)) w = (Inr v1, w1)"
    and b: "run_state (db_call (\<lambda>now d. (Inr (permissions_of d uid), d))) w1 = (Inr (uv_permissions v), w')"
    and v: "v = v1\<lparr>uv_permissions := uv_permissions v\<rparr>"
    unfolding user_repo_find_by_id_def run_try_bind_Inr by auto
  have "db w1 = db w" using db_call_Inr [OF a] by simp
  then have ps: "uv_permissions v = permissions_of (db w) uid"
    using db_read_Inr [OF b] by simp
  obtain u where u: "find (\<lambda>u. u_id u = uid) (users (db w)) = Some u"
    and v1: "v1 = \<lparr>uv_user = u, uv_role = role_of (db w) u, uv_permissions = []\<rparr>"
    using db_call_Inr [OF a] by (auto simp: q_user_by_id_def split: option.splits)
  have id: "u_id u = uid" using u by (auto dest: find_Some_member)
  have uv: "uv_user v = u" by (subst v) (simp add: v1)
  show "find (\<lambda>u. u_id u = uid) (users (db w)) = Some (uv_user v)" "u_id (uv_user v) = uid"
    using u id uv by simp_all
  show "v = user_view_of (db w) (uv_user v)"
    by (subst v) (simp add: v1 uv id ps user_view_of_def)
qed

lemma lookup_errors:
  "run_state (user_repo_find_by_id uid) w = (Inl e, w') \<Longrightarrow> e = ErrNotFound \<or> e = ErrDb"
  "run_state (user_repo_find_by_email email) w = (Inl e, w') \<Longrightarrow> e = ErrNotFound \<or> e = ErrDb"
  "run_state (permission_repo_find_by_id pid) w = (Inl e, w') \<Longrightarrow> e = ErrNotFound \<or> e = ErrDb"
  "run_state (permission_repo_list_codes_by_user_id uid) w = (Inl e, w') \<Longrightarrow> e = ErrDb"
  unfolding repository_defs
  by (auto simp: run_try_bind_Inl q_user_by_id_def q_user_by_email_def q_permission_by_def
      simp del: run_try_bind dest!: db_call_Inl split: option.splits)

lemma user_by_email_Inr:
  assumes "run_state (user_repo_find_by_email email) w = (Inr v, w')"
  shows "find (\<lambda>u. u_email u = email) (users (db w)) = Some (uv_user v)"
    "uv_role v = role_of (db w) (uv_user v)"
  using db_call_Inr [OF assms [unfolded user_repo_find_by_email_def]]
  by (auto simp: q_user_by_email_def split: option.splits)

lemma user_by_email_none:
  "run_state (user_repo_find_by_email email) w = (Inl ErrNotFound, w') \<Longrightarrow> email \<notin> u_email ` set (users (db w))"
  unfolding user_repo_find_by_email_def
  by (drule db_call_Inl) (auto simp: q_user_by_email_def find_None_iff split: option.splits)

lemma permission_by_id_Inr:
  "run_state (permission_repo_find_by_id pid) w = (Inr p, w') \<Longrightarrow>
     find (\<lambda>p. p_id p = pid) (permissions (db w)) = Some p"
  unfolding permission_repo_find_by_id_def
  by (drule db_call_Inr) (auto simp: q_permission_by_def split: option.splits)

lemma permission_by_code_Inr:
  "run_state (permission_repo_find_by_code code) w = (Inr p, w') \<Longrightarrow>
     find (\<lambda>p. p_code p = code) (permissions (db w)) = Some p"
  unfolding permission_repo_find_by_code_def
  by (drule db_call_Inr) (auto simp: q_permission_by_def split: option.splits)

lemma permission_by_code_none:
  "run_state (permission_repo_find_by_code code) w = (Inl ErrNotFound, w') \<Longrightarrow>
     code \<notin> p_code ` set (permissions (db w))"
  unfolding permission_repo_find_by_code_def
  by (drule db_call_Inl) (auto simp: q_permission_by_def find_None_iff split: option.splits)

lemma codes_Inr:
  "run_state (permission_repo_list_codes_by_user_id uid) w = (Inr cs, w') \<Longrightarrow> cs = codes_of (db w) uid"
  unfolding permission_repo_list_codes_by_user_id_def by (drule db_read_Inr) simp

lemma count_assignments_Inr:
  "run_state (permission_repo_count_assignments pid) w = (Inr n, w') \<Longrightarrow> n = assignments (db w) pid"
  unfolding permission_repo_count_assignments_def by (drule db_read_Inr) simp

lemma count_active_Inr:
  "run_state (permission_repo_count_active_users_with_code code) w = (Inr n, w') \<Longrightarrow>
     n = int (length (active_users_with_code (db w) code))"
  unfolding permission_repo_count_active_users_with_code_def by (drule db_read_Inr) simp

lemma session_by_Inr:
  assumes "run_state (db_call (q_session_by P)) w = (Inr s, w')"
  shows "find P (sessions (db w)) = Some s" "s \<in> set (sessions (db w))" "P s"
  using db_call_Inr [OF assms]
  by (auto simp: q_session_by_def dest: find_Some_member split: option.splits)

lemma session_by_none:
  "run_state (db_call (q_session_by P)) w = (Inl ErrNotFound, w') \<Longrightarrow> \<forall>s\<in>set (sessions (db w)). \<not> P s"
  by (drule db_call_Inl) (auto simp: q_session_by_def find_None_iff split: option.splits)

section \<open>The writes that answer\<close>

text \<open>A write that answers without an error has been made, on the tables as they were.\<close>

lemma db_write_redis: "run_state (db_call f) w = (r, w') \<Longrightarrow> redis w' = redis w \<and> clock w \<le> clock w'"
  using run_db_call(1) run_db_call_clock by blast

text \<open>
  The audit log can be appended to; the other tables stay. \<open>only_audit\<close> is the effect of writing
  the trail, whatever the answer.
\<close>

definition only_audit :: "database \<Rightarrow> database \<Rightarrow> bool" where
  "only_audit d e \<longleftrightarrow> roles e = roles d \<and> users e = users d \<and> permissions e = permissions d \<and>
     user_permissions e = user_permissions d \<and> sessions e = sessions d \<and>
     next_user_id e = next_user_id d \<and> next_permission_id e = next_permission_id d \<and>
     next_session_id e = next_session_id d"

interpretation oa: db_relation only_audit
  by unfold_locales (auto simp: only_audit_def)

lemma only_audit_insert [respects]: "state_io_rel (on_db only_audit) (audit_repo_insert a)"
  unfolding audit_repo_insert_def
  by (rule oa.on_db_call) (auto simp: q_audit_insert_def only_audit_def Let_def)

lemma only_auditD: "state_io_rel (on_db only_audit) m \<Longrightarrow> run_state m w = (r, w') \<Longrightarrow> only_audit (db w) (db w')"
  using run_respects [of "on_db only_audit"] by (auto simp: on_db_def)

lemma only_audit_reads:
  "only_audit d e \<Longrightarrow> permissions_of e = permissions_of d"
  "only_audit d e \<Longrightarrow> codes_of e = codes_of d"
  "only_audit d e \<Longrightarrow> role_of e = role_of d"
  "only_audit d e \<Longrightarrow> active_users_with_code e = active_users_with_code d"
  by (auto simp: only_audit_def permissions_of_def codes_of_def role_of_def active_users_with_code_def
      fun_eq_iff split: option.splits)

section \<open>The accounts\<close>

text \<open>Users, permissions, grants and roles stay; sessions and the audit log may change.\<close>

definition same_accounts :: "database \<Rightarrow> database \<Rightarrow> bool" where
  "same_accounts d e \<longleftrightarrow> users e = users d \<and> permissions e = permissions d \<and>
     user_permissions e = user_permissions d \<and> roles e = roles d"

interpretation sa: db_relation same_accounts
  by unfold_locales (auto simp: same_accounts_def)

lemma same_accounts_trans: "same_accounts c d \<Longrightarrow> same_accounts d e \<Longrightarrow> same_accounts c e"
  by (simp add: same_accounts_def)

lemma only_audit_accounts: "only_audit d e \<Longrightarrow> same_accounts d e \<and> sessions e = sessions d \<and> next_session_id e = next_session_id d"
  by (simp add: only_audit_def same_accounts_def)

section \<open>Revocations\<close>

definition revoke_where :: "(session \<Rightarrow> bool) \<Rightarrow> int \<Rightarrow> session list \<Rightarrow> session list" where
  "revoke_where P now ss = map (\<lambda>s. if P s \<and> \<not> s_revoked s then revoke_row now s else s) ss"

lemma revoke_where_effect:
  assumes "t \<in> set (revoke_where P now ss)"
  shows "\<exists>s\<in>set ss. session_later s t \<and> (P s \<longrightarrow> s_revoked t) \<and> (\<not> P s \<longrightarrow> t = s)"
  using assms by (auto simp: revoke_where_def session_later_def revoke_row_def)

lemma q_session_revoke_eq:
  "q_session_revoke P stamp now d = (Inr (), d\<lparr>sessions := revoke_where P stamp (sessions d)\<rparr>)"
  by (simp add: q_session_revoke_def revoke_where_def)

lemma revoke_run:
  assumes run: "run_state (do { now \<leftarrow> time_now; db_call (q_session_revoke P now) }) w = (r, w')"
  obtains (unchanged) e where "r = Inl e" "db w' = db w" "clock w \<le> clock w'"
  | (revoked) now where "clock w \<le> now" "now \<le> clock w'" "db w' = (db w)\<lparr>sessions := revoke_where P now (sessions (db w))\<rparr>"
proof -
  from run have call: "run_state (db_call (q_session_revoke P (clock (elapse w)))) (elapse w) = (r, w')"
    by simp
  note c = run_db_call_clock [OF call] elapse_clock [of w]
  show thesis
    using run_db_call(6) [OF call] c unchanged revoked
    by (auto simp: q_session_revoke_eq)
qed

lemma revoke_run_Inr:
  assumes run: "run_state (do { now \<leftarrow> time_now; db_call (q_session_revoke P now) }) w = (Inr (), w')"
  obtains now where "clock w \<le> now" "now \<le> clock w'" "db w' = (db w)\<lparr>sessions := revoke_where P now (sessions (db w))\<rparr>"
  using run by (cases rule: revoke_run) auto

lemma revoke_run_healthy:
  assumes run: "run_state (do { now \<leftarrow> time_now; db_call (q_session_revoke P now) }) w = (r, w')"
    and "db_faults w = []"
  obtains now where "r = Inr ()" "db w' = (db w)\<lparr>sessions := revoke_where P now (sessions (db w))\<rparr>" "db_faults w' = []"
  using assms by (auto simp: run_db_call_ok q_session_revoke_eq)

end
