(* ===== verification/Audit_Service.thy ===== *)
theory Audit_Service
  imports Reads "HOL-Library.AList"
begin

text \<open>
  The audit service (\<open>service/audit.go\<close>): a failed write is logged, never an error of the
  operation that is audited.
\<close>

definition audit_service_log ::
  "int option \<Rightarrow> string \<Rightarrow> string \<Rightarrow> int option \<Rightarrow> json_map option \<Rightarrow> json_map option \<Rightarrow> (world, unit) state" where
  "audit_service_log uid action entity entity_id old_data new_data = do {
     _ \<leftarrow> audit_repo_insert \<lparr>al_id = 0, al_user_id = uid, al_action = action, al_entity = entity,
       al_entity_id = entity_id, al_old_data = old_data, al_new_data = new_data, al_created_at = 0\<rparr>;
     State_Monad.return ()
   }"

definition audit_service_list :: "nat \<Rightarrow> nat \<Rightarrow> (world, err + audit_log list) state" where
  "audit_service_list limit offset = audit_repo_list limit offset"

definition log_security_alert ::
  "int option \<Rightarrow> string \<Rightarrow> json_map option \<Rightarrow> (world, unit) state" where
  "log_security_alert uid reason metadata =
     (let m = (case metadata of None \<Rightarrow> [] | Some m \<Rightarrow> m)
      in audit_service_log uid ''security.alert'' ''security'' None None
           (Some (AList.update ''reason'' (JStr reason) m)))"

text \<open>A map literal of Go with one entry per key.\<close>

lemma evolves_audit [respects]:
  "state_io_rel (on_db evolves) (audit_service_log uid action entity eid old new)"
  "state_io_rel (on_db evolves) (log_security_alert uid reason m)"
  "state_io_rel (on_db evolves) (audit_service_list limit offset)"
  unfolding audit_service_log_def log_security_alert_def audit_service_list_def
  by (intro ev.on_rules respects)+

lemma only_audit_log [respects]:
  "state_io_rel (on_db only_audit) (audit_service_log uid action entity eid old new)"
  "state_io_rel (on_db only_audit) (log_security_alert uid reason m)"
  unfolding audit_service_log_def log_security_alert_def
  by (intro oa.on_rules respects)+

text \<open>Redis is not used by the trail.\<close>

definition redis_kept :: "world \<Rightarrow> world \<Rightarrow> bool" where
  "redis_kept v w \<longleftrightarrow> redis w = redis v \<and> redis_faults w = redis_faults v \<and> clock v \<le> clock w"

interpretation rk: step_relation redis_kept
  by unfold_locales (auto simp: redis_kept_def)

lemma redis_kept_prims [respects]:
  "state_io_rel redis_kept time_now"
  "state_io_rel redis_kept (rand_read n)"
  "state_io_rel redis_kept (db_call f)"
  by (rule state_io_relI, auto simp: redis_kept_def elapse_clock run_rand_read run_db_call(1,2)
      dest: run_db_call_clock)+

lemma redis_kept_repository [respects]:
  "state_io_rel redis_kept (user_repo_find_by_email email)"
  "state_io_rel redis_kept (user_repo_find_by_id uid)"
  "state_io_rel redis_kept user_repo_list"
  "state_io_rel redis_kept user_repo_count"
  "state_io_rel redis_kept (user_repo_create u)"
  "state_io_rel redis_kept (user_repo_update_password_hash uid hash)"
  "state_io_rel redis_kept (user_repo_update u)"
  "state_io_rel redis_kept (permission_repo_list_all collate)"
  "state_io_rel redis_kept (role_repo_list collate)"
  "state_io_rel redis_kept (permission_repo_find_by_code code)"
  "state_io_rel redis_kept (permission_repo_find_by_id pid)"
  "state_io_rel redis_kept (permission_repo_list_codes_by_user_id uid)"
  "state_io_rel redis_kept (permission_repo_grant uid pid)"
  "state_io_rel redis_kept (permission_repo_revoke uid pid)"
  "state_io_rel redis_kept (permission_repo_grant_all uid)"
  "state_io_rel redis_kept (permission_repo_create p)"
  "state_io_rel redis_kept (permission_repo_update_description pid description)"
  "state_io_rel redis_kept (permission_repo_delete pid)"
  "state_io_rel redis_kept (permission_repo_count_assignments pid)"
  "state_io_rel redis_kept (permission_repo_count_active_users_with_code code)"
  "state_io_rel redis_kept (session_repo_create s)"
  "state_io_rel redis_kept (session_repo_find_active_by_token_hash hash)"
  "state_io_rel redis_kept (session_repo_find_by_token_hash hash)"
  "state_io_rel redis_kept (session_repo_find_by_id sid)"
  "state_io_rel redis_kept (session_repo_revoke_with_timestamp sid)"
  "state_io_rel redis_kept (session_repo_revoke_all_by_user uid)"
  "state_io_rel redis_kept (session_repo_revoke_all_by_user_except_current uid sid)"
  "state_io_rel redis_kept (session_repo_touch_activity sid)"
  "state_io_rel redis_kept (session_repo_count_by_user_id uid)"
  "state_io_rel redis_kept (session_repo_count_active_by_user_id uid)"
  "state_io_rel redis_kept (session_repo_find_active_by_user_id uid)"
  "state_io_rel redis_kept (session_repo_delete_expired retention)"
  "state_io_rel redis_kept (audit_repo_insert a)"
  "state_io_rel redis_kept (audit_repo_list limit offset)"
  unfolding repository_defs by (intro rk.step_rules respects)+

lemma redis_kept_audit [respects]:
  "state_io_rel redis_kept (audit_service_log uid action entity eid old new)"
  "state_io_rel redis_kept (log_security_alert uid reason m)"
  unfolding audit_service_log_def log_security_alert_def
  by (intro rk.step_rules respects)+

text \<open>
  When the database works and the user is known, the entry is the last of the log. It is what makes
  the trail of an operation a fact of the tables.
\<close>

lemma audit_log_written:
  assumes "run_state (audit_service_log uid action entity eid old new) w = (r, w')"
    and "db_faults w = []" and "\<And>i. uid = Some i \<Longrightarrow> i \<in> user_ids (db w)"
  shows "audit_logs (db w') = audit_logs (db w) @ [\<lparr>al_id = next_audit_id (db w), al_user_id = uid,
      al_action = action, al_entity = entity, al_entity_id = eid, al_old_data = old, al_new_data = new,
      al_created_at = clock w'\<rparr>]"
    and "db_faults w' = []"
proof -
  define a where "a = \<lparr>al_id = 0, al_user_id = uid, al_action = action, al_entity = entity,
       al_entity_id = eid, al_old_data = old, al_new_data = new, al_created_at = 0\<rparr>"
  from assms(1) obtain q where "run_state (db_call (q_audit_insert a)) w = (q, w')"
    by (auto simp: audit_service_log_def audit_repo_insert_def a_def split: prod.splits)
  note eff = run_db_call(7) [OF this assms(2)]
  show "db_faults w' = []" using eff by simp
  have "\<not> (case uid of None \<Rightarrow> False | Some i \<Rightarrow> i \<notin> u_id ` set (users (db w)))"
    using assms(3) by (auto simp: user_ids_def split: option.splits)
  then show "audit_logs (db w') = audit_logs (db w) @ [\<lparr>al_id = next_audit_id (db w), al_user_id = uid,
      al_action = action, al_entity = entity, al_entity_id = eid, al_old_data = old, al_new_data = new,
      al_created_at = clock w'\<rparr>]"
    using eff by (simp add: q_audit_insert_def Let_def a_def)
qed

end
