(* ===== verification/Go_Unicode.thy ===== *)
theory Go_Unicode
  imports Go_Strings
begin

text \<open>
  UTF-8 as Go decodes and encodes it, and the functions of \<open>strings\<close> that depend on it. A rune is
  a natural number. The Unicode tables of the standard library are data, a parameter of type
  \<open>unicode_tables\<close>, used above ASCII only; the ASCII part is written out.
\<close>

section \<open>UTF-8\<close>

definition cont_byte :: "char \<Rightarrow> bool" where
  "cont_byte c \<longleftrightarrow> 128 \<le> byte c \<and> byte c < 192"

definition rune_error :: nat where
  "rune_error = 65533"

text \<open>
  \<open>utf8.DecodeRune\<close>: the rune and its width; an encoding that is broken, overlong, a surrogate or
  out of range gives \<open>RuneError\<close> with width 1.
\<close>

fun decode_rune :: "string \<Rightarrow> nat \<times> nat" where
  "decode_rune [] = (rune_error, 0)"
| "decode_rune (c # cs) =
    (let b = byte c in
     if b < 128 then (b, 1)
     else if 194 \<le> b \<and> b < 224 then
       (case cs of c1 # _ \<Rightarrow>
          if cont_byte c1 then ((b - 192) * 64 + (byte c1 - 128), 2) else (rune_error, 1)
        | _ \<Rightarrow> (rune_error, 1))
     else if 224 \<le> b \<and> b < 240 then
       (case cs of c1 # c2 # _ \<Rightarrow>
          if cont_byte c1 \<and> (b = 224 \<longrightarrow> 160 \<le> byte c1) \<and> (b = 237 \<longrightarrow> byte c1 < 160) \<and> cont_byte c2
          then ((b - 224) * 4096 + (byte c1 - 128) * 64 + (byte c2 - 128), 3) else (rune_error, 1)
        | _ \<Rightarrow> (rune_error, 1))
     else if 240 \<le> b \<and> b < 245 then
       (case cs of c1 # c2 # c3 # _ \<Rightarrow>
          if cont_byte c1 \<and> (b = 240 \<longrightarrow> 144 \<le> byte c1) \<and> (b = 244 \<longrightarrow> byte c1 < 144) \<and> cont_byte c2 \<and> cont_byte c3
          then ((b - 240) * 262144 + (byte c1 - 128) * 4096 + (byte c2 - 128) * 64 + (byte c3 - 128), 4)
          else (rune_error, 1)
        | _ \<Rightarrow> (rune_error, 1))
     else (rune_error, 1))"

text \<open>\<open>[]rune(s)\<close>\<close>

fun runes :: "string \<Rightarrow> nat list" where
  "runes [] = []"
| "runes (c # cs) = (case decode_rune (c # cs) of (r, n) \<Rightarrow> r # runes (drop (n - 1) cs))"

definition valid_rune :: "nat \<Rightarrow> bool" where
  "valid_rune r \<longleftrightarrow> r < 1114112 \<and> \<not> (55296 \<le> r \<and> r < 57344)"

text \<open>\<open>utf8.AppendRune\<close>; an invalid rune is written as \<open>RuneError\<close>.\<close>

definition encode_rune :: "nat \<Rightarrow> string" where
  "encode_rune r0 = (let r = (if valid_rune r0 then r0 else rune_error) in
     if r < 128 then [char_of r]
     else if r < 2048 then [char_of (192 + r div 64), char_of (128 + r mod 64)]
     else if r < 65536 then
       [char_of (224 + r div 4096), char_of (128 + r div 64 mod 64), char_of (128 + r mod 64)]
     else
       [char_of (240 + r div 262144), char_of (128 + r div 4096 mod 64),
        char_of (128 + r div 64 mod 64), char_of (128 + r mod 64)])"

text \<open>\<open>string(rs)\<close> for a slice of runes\<close>

definition string_of_runes :: "nat list \<Rightarrow> string" where
  "string_of_runes rs = concat (map encode_rune rs)"

lemma byte_char_of: "n < 256 \<Longrightarrow> byte (char_of n) = n"
  by (simp add: byte_def)

text \<open>The order in which an evaluation should look at the cases.\<close>

lemma encode_rune_code [code]:
  "encode_rune r0 = (if r0 < 128 then [char_of r0]
     else let r = (if valid_rune r0 then r0 else rune_error) in
       if r < 2048 then [char_of (192 + r div 64), char_of (128 + r mod 64)]
       else if r < 65536 then
         [char_of (224 + r div 4096), char_of (128 + r div 64 mod 64), char_of (128 + r mod 64)]
       else
         [char_of (240 + r div 262144), char_of (128 + r div 4096 mod 64),
          char_of (128 + r div 64 mod 64), char_of (128 + r mod 64)])"
  by (simp add: encode_rune_def valid_rune_def rune_error_def Let_def)

lemma encode_nonempty: "encode_rune r \<noteq> []"
  by (simp add: encode_rune_def Let_def)

lemma decode_two_bytes:
  "2 \<le> x \<Longrightarrow> x < 32 \<Longrightarrow> y < 64 \<Longrightarrow>
     decode_rune (char_of (192 + x) # char_of (128 + y) # s) = (x * 64 + y, 2)"
  by (simp add: byte_char_of Let_def cont_byte_def)

lemma decode_three_bytes:
  "x < 16 \<Longrightarrow> y < 64 \<Longrightarrow> z < 64 \<Longrightarrow> (x = 0 \<longrightarrow> 32 \<le> y) \<Longrightarrow> (x = 13 \<longrightarrow> y < 32) \<Longrightarrow>
     decode_rune (char_of (224 + x) # char_of (128 + y) # char_of (128 + z) # s) =
       (x * 4096 + y * 64 + z, 3)"
  by (auto simp: byte_char_of Let_def cont_byte_def)

lemma decode_four_bytes:
  "x < 5 \<Longrightarrow> y < 64 \<Longrightarrow> z < 64 \<Longrightarrow> v < 64 \<Longrightarrow> (x = 0 \<longrightarrow> 16 \<le> y) \<Longrightarrow> (x = 4 \<longrightarrow> y < 16) \<Longrightarrow>
     decode_rune (char_of (240 + x) # char_of (128 + y) # char_of (128 + z) # char_of (128 + v) # s) =
       (x * 262144 + y * 4096 + z * 64 + v, 4)"
  by (auto simp: byte_char_of Let_def cont_byte_def)

lemma decode_encode:
  assumes "valid_rune r"
  shows "decode_rune (encode_rune r @ s) = (r, length (encode_rune r))"
proof -
  define v q where "v = r mod 64" and "q = r div 64"
  define z p where "z = q mod 64" and "p = q div 64"
  define y x where "y = p mod 64" and "x = p div 64"
  note defs = v_def q_def z_def p_def y_def x_def
  have rq: "r = q * 64 + v" "v < 64" and qp: "q = p * 64 + z" "z < 64" and px: "p = x * 64 + y" "y < 64"
    by (simp_all add: defs)
  have parts: "r div 4096 = p" "r div 64 mod 64 = z" "r div 262144 = x" "r div 4096 mod 64 = y"
    by (simp_all add: defs flip: div_mult2_eq)
  consider "r < 128" | "128 \<le> r" "r < 2048" | "2048 \<le> r" "r < 65536" | "65536 \<le> r" "r < 1114112"
    using assms unfolding valid_rune_def by linarith
  then show ?thesis
  proof cases
    case 1
    with assms show ?thesis by (simp add: encode_rune_def byte_char_of)
  next
    case 2
    then have "2 \<le> q" "q < 32" using rq by auto
    from decode_two_bytes [OF this rq(2), of s] show ?thesis
      using 2 assms rq by (simp add: encode_rune_def Let_def v_def [symmetric] q_def [symmetric]
          del: decode_rune.simps)
  next
    case 3
    have "p < 16" "p = 0 \<longrightarrow> 32 \<le> z" "p = 13 \<longrightarrow> z < 32"
      using 3 assms rq qp unfolding valid_rune_def by auto
    moreover have "p * 4096 + z * 64 + v = r" using rq qp by simp
    ultimately show ?thesis using 3 assms decode_three_bytes [of p z v s] rq(2) qp(2)
      by (simp add: encode_rune_def Let_def parts v_def [symmetric]
          del: decode_rune.simps)
  next
    case 4
    have "x < 5" "x = 0 \<longrightarrow> 16 \<le> y" "x = 4 \<longrightarrow> y < 16" using 4 rq qp px by auto
    moreover have "x * 262144 + y * 4096 + z * 64 + v = r" using rq qp px by simp
    ultimately show ?thesis using 4 assms decode_four_bytes [of x y z v s] rq(2) qp(2) px(2)
      by (simp add: encode_rune_def Let_def parts v_def [symmetric] y_def [symmetric]
          del: decode_rune.simps)
  qed
qed

lemma runes_append_encode:
  assumes "valid_rune r"
  shows "runes (encode_rune r @ s) = r # runes s"
proof -
  obtain c cs where e: "encode_rune r = c # cs" using encode_nonempty by (cases "encode_rune r") auto
  have "decode_rune (c # cs @ s) = (r, Suc (length cs))"
    using decode_encode [OF assms, of s] e by simp
  with e show ?thesis by (simp del: decode_rune.simps)
qed

lemma runes_string_of_runes: "list_all valid_rune rs \<Longrightarrow> runes (string_of_runes rs) = rs"
  by (induction rs) (simp_all add: string_of_runes_def runes_append_encode)

definition ascii_byte :: "char \<Rightarrow> bool" where
  "ascii_byte c \<longleftrightarrow> byte c < 128"

lemma runes_ascii: "list_all ascii_byte s \<Longrightarrow> runes s = map byte s"
  by (induction s) (simp_all add: ascii_byte_def)

lemma length_runes: "length (runes s) \<le> length s"
  by (induction s rule: runes.induct) (force split: prod.splits simp del: decode_rune.simps
      intro: le_trans [OF _ diff_le_self])+

section \<open>Unicode tables\<close>

record unicode_tables =
  table_lower :: "nat \<Rightarrow> bool"
  table_upper :: "nat \<Rightarrow> bool"
  table_digit :: "nat \<Rightarrow> bool"
  table_to_lower :: "nat \<Rightarrow> nat"

definition is_lower :: "unicode_tables \<Rightarrow> nat \<Rightarrow> bool" where
  "is_lower U r = (if r < 128 then 97 \<le> r \<and> r \<le> 122 else table_lower U r)"

definition is_upper :: "unicode_tables \<Rightarrow> nat \<Rightarrow> bool" where
  "is_upper U r = (if r < 128 then 65 \<le> r \<and> r \<le> 90 else table_upper U r)"

definition is_digit :: "unicode_tables \<Rightarrow> nat \<Rightarrow> bool" where
  "is_digit U r = (if r < 128 then 48 \<le> r \<and> r \<le> 57 else table_digit U r)"

definition rune_to_lower :: "unicode_tables \<Rightarrow> nat \<Rightarrow> nat" where
  "rune_to_lower U r = (if r < 128 then (if 65 \<le> r \<and> r \<le> 90 then r + 32 else r) else table_to_lower U r)"

text \<open>\<open>strings.ToLower\<close>\<close>

definition to_lower :: "unicode_tables \<Rightarrow> string \<Rightarrow> string" where
  "to_lower U s = string_of_runes (map (rune_to_lower U) (runes s))"

text \<open>\<open>unicode.IsSpace\<close>\<close>

definition is_space :: "nat \<Rightarrow> bool" where
  "is_space r \<longleftrightarrow> (9 \<le> r \<and> r \<le> 13) \<or> r = 32 \<or> r = 133 \<or> r = 160 \<or> r = 5760 \<or>
     (8192 \<le> r \<and> r \<le> 8202) \<or> r = 8232 \<or> r = 8233 \<or> r = 8239 \<or> r = 8287 \<or> r = 12288"

section \<open>\<open>strings.TrimSpace\<close>\<close>

fun trim_left_space :: "string \<Rightarrow> string" where
  "trim_left_space [] = []"
| "trim_left_space (c # cs) = (case decode_rune (c # cs) of (r, n) \<Rightarrow>
     if is_space r then trim_left_space (drop (n - 1) cs) else c # cs)"

text \<open>
  \<open>utf8.DecodeLastRune\<close>: the last byte when it is ASCII; otherwise the rune that starts at the
  nearest start byte among the three before it, when its encoding ends at the end.
\<close>

definition decode_last_rune :: "string \<Rightarrow> nat \<times> nat" where
  "decode_last_rune s =
     (if s = [] then (rune_error, 0)
      else if byte (last s) < 128 then (byte (last s), 1)
      else case find (\<lambda>k. k \<le> length s \<and> \<not> cont_byte (s ! (length s - k))) [2, 3, 4] of
             None \<Rightarrow> (rune_error, 1)
           | Some k \<Rightarrow> (case decode_rune (drop (length s - k) s) of (r, n) \<Rightarrow>
               if n = k then (r, k) else (rune_error, 1)))"

lemma decode_last_rune_width: "s \<noteq> [] \<Longrightarrow> 0 < snd (decode_last_rune s)"
  by (auto simp: decode_last_rune_def split: option.splits prod.splits dest!: find_Some_member)

function trim_right_space :: "string \<Rightarrow> string" where
  "trim_right_space s =
     (if s = [] then []
      else case decode_last_rune s of (r, n) \<Rightarrow>
        if is_space r then trim_right_space (take (length s - n) s) else s)"
  by pat_completeness auto

termination trim_right_space
proof (relation "measure length", goal_cases)
  case (2 s x n)
  then show ?case using decode_last_rune_width [of s] by (cases s) (auto simp: prod_eq_iff)
qed simp

declare trim_right_space.simps [simp del]

definition trim_space :: "string \<Rightarrow> string" where
  "trim_space s = trim_right_space (trim_left_space s)"

lemma trim_space_Nil [simp]: "trim_space [] = []"
  by (simp add: trim_space_def trim_right_space.simps)

section \<open>Searching and splitting\<close>

definition contains :: "string \<Rightarrow> string \<Rightarrow> bool" where
  "contains s t \<longleftrightarrow> (\<exists>i\<in>set [0..<length s + 1]. take (length t) (drop i s) = t)"

text \<open>\<open>strings.Index\<close>; \<open>None\<close> stands for -1.\<close>

definition index :: "string \<Rightarrow> string \<Rightarrow> nat option" where
  "index s t = find (\<lambda>i. take (length t) (drop i s) = t) [0..<length s + 1]"

text \<open>The parts between the bytes that satisfy \<open>P\<close>; \<open>strings.Split\<close> with a separator of one byte.\<close>

fun split_when :: "(char \<Rightarrow> bool) \<Rightarrow> string \<Rightarrow> string list" where
  "split_when P [] = [[]]"
| "split_when P (c # cs) =
     (if P c then [] # split_when P cs
      else case split_when P cs of [] \<Rightarrow> [[c]] | w # ws \<Rightarrow> (c # w) # ws)"

definition split_on :: "char \<Rightarrow> string \<Rightarrow> string list" where
  "split_on sep = split_when (\<lambda>c. c = sep)"

text \<open>\<open>strings.SplitN(s, sep, 2)\<close>\<close>

definition split_n2 :: "char \<Rightarrow> string \<Rightarrow> string list" where
  "split_n2 sep s = (case dropWhile (\<lambda>c. c \<noteq> sep) s of
     [] \<Rightarrow> [s]
   | _ # rest \<Rightarrow> [takeWhile (\<lambda>c. c \<noteq> sep) s, rest])"

text \<open>
  \<open>strings.FieldsFunc\<close> for a predicate that holds of some ASCII runes only, where the fields can
  be read off the bytes: the non-empty parts between separators.
\<close>

definition fields_func :: "(char \<Rightarrow> bool) \<Rightarrow> string \<Rightarrow> string list" where
  "fields_func P s = filter (\<lambda>w. w \<noteq> []) (split_when P s)"

lemma contains_iff: "contains s t \<longleftrightarrow> (\<exists>a b. s = a @ t @ b)"
proof
  assume "contains s t"
  then obtain i where "take (length t) (drop i s) = t" by (auto simp: contains_def)
  then have "s = take i s @ t @ drop (length t) (drop i s)" by (metis append_take_drop_id)
  then show "\<exists>a b. s = a @ t @ b" by blast
next
  assume "\<exists>a b. s = a @ t @ b"
  then obtain a b where s: "s = a @ t @ b" by blast
  then have "length a \<in> set [0..<length s + 1]" and "take (length t) (drop (length a) s) = t" by auto
  then show "contains s t" unfolding contains_def by blast
qed

lemma split_when_nonempty [simp]: "split_when P s \<noteq> []"
  by (induction s) (auto split: list.splits)

lemma split_when_word: "(\<forall>c\<in>set w. \<not> P c) \<Longrightarrow> split_when P w = [w]"
  by (induction w) auto

lemma split_when_append: "(\<forall>c\<in>set w. \<not> P c) \<Longrightarrow> P sep \<Longrightarrow> split_when P (w @ sep # s) = w # split_when P s"
  by (induction w) auto

lemma split_on_word: "sep \<notin> set w \<Longrightarrow> split_on sep w = [w]"
  by (auto simp: split_on_def intro: split_when_word)

lemma split_on_append: "sep \<notin> set w \<Longrightarrow> split_on sep (w @ sep # s) = w # split_on sep s"
  by (auto simp: split_on_def intro: split_when_append)

end
