(* ===== verification/Permission_Service.thy ===== *)
theory Permission_Service
  imports Permission_Cache Permission_Match Audit_Service Go_Unicode
begin

text \<open>
  The permission service (\<open>service/permission.go\<close>, \<open>service/permission_catalog.go\<close>): the check
  of a permission through the cache, grants and revocations, and the catalogue of codes.
\<close>

section \<open>Definitions\<close>

text \<open>
  \<open>HasPermission\<close>: an error of the cache falls back to the database; a miss reads the database and
  fills the cache, and an error of the filling is only logged.
\<close>

definition has_permission :: "perm_cache \<Rightarrow> int \<Rightarrow> string \<Rightarrow> (world, err + bool) state" where
  "has_permission pc uid code = do {
     got \<leftarrow> cache_get pc uid;
     (case got of
        Inl _ \<Rightarrow>
          try_bind (permission_repo_list_codes_by_user_id uid) (\<lambda>codes.
            State_Monad.return (Inr (match_permission codes code)))
      | Inr (codes, found) \<Rightarrow>
          (if \<not> found then
             try_bind (permission_repo_list_codes_by_user_id uid) (\<lambda>codes. do {
               _ \<leftarrow> cache_set pc uid codes;
               State_Monad.return (Inr (match_permission codes code))
             })
           else State_Monad.return (Inr (match_permission codes code))))
   }"

definition list_all_permissions :: "(string \<Rightarrow> string) \<Rightarrow> (world, err + permission list) state" where
  "list_all_permissions collate = permission_repo_list_all collate"

definition list_codes_by_user :: "int \<Rightarrow> (world, err + string list) state" where
  "list_codes_by_user uid = permission_repo_list_codes_by_user_id uid"

definition invalidate_cache :: "perm_cache \<Rightarrow> int \<Rightarrow> (world, unit) state" where
  "invalidate_cache pc uid = do { _ \<leftarrow> cache_invalidate pc uid; State_Monad.return () }"

definition invalidate_user_cache :: "perm_cache \<Rightarrow> int \<Rightarrow> (world, unit) state" where
  "invalidate_user_cache pc uid = invalidate_cache pc uid"

definition count_active_users_with_star :: "(world, err + int) state" where
  "count_active_users_with_star = permission_repo_count_active_users_with_code ''*''"

definition actor_can_grant :: "int \<Rightarrow> string \<Rightarrow> (world, err + bool) state" where
  "actor_can_grant actor perm_code =
     try_bind (permission_repo_list_codes_by_user_id actor) (\<lambda>codes.
       State_Monad.return (Inr (match_permission codes perm_code)))"

definition grant_data :: "int \<Rightarrow> int \<Rightarrow> string \<Rightarrow> json_map" where
  "grant_data uid pid code =
     [(''userId'', JInt uid), (''permissionId'', JInt pid), (''permissionCode'', JStr code)]"

definition grant :: "perm_cache \<Rightarrow> int \<Rightarrow> int \<Rightarrow> int \<Rightarrow> (world, err + unit) state" where
  "grant pc actor uid pid =
     try_bind (user_repo_find_by_id uid) (\<lambda>_.
     try_bind (permission_repo_find_by_id pid) (\<lambda>perm.
     try_bind (actor_can_grant actor (p_code perm)) (\<lambda>allowed.
       if \<not> allowed then State_Monad.return (Inl ErrForbidden)
       else try_bind (permission_repo_grant uid pid) (\<lambda>_. do {
         _ \<leftarrow> invalidate_cache pc uid;
         _ \<leftarrow> audit_service_log (Some actor) ''permission.granted'' ''user_permissions'' (Some uid)
               None (Some (grant_data uid pid (p_code perm)));
         State_Monad.return (Inr ())
       }))))"

definition revoke :: "perm_cache \<Rightarrow> int \<Rightarrow> int \<Rightarrow> int \<Rightarrow> (world, err + unit) state" where
  "revoke pc actor uid pid =
     try_bind (user_repo_find_by_id uid) (\<lambda>_.
     try_bind (permission_repo_find_by_id pid) (\<lambda>perm.
     try_bind (permission_repo_revoke uid pid) (\<lambda>_. do {
       _ \<leftarrow> invalidate_cache pc uid;
       _ \<leftarrow> audit_service_log (Some actor) ''permission.revoked'' ''user_permissions'' (Some uid)
             (Some (grant_data uid pid (p_code perm))) None;
       State_Monad.return (Inr ())
     })))"

definition code_data :: "string \<Rightarrow> string \<Rightarrow> json_map" where
  "code_data code description = [(''code'', JStr code), (''description'', JStr description)]"

definition create_permission :: "int \<Rightarrow> string \<Rightarrow> string \<Rightarrow> (world, err + permission) state" where
  "create_permission actor code0 description =
     (let code = trim_space code0 in
      case validate_permission_code code of
        Inl e \<Rightarrow> State_Monad.return (Inl e)
      | Inr _ \<Rightarrow> do {
          existing \<leftarrow> permission_repo_find_by_code code;
          (case existing of
             Inr _ \<Rightarrow> State_Monad.return (Inl ErrPermissionCodeTaken)
           | Inl e \<Rightarrow>
               if e \<noteq> ErrNotFound then State_Monad.return (Inl e)
               else try_bind (permission_repo_create \<lparr>p_id = 0, p_code = code,
                      p_description = trim_space description, p_created_at = 0\<rparr>) (\<lambda>perm. do {
                 _ \<leftarrow> audit_service_log (Some actor) ''permission.created'' ''permission'' (Some (p_id perm))
                       None (Some (code_data (p_code perm) (p_description perm)));
                 State_Monad.return (Inr perm)
               }))
        })"

definition update_description :: "int \<Rightarrow> int \<Rightarrow> string \<Rightarrow> (world, err + permission) state" where
  "update_description actor pid description =
     try_bind (permission_repo_find_by_id pid) (\<lambda>perm0.
       let old = [(''description'', JStr (p_description perm0))];
           perm = perm0\<lparr>p_description := trim_space description\<rparr>
       in try_bind (permission_repo_update_description pid (p_description perm)) (\<lambda>_. do {
         _ \<leftarrow> audit_service_log (Some actor) ''permission.updated'' ''permission'' (Some pid)
               (Some old) (Some (code_data (p_code perm) (p_description perm)));
         State_Monad.return (Inr perm)
       }))"

definition delete_permission :: "int \<Rightarrow> int \<Rightarrow> (world, err + unit) state" where
  "delete_permission actor pid =
     try_bind (permission_repo_find_by_id pid) (\<lambda>perm.
       if is_protected_permission_code (p_code perm) then State_Monad.return (Inl ErrProtectedPermission)
       else try_bind (permission_repo_count_assignments pid) (\<lambda>count.
         if 0 < count then State_Monad.return (Inl ErrPermissionInUse)
         else try_bind (permission_repo_delete pid) (\<lambda>_. do {
           _ \<leftarrow> audit_service_log (Some actor) ''permission.deleted'' ''permission'' (Some pid)
                 (Some (code_data (p_code perm) (p_description perm))) None;
           State_Monad.return (Inr ())
         })))"

lemmas permission_service_defs = has_permission_def list_all_permissions_def list_codes_by_user_def
  invalidate_cache_def invalidate_user_cache_def count_active_users_with_star_def actor_can_grant_def
  grant_def revoke_def create_permission_def update_description_def delete_permission_def

section \<open>Every operation evolves the database\<close>

lemma evolves_cache [respects]:
  "state_io_rel (on_db evolves) (cache_get pc uid)"
  "state_io_rel (on_db evolves) (cache_set pc uid codes)"
  "state_io_rel (on_db evolves) (cache_invalidate pc uid)"
  unfolding cache_get_def cache_set_def cache_invalidate_def rdb_defs
  by (intro ev.on_rules respects)+

lemma evolves_permission_service [respects]:
  "state_io_rel (on_db evolves) (has_permission pc uid code)"
  "state_io_rel (on_db evolves) (list_all_permissions collate)"
  "state_io_rel (on_db evolves) (list_codes_by_user uid)"
  "state_io_rel (on_db evolves) (invalidate_user_cache pc uid)"
  "state_io_rel (on_db evolves) count_active_users_with_star"
  "state_io_rel (on_db evolves) (grant pc actor uid pid)"
  "state_io_rel (on_db evolves) (revoke pc actor uid pid)"
  "state_io_rel (on_db evolves) (create_permission actor code description)"
  "state_io_rel (on_db evolves) (update_description actor pid description)"
  "state_io_rel (on_db evolves) (delete_permission actor pid)"
  unfolding permission_service_defs
  by (intro ev.on_rules respects)+

lemma only_audit_invalidate [respects]: "state_io_rel (on_db only_audit) (invalidate_user_cache pc uid)"
  unfolding invalidate_user_cache_def invalidate_cache_def cache_invalidate_def rdb_defs
  by (intro oa.on_rules respects)

section \<open>The check reads through the cache\<close>

lemma has_permission_reads:
  "has_permission pc uid code = try_bind (cache.read_through pc uid) (\<lambda>codes.
     State_Monad.return (Inr (match_permission codes code)))"
  by (rule State_Monad.state.expand, rule ext)
    (simp add: has_permission_def cache.read_through_def split: prod.splits sum.splits)

lemma db_read_healthy:
  assumes "db_faults w = []"
  shows "\<exists>w'. run_state (permission_repo_list_codes_by_user_id uid) w = (Inr (codes_of (db w) uid), w')"
  using assms by (simp add: permission_repo_list_codes_by_user_id_def run_db_call_ok)

lemma cache_get_db: "run_state (cache_get pc uid) w = (r, w') \<Longrightarrow> db w' = db w \<and> db_faults w' = db_faults w"
  by (auto simp: cache_get_def rdb_smembers_def split: prod.splits sum.splits dest: run_redis_call(1,2))

lemma read_through_healthy:
  assumes "run_state (cache.read_through pc uid) w = (r, w')" and "db_faults w = []"
  shows "\<exists>codes. r = Inr codes"
  using assms(1)
proof (cases rule: cache.read_through_cases)
  case (down e w1)
  then show ?thesis using db_read_healthy [of w1 uid] cache_get_db [OF down(1)] assms(2) by auto
next
  case (fail w1 e)
  then show ?thesis using db_read_healthy [of w1 uid] cache_get_db [OF fail(1)] assms(2) by auto
qed simp_all

lemma cache_db:
  "run_state (cache_get pc uid) w = (r, w') \<Longrightarrow> db w' = db w"
  "run_state (cache_set pc uid codes) w = (r2, w') \<Longrightarrow> db w' = db w"
  "run_state (cache_invalidate pc uid) w = (r3, w') \<Longrightarrow> db w' = db w"
  by (auto simp: on_db_def dest: run_respects [OF same_db_cache(1)] run_respects [OF same_db_cache(2)]
      run_respects [OF same_db_cache(3)])

lemma read_through_db: "run_state (cache.read_through pc uid) w = (r, w') \<Longrightarrow> db w' = db w"
  by (erule cache.read_through_cases)
    (auto simp: quiet_def dest!: cache_db quietD [OF quiet_repository(9)])

text \<open>The answer of a check, and what the check leaves behind.\<close>

lemma has_permission_run:
  assumes "run_state (has_permission pc uid code) w = (r, w')"
  obtains q where "run_state (cache.read_through pc uid) w = (q, w')"
    "r = (case q of Inl e \<Rightarrow> Inl e | Inr codes \<Rightarrow> Inr (match_permission codes code))"
  using assms unfolding has_permission_reads by (auto split: prod.splits sum.splits)

lemma has_permission_answer:
  assumes run: "run_state (has_permission pc uid code) w = (Inr b, w')" and "coherent pc w uid"
  shows "b \<longleftrightarrow> (\<exists>g\<in>granted w uid. covers g code)"
  using run
proof (cases rule: has_permission_run)
  case (1 q)
  then obtain codes where "q = Inr codes" "b = match_permission codes code" by (cases q) auto
  with 1(1) assms(2) show ?thesis using read_answer by (auto simp: match_permission_covers)
qed

lemma has_permission_keeps:
  assumes "run_state (has_permission pc uid code) w = (r, w')"
  shows "db w' = db w" "coherent pc w v \<Longrightarrow> coherent pc w' v"
  using assms by (cases rule: has_permission_run; simp add: read_through_db coherent_read)+

lemma has_permission_healthy:
  assumes "run_state (has_permission pc uid code) w = (r, w')" and "db_faults w = []"
  shows "\<exists>b. r = Inr b"
  using assms(1)
proof (cases rule: has_permission_run)
  case (1 q)
  then show ?thesis using read_through_healthy [OF 1(1) assms(2)] by auto
qed

section \<open>A change that invalidates\<close>

text \<open>
  \<open>Grant\<close> and \<open>Revoke\<close> end the same way: the statement, the invalidation of the user's entry, the
  trail. The cache loses entries only; when Redis works the user's entry is gone.
\<close>

lemma cached_quiet: "quiet w w' \<Longrightarrow> cached p w' v \<in> {{}, cached p w v}"
  by (rule cached_same_store) (simp_all add: quiet_def)

lemma cached_redis_kept: "redis_kept w w' \<Longrightarrow> cached p w' v \<in> {{}, cached p w v}"
  by (rule cached_same_store) (simp_all add: redis_kept_def)

lemma run_invalidate:
  assumes "run_state (invalidate_cache pc uid) w = (u, w')"
  shows "db w' = db w" "cached pc w' v \<in> {{}, cached pc w v}"
    "redis_faults w = [] \<Longrightarrow> cached pc w' uid = {}"
proof -
  from assms obtain r where r: "run_state (cache_invalidate pc uid) w = (r, w')"
    by (auto simp: invalidate_cache_def split: prod.splits)
  show "db w' = db w" using r by (rule cache_db)
  show "cached pc w' v \<in> {{}, cached pc w v}"
    using r unfolding cache_invalidate_def by (rule cached_del)
  assume "redis_faults w = []"
  then have "r = Inr ()"
    using r run_redis_call(7) by (fastforce simp: cache_invalidate_def rdb_del_def del_cmd_def)
  with r show "cached pc w' uid = {}" by (intro cached_del(2)) (simp_all add: cache_invalidate_def)
qed

lemma change_then_invalidate:
  assumes run: "run_state (try_bind (db_call f) (\<lambda>_. do {
       _ \<leftarrow> invalidate_cache pc uid;
       _ \<leftarrow> audit_service_log a act ent eid old new;
       State_Monad.return (Inr ()) })) w = (r, w')"
  shows "cached pc w' v \<in> {{}, cached pc w v}"
    and "r = Inr () \<Longrightarrow> redis_faults w = [] \<Longrightarrow> cached pc w' uid = {}"
    and "r = Inr () \<Longrightarrow> \<exists>t. fst (f t (db w)) = Inr () \<and> only_audit (snd (f t (db w))) (db w')"
    and "r = Inl e \<Longrightarrow> db w' = db w \<or> (\<exists>t. db w' = snd (f t (db w)))"
proof -
  from run obtain q w1 where q: "run_state (db_call f) w = (q, w1)"
    and rest: "case q of Inl e \<Rightarrow> r = Inl e \<and> w' = w1
      | Inr _ \<Rightarrow> r = Inr () \<and> (\<exists>u1 w2 u2. run_state (invalidate_cache pc uid) w1 = (u1, w2) \<and>
          run_state (audit_service_log a act ent eid old new) w2 = (u2, w'))"
    by (auto split: prod.splits sum.splits)
  have c1: "cached pc w1 v \<in> {{}, cached pc w v}" using q by (rule cached_db_call)
  have all: "cached pc w' v \<in> {{}, cached pc w v} \<and>
     (r = Inr () \<longrightarrow> redis_faults w = [] \<longrightarrow> cached pc w' uid = {}) \<and>
     (r = Inr () \<longrightarrow> (\<exists>t. fst (f t (db w)) = Inr () \<and> only_audit (snd (f t (db w))) (db w'))) \<and>
     (r = Inl e \<longrightarrow> db w' = db w \<or> (\<exists>t. db w' = snd (f t (db w))))"
  proof (cases q)
    case (Inl e)
    with rest c1 show ?thesis using run_db_call(6) [OF q] by auto
  next
    case (Inr x)
    then obtain u1 w2 u2 where inv: "run_state (invalidate_cache pc uid) w1 = (u1, w2)"
      and log: "run_state (audit_service_log a act ent eid old new) w2 = (u2, w')" and r: "r = Inr ()"
      using rest by auto
    have "cached pc w' u \<in> {{}, cached pc w2 u}" for u
      by (rule cached_redis_kept [OF run_respects [OF redis_kept_audit(1) log]])
    moreover have "redis_faults w1 = redis_faults w" using q by (rule run_db_call)
    ultimately have "cached pc w' v \<in> {{}, cached pc w v}"
      "redis_faults w = [] \<longrightarrow> cached pc w' uid = {}"
      using run_invalidate(2) [OF inv, of v] run_invalidate(3) [OF inv] c1 by (auto, blast+)
    moreover have "only_audit (db w1) (db w')"
      using run_respects [OF only_audit_log(1) log] run_invalidate(1) [OF inv] by (simp add: on_db_def)
    ultimately show ?thesis
      using db_call_Inr [OF q [unfolded Inr]] r by auto
  qed
  then show "cached pc w' v \<in> {{}, cached pc w v}"
    "r = Inr () \<Longrightarrow> redis_faults w = [] \<Longrightarrow> cached pc w' uid = {}"
    "r = Inr () \<Longrightarrow> \<exists>t. fst (f t (db w)) = Inr () \<and> only_audit (snd (f t (db w))) (db w')"
    "r = Inl e \<Longrightarrow> db w' = db w \<or> (\<exists>t. db w' = snd (f t (db w)))"
    by blast+
qed

section \<open>Grants\<close>

lemma quiet_actor_can_grant [respects]: "state_io_rel quiet (actor_can_grant actor code)"
  unfolding actor_can_grant_def by (intro quiet.step_rules respects)

lemma redis_kept_actor_can_grant [respects]: "state_io_rel redis_kept (actor_can_grant actor code)"
  unfolding actor_can_grant_def by (intro rk.step_rules respects)

lemma actor_can_grant_answers:
  "run_state (actor_can_grant actor code) w = (Inl e, w') \<Longrightarrow> e = ErrDb"
  "run_state (actor_can_grant actor code) w = (Inr b, w') \<Longrightarrow> b = match_permission (codes_of (db w) actor) code"
  unfolding actor_can_grant_def
  by (auto simp del: run_try_bind elim!: try_bindE dest: lookup_errors codes_Inr)

lemma grant_cases:
  assumes "run_state (grant pc actor uid pid) w = (r, w')"
  obtains (refused) e where "r = Inl e" "quiet w w'"
      "e = ErrForbidden \<Longrightarrow> \<exists>p. find (\<lambda>p. p_id p = pid) (permissions (db w)) = Some p \<and>
         \<not> match_permission (codes_of (db w) actor) (p_code p)"
  | (allowed) w1 p where "quiet w w1" "redis_faults w1 = redis_faults w"
      "find (\<lambda>p. p_id p = pid) (permissions (db w)) = Some p"
      "match_permission (codes_of (db w) actor) (p_code p)"
      "run_state (try_bind (db_call (q_grant uid pid)) (\<lambda>_. do {
         _ \<leftarrow> invalidate_cache pc uid;
         _ \<leftarrow> audit_service_log (Some actor) ''permission.granted'' ''user_permissions'' (Some uid)
               None (Some (grant_data uid pid (p_code p)));
         State_Monad.return (Inr ()) })) w1 = (r, w')"
  using assms unfolding grant_def
proof (cases rule: try_bindE)
  case (stop e)
  then show thesis using refused lookup_errors(1) quietD [OF quiet_repository(2)] by blast
next
  case (go u w1)
  note q1 = quietD [OF quiet_repository(2) go(1)] run_respects [OF redis_kept_repository(2) go(1)]
  from go(2) show thesis
  proof (cases rule: try_bindE)
    case (stop e)
    then show thesis using refused lookup_errors(3) quietD [OF quiet_repository(8)] q1 quiet.step_trans by blast
  next
    case (go p w2)
    note q2 = quietD [OF quiet_repository(8) go(1)] run_respects [OF redis_kept_repository(11) go(1)]
    have p: "find (\<lambda>p. p_id p = pid) (permissions (db w)) = Some p"
      using permission_by_id_Inr [OF go(1)] q1 by (simp add: quiet_def)
    from go(2) show thesis
    proof (cases rule: try_bindE)
      case (stop e)
      then have "e = ErrDb" using actor_can_grant_answers(1) by blast
      with stop show thesis
        using refused quietD [OF quiet_actor_can_grant] q1 q2 quiet.step_trans by blast
    next
      case (go b w3)
      then have b: "b = match_permission (codes_of (db w2) actor) (p_code p)"
        using actor_can_grant_answers(2) by blast
      note q3 = quietD [OF quiet_actor_can_grant go(1)]
      have r3: "redis_faults w3 = redis_faults w2"
        using run_respects [OF redis_kept_actor_can_grant go(1)] by (simp add: redis_kept_def)
      have q: "quiet w w3" using q1 q2 q3 quiet.step_trans by blast
      have same: "db w2 = db w" using q1 q2 by (simp add: quiet_def)
      show thesis
      proof (cases b)
        case True
        then show thesis
          using allowed [OF q _ p, of] go(2) b same r3 q1(2) q2(2)
          by (simp add: permission_repo_grant_def redis_kept_def)
      next
        case False
        then show thesis using refused [of ErrForbidden] q p b same go(2) by simp
      qed
    qed
  qed
qed

lemma codes_after_grant:
  assumes "db_wf d" and "find (\<lambda>p. p_id p = pid) (permissions d) = Some p"
    and "fst (q_grant uid pid t d) = Inr ()"
  shows "set (codes_of (snd (q_grant uid pid t d)) u) =
    (if u = uid then insert (p_code p) (set (codes_of d u)) else set (codes_of d u))"
proof -
  have p: "p \<in> set (permissions d)" "p_id p = pid" using assms(2) by (auto dest: find_Some_member)
  have "inj_on p_id (set (permissions d))"
    using assms(1) by (simp add: wf_defs ids_ok_def distinct_map)
  with p have uniq: "q \<in> set (permissions d) \<and> p_id q = pid \<longleftrightarrow> q = p" for q
    by (auto dest: inj_onD)
  have same: "permissions (snd (q_grant uid pid t d)) = permissions d"
    and new: "set (user_permissions (snd (q_grant uid pid t d))) =
      insert \<lparr>up_user_id = uid, up_permission_id = pid\<rparr> (set (user_permissions d))"
    using assms(3) by (simp_all add: q_grant_def split: if_splits)
  have "set (codes_of (snd (q_grant uid pid t d)) u) =
      {p_code q |q. q \<in> set (permissions d) \<and> p_id q = pid \<and> u = uid} \<union> set (codes_of d u)"
    unfolding codes_set same new by auto
  also have "{p_code q |q. q \<in> set (permissions d) \<and> p_id q = pid \<and> u = uid} = (if u = uid then {p_code p} else {})"
    using uniq by auto
  finally show ?thesis by auto
qed

lemma q_grant_refused: "fst (q_grant uid pid t d) \<noteq> Inr () \<Longrightarrow> snd (q_grant uid pid t d) = d"
  by (auto simp: q_grant_def split: if_splits)

lemma granted_only_audit: "only_audit (db v) (db w) \<Longrightarrow> granted w = granted v"
  by (simp add: granted_def only_audit_reads fun_eq_iff)

lemma granted_quiet: "quiet v w \<Longrightarrow> granted w = granted v"
  by (simp add: granted_def quiet_def fun_eq_iff)

text \<open>
  The effect of a grant, whatever fails on the way: the codes of the users stay, or one code that
  the actor's codes cover is added to the codes of the one user. Without an error it is added.
\<close>

lemma grant_effect:
  assumes run: "run_state (grant pc actor uid pid) w = (r, w')" and wf: "db_wf (db w)"
  shows "granted w' = granted w \<and> r \<noteq> Inr () \<or>
    (\<exists>p\<in>set (permissions (db w)). p_id p = pid \<and> (\<exists>g\<in>granted w actor. covers g (p_code p)) \<and>
       granted w' = (granted w)(uid := insert (p_code p) (granted w uid)))"
  using run
proof (cases rule: grant_cases)
  case (refused e)
  then show ?thesis by (simp add: granted_quiet)
next
  case (allowed w1 p)
  have db1: "db w1 = db w" using allowed(1) by (simp add: quiet_def)
  have p: "p \<in> set (permissions (db w))" "p_id p = pid" using allowed(3) by (auto dest: find_Some_member)
  have cov: "\<exists>g\<in>granted w actor. covers g (p_code p)"
    using allowed(4) by (simp add: match_permission_covers granted_def)
  have added: "granted w' = (granted w)(uid := insert (p_code p) (granted w uid))"
    if "fst (q_grant uid pid t (db w)) = Inr ()" "codes_of (db w') = codes_of (snd (q_grant uid pid t (db w)))" for t
    using codes_after_grant [OF wf allowed(3) that(1)] that(2) by (auto simp: granted_def fun_eq_iff)
  show ?thesis
  proof (cases r)
    case (Inl e)
    with change_then_invalidate(4) [OF allowed(5)] db1
    have "db w' = db w \<or> (\<exists>t. db w' = snd (q_grant uid pid t (db w)))" by auto
    then have "granted w' = granted w \<or> granted w' = (granted w)(uid := insert (p_code p) (granted w uid))"
      using added q_grant_refused unfolding granted_def by (metis (mono_tags))
    with Inl p cov show ?thesis by auto
  next
    case (Inr x)
    with change_then_invalidate(3) [OF allowed(5)] db1 obtain t
      where "fst (q_grant uid pid t (db w)) = Inr ()" "only_audit (snd (q_grant uid pid t (db w))) (db w')"
      by auto
    with added [of t] p cov show ?thesis by (auto simp: only_audit_reads)
  qed
qed

section \<open>Revocations\<close>

lemma revoke_cases:
  assumes "run_state (revoke pc actor uid pid) w = (r, w')"
  obtains (refused) e where "r = Inl e" "quiet w w'"
  | (found) w1 p where "quiet w w1" "redis_faults w1 = redis_faults w"
      "find (\<lambda>p. p_id p = pid) (permissions (db w)) = Some p"
      "run_state (try_bind (db_call (q_revoke uid pid)) (\<lambda>_. do {
         _ \<leftarrow> invalidate_cache pc uid;
         _ \<leftarrow> audit_service_log (Some actor) ''permission.revoked'' ''user_permissions'' (Some uid)
               (Some (grant_data uid pid (p_code p))) None;
         State_Monad.return (Inr ()) })) w1 = (r, w')"
  using assms unfolding revoke_def
proof (cases rule: try_bindE)
  case (stop e)
  then show thesis using refused quietD [OF quiet_repository(2)] by blast
next
  case (go u w1)
  note q1 = quietD [OF quiet_repository(2) go(1)] run_respects [OF redis_kept_repository(2) go(1)]
  from go(2) show thesis
  proof (cases rule: try_bindE)
    case (stop e)
    then show thesis using refused quietD [OF quiet_repository(8)] q1 quiet.step_trans by blast
  next
    case (go p w2)
    note q2 = quietD [OF quiet_repository(8) go(1)] run_respects [OF redis_kept_repository(11) go(1)]
    have "find (\<lambda>p. p_id p = pid) (permissions (db w)) = Some p"
      using permission_by_id_Inr [OF go(1)] q1 by (simp add: quiet_def)
    moreover have "quiet w w2" using q1 q2 quiet.step_trans by blast
    ultimately show thesis
      using found [of w2 p] go(2) q1(2) q2(2) by (simp add: permission_repo_revoke_def redis_kept_def)
  qed
qed

lemma codes_after_revoke:
  assumes "db_wf d" and "find (\<lambda>p. p_id p = pid) (permissions d) = Some p"
  shows "set (codes_of (snd (q_revoke uid pid t d)) u) =
    (if u = uid then set (codes_of d u) - {p_code p} else set (codes_of d u))"
proof -
  have p: "p \<in> set (permissions d)" "p_id p = pid" using assms(2) by (auto dest: find_Some_member)
  have "inj_on p_id (set (permissions d))" "inj_on p_code (set (permissions d))"
    using assms(1) by (simp_all add: wf_defs ids_ok_def distinct_map)
  with p have uniq: "q \<in> set (permissions d) \<Longrightarrow> p_id q = pid \<longleftrightarrow> p_code q = p_code p" for q
    by (metis inj_onD)
  have "set (codes_of (snd (q_revoke uid pid t d)) u) =
      {p_code q |q. q \<in> set (permissions d) \<and> \<lparr>up_user_id = u, up_permission_id = p_id q\<rparr> \<in> set (user_permissions d) \<and>
        \<not> (u = uid \<and> p_id q = pid)}"
    unfolding codes_set q_revoke_def by auto
  then show ?thesis using uniq by (auto simp: codes_set)
qed

lemma revoke_effect:
  assumes run: "run_state (revoke pc actor uid pid) w = (r, w')" and wf: "db_wf (db w)"
  shows "granted w' = granted w \<and> r \<noteq> Inr () \<or>
    (\<exists>p\<in>set (permissions (db w)). p_id p = pid \<and> granted w' = (granted w)(uid := granted w uid - {p_code p}))"
  using run
proof (cases rule: revoke_cases)
  case (refused e)
  then show ?thesis by (simp add: granted_quiet)
next
  case (found w1 p)
  have db1: "db w1 = db w" using found(1) by (simp add: quiet_def)
  have p: "p \<in> set (permissions (db w))" "p_id p = pid" using found(3) by (auto dest: find_Some_member)
  have gone: "granted w' = (granted w)(uid := granted w uid - {p_code p})"
    if "codes_of (db w') = codes_of (snd (q_revoke uid pid t (db w)))" for t
    using codes_after_revoke [OF wf found(3)] that by (auto simp: granted_def fun_eq_iff)
  show ?thesis
  proof (cases r)
    case (Inl e)
    with change_then_invalidate(4) [OF found(4)] db1
    have "db w' = db w \<or> (\<exists>t. db w' = snd (q_revoke uid pid t (db w)))" by auto
    then have "granted w' = granted w \<or> granted w' = (granted w)(uid := granted w uid - {p_code p})"
      using gone unfolding granted_def by (metis (mono_tags))
    with Inl p show ?thesis by auto
  next
    case (Inr x)
    with change_then_invalidate(3) [OF found(4)] db1 obtain t
      where "only_audit (snd (q_revoke uid pid t (db w))) (db w')" by auto
    with gone [of t] p show ?thesis by (auto simp: only_audit_reads)
  qed
qed

text \<open>The cache after a grant or a revocation.\<close>

lemma change_cached:
  assumes "run_state (grant pc actor uid pid) w = (r, w') \<or> run_state (revoke pc actor uid pid) w = (r, w')"
  shows "cached pc w' v \<in> {{}, cached pc w v}"
    and "r = Inr () \<Longrightarrow> redis_faults w = [] \<Longrightarrow> cached pc w' uid = {}"
proof -
  have step: "cached pc w' v \<in> {{}, cached pc w v} \<and> (r = Inr () \<longrightarrow> redis_faults w = [] \<longrightarrow> cached pc w' uid = {})"
    if "quiet w w1" "redis_faults w1 = redis_faults w"
      "run_state (try_bind (db_call f) (\<lambda>_. do {
         _ \<leftarrow> invalidate_cache pc uid;
         _ \<leftarrow> audit_service_log a act ent eid old new;
         State_Monad.return (Inr ()) })) w1 = (r, w')" for w1 a act ent eid old new
      and f :: "int \<Rightarrow> database \<Rightarrow> (err + unit) \<times> database"
    using change_then_invalidate(1,2) [OF that(3)] cached_quiet [OF that(1), of pc v] that(2) by auto
  have both: "cached pc w' v \<in> {{}, cached pc w v} \<and> (r = Inr () \<longrightarrow> redis_faults w = [] \<longrightarrow> cached pc w' uid = {})"
    using assms
  proof
    assume "run_state (grant pc actor uid pid) w = (r, w')"
    then show ?thesis by (cases rule: grant_cases) (use cached_quiet step in blast)+
  next
    assume "run_state (revoke pc actor uid pid) w = (r, w')"
    then show ?thesis by (cases rule: revoke_cases) (use cached_quiet step in blast)+
  qed
  then show "cached pc w' v \<in> {{}, cached pc w v}"
    "r = Inr () \<Longrightarrow> redis_faults w = [] \<Longrightarrow> cached pc w' uid = {}"
    by blast+
qed

end
