(* ===== verification/Samples.thy ===== *)
theory Samples
  imports Schema
begin

text \<open>
  A small instance of the tables and the world on which the properties of the development are
  applied: two roles, an administrator with the wildcard, a reader and an inactive user.
\<close>

definition alice :: user where
  "alice = \<lparr>u_id = 1, u_role_id = Some 1, u_name = ''Alice'', u_email = ''alice@x.io'',
     u_password_hash = ''h1'', u_active = True, u_created_at = 0, u_updated_at = 0\<rparr>"

definition bob :: user where
  "bob = \<lparr>u_id = 2, u_role_id = Some 2, u_name = ''Bob'', u_email = ''bob@x.io'',
     u_password_hash = ''h2'', u_active = True, u_created_at = 0, u_updated_at = 0\<rparr>"

definition carol :: user where
  "carol = \<lparr>u_id = 3, u_role_id = None, u_name = ''Carol'', u_email = ''carol@x.io'',
     u_password_hash = ''h3'', u_active = False, u_created_at = 0, u_updated_at = 0\<rparr>"

definition sample_db :: database where
  "sample_db = empty_db\<lparr>
     roles := [\<lparr>r_id = 1, r_name = ''admin'', r_description = [], r_created_at = 0\<rparr>,
               \<lparr>r_id = 2, r_name = ''user'', r_description = [], r_created_at = 0\<rparr>],
     users := [alice, bob, carol],
     permissions := [\<lparr>p_id = 1, p_code = ''*'', p_description = [], p_created_at = 0\<rparr>,
                     \<lparr>p_id = 2, p_code = ''users.read'', p_description = [], p_created_at = 0\<rparr>,
                     \<lparr>p_id = 3, p_code = ''audit.read'', p_description = [], p_created_at = 0\<rparr>],
     user_permissions := [\<lparr>up_user_id = 1, up_permission_id = 1\<rparr>, \<lparr>up_user_id = 2, up_permission_id = 2\<rparr>],
     next_user_id := 4, next_permission_id := 4\<rparr>"

definition sample_world :: world where
  "sample_world = empty_world\<lparr>db := sample_db\<rparr>"

lemmas sample_defs = alice_def bob_def carol_def sample_db_def sample_world_def empty_db_def empty_world_def

lemma sample_db_wf: "db_wf sample_db"
  by (simp add: wf_defs ids_ok_def role_exists_def sample_defs)

lemma sample_world_simps [simp]:
  "db sample_world = sample_db" "redis sample_world = Map.empty" "db_faults sample_world = []"
  "redis_faults sample_world = []" "clock sample_world = 0" "ticks sample_world = []"
  by (simp_all add: sample_world_def empty_world_def)

text \<open>What a simplifier run needs to evaluate the repositories on a concrete world.\<close>

lemmas db_eval = run_db_call_ok repository_defs q_user_by_email_def q_user_by_id_def q_permission_by_def
  q_user_create_def q_user_update_password_hash_def q_user_update_def q_grant_def q_revoke_def
  q_grant_all_def q_permission_create_def q_permission_update_description_def q_permission_delete_def
  q_session_create_def q_session_by_def q_session_revoke_def q_session_touch_def q_session_delete_def
  q_audit_insert_def role_of_def permissions_of_def codes_of_def role_exists_def assignments_def
  active_users_with_code_def active_at_def revoke_row_def add_grant_def Let_def elapse_def

end
