(* ===== verification/Permission_Properties.thy ===== *)
theory Permission_Properties
  imports Permission_Service Samples
begin

text \<open>The properties of the permission service, each with an instance.\<close>

definition sample_cache :: perm_cache where
  "sample_cache = \<lparr>pc_prefix = ''auth:'', pc_ttl = 300000000\<rparr>"

lemma empty_redis_coherent [simp]: "redis w = Map.empty \<Longrightarrow> coherent pc w u"
  by (simp add: coherent_def cached_def lookup_def)

lemma sample_granted:
  "granted sample_world 1 = {''*''}" "granted sample_world 2 = {''users.read''}" "granted sample_world 3 = {}"
  by (simp_all add: granted_def codes_of_def permissions_of_def sample_defs)

lemmas service_eval = db_eval permission_service_defs audit_service_log_def cache_get_def cache_set_def
  cache_invalidate_def rdb_defs run_redis_call_ok redis_call_def smembers_cmd_def sadd_cmd_def expire_cmd_def
  del_cmd_def lookup_def cache_key_def client_key_def dec_def dec_nat.simps digit_char_def sample_cache_def

definition is_inr :: "'a + 'b \<Rightarrow> bool" where
  "is_inr r = (case r of Inl _ \<Rightarrow> False | Inr _ \<Rightarrow> True)"

text \<open>
  C15: a check of a permission answers what the grants in the database say. When the cache is
  coherent for the user, an answer is true exactly when one of the granted codes covers the code
  asked for; with a working database there is an answer, whatever Redis does; and the check keeps
  every coherent entry coherent and the tables as they are.
\<close>

theorem has_permission_correct:
  assumes coherent: "coherent pc w uid"
    and run: "run_state (has_permission pc uid code) w = (r, w')"
  shows "(\<forall>b. r = Inr b \<longrightarrow> (b \<longleftrightarrow> (\<exists>g\<in>granted w uid. covers g code))) \<and>
    (db_faults w = [] \<longrightarrow> (\<exists>b. r = Inr b)) \<and>
    db w' = db w \<and> (\<forall>v. coherent pc w v \<longrightarrow> coherent pc w' v)"
  using has_permission_answer [of pc uid code w _ w'] has_permission_keeps [OF run]
    has_permission_healthy [OF run] coherent run by blast

theorem has_permission_correct_witness:
  "fst (run_state (has_permission sample_cache 1 ''users.read'') (sample_world\<lparr>redis_faults := [Fails]\<rparr>)) = Inr True"
proof -
  let ?w = "sample_world\<lparr>redis_faults := [Fails]\<rparr>"
  let ?run = "run_state (has_permission sample_cache 1 ''users.read'') ?w"
  have "granted ?w 1 = {''*''}" using sample_granted(1) by (simp add: granted_def)
  moreover have "covers ''*'' ''users.read''" by (rule covers.everything)
  moreover note has_permission_correct [of sample_cache ?w 1 "''users.read''" "fst ?run" "snd ?run"]
  ultimately show ?thesis by force
qed

text \<open>
  C8: no operation of a grant hands out more than the actor has. Whatever calls fail, after a
  grant every permission a user holds was held by that user before, or, for the user named in the
  grant, was held by the actor.
\<close>

theorem grant_no_escalation:
  assumes "run_state (grant pc actor uid pid) w = (r, w')" and "db_wf (db w)"
    and "\<exists>g\<in>granted w' v. covers g code"
  shows "(\<exists>g\<in>granted w v. covers g code) \<or> v = uid \<and> (\<exists>g\<in>granted w actor. covers g code)"
  using grant_effect [OF assms(1,2)] assms(3) by (auto split: if_splits) (blast intro: covers_trans)+

theorem grant_no_escalation_witness:
  "(\<exists>g\<in>granted sample_world 2. covers g ''users.read'') \<or>
     (3::int) = 3 \<and> (\<exists>g\<in>granted sample_world 2. covers g ''users.read'')"
proof -
  let ?run = "run_state (grant sample_cache 2 3 2) sample_world"
  have "''users.read'' \<in> granted (snd ?run) 3"
    by (simp add: service_eval sample_defs granted_def)
  then have "\<exists>g\<in>granted (snd ?run) 3. covers g ''users.read''" by (auto simp: covers_iff)
  then show ?thesis
    using grant_no_escalation [of sample_cache 2 3 2 sample_world "fst ?run" "snd ?run" 3 "''users.read''"]
    by (simp add: sample_db_wf sample_granted)
qed

text \<open>
  C23: while Redis works, a grant and a revocation are in force from the next check on. After one
  that answered without error, every coherent entry is still coherent and that of the user is
  gone, so a check of the user answers by the codes the change left.
\<close>

theorem change_in_force:
  assumes "run_state (revoke pc actor uid pid) w = (Inr (), w')" and "redis_faults w = []"
    and "run_state (has_permission pc uid code) w' = (Inr b, w'')" and "db_wf (db w)"
  shows "\<exists>p\<in>set (permissions (db w)). p_id p = pid \<and> (b \<longleftrightarrow> (\<exists>g\<in>granted w uid - {p_code p}. covers g code))"
proof -
  have "coherent pc w' uid"
    using change_cached(2) [of pc actor uid pid w "Inr ()" w'] assms(1,2) by (simp add: coherent_def)
  with assms(3) have b: "b \<longleftrightarrow> (\<exists>g\<in>granted w' uid. covers g code)"
    unfolding has_permission_reads using read_answer [of pc uid w']
    by (auto simp: match_permission_covers split: prod.splits sum.splits)
  from revoke_effect [OF assms(1,4)] obtain p where "p \<in> set (permissions (db w))" "p_id p = pid"
    "granted w' = (granted w)(uid := granted w uid - {p_code p})" by auto
  with b show ?thesis by auto
qed

theorem change_in_force_witness:
  "fst (run_state (has_permission sample_cache 2 ''users.read'')
     (snd (run_state (revoke sample_cache 1 2 2) sample_world))) = Inr False"
proof -
  let ?run = "run_state (revoke sample_cache 1 2 2) sample_world"
  let ?chk = "run_state (has_permission sample_cache 2 ''users.read'') (snd ?run)"
  have ok: "fst ?run = Inr ()" "redis_faults sample_world = []" "is_inr (fst ?chk)"
    by (simp_all add: service_eval sample_defs is_inr_def)
  then obtain b where b: "fst ?chk = Inr b" by (auto simp: is_inr_def split: sum.splits)
  then have "\<not> b"
    using change_in_force [of sample_cache 1 2 2 sample_world "snd ?run" "''users.read''" b "snd ?chk"] ok
    by (simp add: prod_eq_iff sample_db_wf sample_granted) (simp add: sample_defs)
  with b show ?thesis by simp
qed

text \<open>
  A revocation whose invalidation does not reach Redis reports success and does not take
  effect: the user still passes the check from the cache.
\<close>

theorem revoke_without_redis:
  "let w1 = snd (run_state (has_permission sample_cache 2 ''users.read'') sample_world);
       (r, w2) = run_state (revoke sample_cache 1 2 2) (w1\<lparr>redis_faults := [Fails]\<rparr>)
   in r = Inr () \<and> granted w2 2 = {} \<and>
      fst (run_state (has_permission sample_cache 2 ''users.read'') w2) = Inr True"
  by (simp add: service_eval sample_defs granted_def)

text \<open>
  The wildcard cannot be brought back. When no user holds \<open>*\<close>, no grant gives it to one,
  whoever asks and whatever fails: a revocation that takes it from the last holder is final for
  the API.
\<close>

theorem star_lost:
  assumes "run_state (grant pc actor uid pid) w = (r, w')" and "db_wf (db w)"
    and "\<And>u. ''*'' \<notin> granted w u"
  shows "''*'' \<notin> granted w' v"
proof
  assume star: "''*'' \<in> granted w' v"
  from grant_effect [OF assms(1,2)] show False
  proof (elim disjE bexE conjE)
    assume "granted w' = granted w"
    with star assms(3) show False by simp
  next
    fix p g
    assume g: "g \<in> granted w actor" "covers g (p_code p)"
      and w': "granted w' = (granted w)(uid := insert (p_code p) (granted w uid))"
    from star assms(3) have "p_code p = ''*''" unfolding w' by (auto split: if_splits)
    with g assms(3) show False using covers_star by metis
  qed
qed

theorem star_lost_witness:
  "''*'' \<notin> granted (snd (run_state (grant sample_cache 1 1 1)
     (snd (run_state (revoke sample_cache 1 1 1) sample_world)))) 1"
proof -
  let ?w = "snd (run_state (revoke sample_cache 1 1 1) sample_world)"
  let ?run = "run_state (grant sample_cache 1 1 1) ?w"
  have "db_wf (db ?w)"
    by (rule wf_after [OF evolves_permission_service(7)]) (simp add: sample_db_wf)
  moreover have "''*'' \<notin> granted ?w u" for u
    by (auto simp: service_eval sample_defs granted_def)
  ultimately show ?thesis
    using star_lost [of sample_cache 1 1 1 ?w "fst ?run" "snd ?run" 1] by simp
qed

lemma delete_cases:
  assumes "run_state (delete_permission actor pid) w = (r, w')"
  obtains (refused) e where "r = Inl e" "quiet w w'"
  | (deleting) q w2 x w3 where "q \<in> set (permissions (db w))" "p_id q = pid"
      "\<not> is_protected_permission_code (p_code q)" "assignments (db w) pid = 0" "db w2 = db w"
      "run_state (db_call (q_permission_delete pid)) w2 = (x, w3)" "only_audit (db w3) (db w')"
  using assms unfolding delete_permission_def
proof (cases rule: try_bindE)
  case (stop e)
  then show thesis using refused quietD [OF quiet_repository(8)] by blast
next
  case (go q w1)
  note q1 = quietD [OF quiet_repository(8) go(1)]
  have q: "q \<in> set (permissions (db w))" "p_id q = pid"
    using permission_by_id_Inr [OF go(1)] by (auto dest: find_Some_member)
  show thesis
  proof (cases "is_protected_permission_code (p_code q)")
    case True
    then show thesis using go(2) refused [of ErrProtectedPermission] q1 by simp
  next
    case unprot: False
    then have "run_state (try_bind (permission_repo_count_assignments pid) (\<lambda>count.
         if 0 < count then State_Monad.return (Inl ErrPermissionInUse)
         else try_bind (permission_repo_delete pid) (\<lambda>_. do {
           _ \<leftarrow> audit_service_log (Some actor) ''permission.deleted'' ''permission'' (Some pid)
                 (Some (code_data (p_code q) (p_description q))) None;
           State_Monad.return (Inr ())
         }))) w1 = (r, w')" using go(2) by (simp del: run_try_bind)
    then show thesis
    proof (cases rule: try_bindE)
      case (stop e)
      then show thesis using refused quietD [OF quiet_repository(10)] q1 quiet.step_trans by blast
    next
      case (go n w2)
      note q2 = quietD [OF quiet_repository(10) go(1)]
      have n: "n = assignments (db w) pid" using count_assignments_Inr [OF go(1)] q1 by (simp add: quiet_def)
      show thesis
      proof (cases "0 < n")
        case True
        then show thesis using go(2) refused [of ErrPermissionInUse] q1 q2 quiet.step_trans by fastforce
      next
        case False
        then have n0: "assignments (db w) pid = 0" using n by (simp add: assignments_def)
        obtain x w3 where del: "run_state (permission_repo_delete pid) w2 = (x, w3)"
          by (cases "run_state (permission_repo_delete pid) w2")
        have "only_audit (db w3) (db w')"
          using go(2) False del only_auditD [OF only_audit_log(1)]
          by (auto simp: oa.Q_refl split: prod.splits sum.splits)
        then show thesis using deleting [OF q unprot n0, of w2 x w3] q1 q2 del
          by (simp add: quiet_def permission_repo_delete_def)
      qed
    qed
  qed
qed

lemma delete_effect:
  assumes run: "run_state (delete_permission actor pid) w = (r, w')"
  shows "granted w' = granted w \<and> (permissions (db w') = permissions (db w) \<or>
    (\<exists>q\<in>set (permissions (db w)). p_id q = pid \<and> \<not> is_protected_permission_code (p_code q) \<and>
       assignments (db w) pid = 0 \<and> permissions (db w') = filter (\<lambda>p. p_id p \<noteq> pid) (permissions (db w))))"
  using run
proof (cases rule: delete_cases)
  case (refused e)
  then have "granted w' = granted w" "db w' = db w" by (simp_all add: granted_quiet, simp add: quiet_def)
  then show ?thesis by simp
next
  case (deleting q w2 x w3)
  have none: "filter (\<lambda>g. up_permission_id g \<noteq> pid) (user_permissions (db w)) = user_permissions (db w)"
    using deleting(4) by (simp add: assignments_def filter_id_conv filter_empty_conv)
  have db3: "db w3 = db w \<or> db w3 = (db w)\<lparr>permissions := filter (\<lambda>p. p_id p \<noteq> pid) (permissions (db w))\<rparr>"
    using run_db_call(6) [OF deleting(6)] deleting(5) none by (auto simp: q_permission_delete_def)
  have "set (codes_of (db w3) u) = set (codes_of (db w) u)" for u
    using deleting(4) db3 by (fastforce simp: codes_set assignments_def filter_empty_conv)
  then have "granted w' = granted w"
    using deleting(7) by (simp add: granted_def only_audit_reads fun_eq_iff)
  moreover have "permissions (db w') = permissions (db w3)" using deleting(7) by (simp add: only_audit_def)
  ultimately show ?thesis using deleting(1-4) db3 by auto
qed

text \<open>
  C33: a permission that is deleted is not protected and nobody holds it, so that no user loses a
  code by it, whatever calls fail.
\<close>

theorem delete_permission_safe:
  assumes run: "run_state (delete_permission actor pid) w = (r, w')"
    and p: "p \<in> set (permissions (db w))" "p \<notin> set (permissions (db w'))" and wf: "db_wf (db w)"
  shows "p_id p = pid \<and> \<not> is_protected_permission_code (p_code p) \<and> assignments (db w) pid = 0 \<and>
    granted w' = granted w"
proof -
  from delete_effect [OF run] p obtain q where q: "q \<in> set (permissions (db w))" "p_id q = pid"
      "\<not> is_protected_permission_code (p_code q)" "assignments (db w) pid = 0" "granted w' = granted w"
      "permissions (db w') = filter (\<lambda>p. p_id p \<noteq> pid) (permissions (db w))"
    by auto
  then have "p_id p = pid" using p by auto
  moreover have "p = q"
    using wf p(1) q(1,2) \<open>p_id p = pid\<close> by (auto simp: wf_defs ids_ok_def distinct_map dest: inj_onD)
  ultimately show ?thesis using q by simp
qed

theorem delete_permission_safe_witness:
  "p_id \<lparr>p_id = 3, p_code = ''audit.read'', p_description = [], p_created_at = 0\<rparr> = 3 \<and>
   \<not> is_protected_permission_code ''audit.read'' \<and> assignments sample_db 3 = 0 \<and>
   granted (snd (run_state (delete_permission 1 3) sample_world)) = granted sample_world"
proof -
  let ?run = "run_state (delete_permission 1 3) sample_world"
  let ?p = "\<lparr>p_id = 3, p_code = ''audit.read'', p_description = [], p_created_at = 0\<rparr>"
  have "?p \<in> set (permissions (db sample_world))" "?p \<notin> set (permissions (db (snd ?run)))"
    by (simp_all add: service_eval sample_defs is_protected_permission_code_def)
  then show ?thesis
    using delete_permission_safe [of 1 3 sample_world "fst ?run" "snd ?run" ?p] by (simp add: sample_db_wf)
qed

lemma create_cases:
  assumes "run_state (create_permission actor code description) w = (r, w')"
  obtains (refused) e where "r = Inl e" "quiet w w'"
  | (insert) w1 where "quiet w w1" "validate_permission_code (trim_space code) = Inr ()"
      "trim_space code \<notin> p_code ` set (permissions (db w))"
      "run_state (try_bind (permission_repo_create \<lparr>p_id = 0, p_code = trim_space code,
            p_description = trim_space description, p_created_at = 0\<rparr>) (\<lambda>perm. do {
         _ \<leftarrow> audit_service_log (Some actor) ''permission.created'' ''permission'' (Some (p_id perm))
               None (Some (code_data (p_code perm) (p_description perm)));
         State_Monad.return (Inr perm) })) w1 = (r, w')"
proof (cases "validate_permission_code (trim_space code)")
  case (Inl e)
  with assms refused [of e] show thesis by (simp add: create_permission_def quiet.step_refl)
next
  case (Inr u)
  obtain x w1 where find: "run_state (permission_repo_find_by_code (trim_space code)) w = (x, w1)"
    by (cases "run_state (permission_repo_find_by_code (trim_space code)) w")
  have q: "quiet w w1" by (rule quietD [OF quiet_repository(7) find])
  show thesis
  proof (cases "x = Inl ErrNotFound")
    case True
    then have "trim_space code \<notin> p_code ` set (permissions (db w))"
      using permission_by_code_none find by blast
    then show thesis
      using insert [OF q] assms find Inr True
      by (simp add: create_permission_def Let_def del: run_try_bind)
  next
    case False
    with assms find Inr q show thesis
      by (cases x) (auto simp: create_permission_def Let_def intro: refused)
  qed
qed

text \<open>
  C34: a permission that is created has the trimmed code, which passed the validation and was not
  taken, and the next identity; it is added to the catalogue and given to nobody.
\<close>

theorem create_permission_spec:
  assumes run: "run_state (create_permission actor code description) w = (r, w')" and wf: "db_wf (db w)"
  shows "granted w' = granted w \<and>
    (\<forall>p. r = Inr p \<longrightarrow> p_code p = trim_space code \<and> validate_permission_code (p_code p) = Inr () \<and>
       p_code p \<notin> p_code ` set (permissions (db w)) \<and> p_id p = next_permission_id (db w) \<and>
       permissions (db w') = permissions (db w) @ [p])"
  using run
proof (cases rule: create_cases)
  case (refused e)
  then show ?thesis by (simp add: granted_quiet)
next
  case (insert w1)
  define p where "p = \<lparr>p_id = 0, p_code = trim_space code, p_description = trim_space description, p_created_at = 0\<rparr>"
  have db1: "db w1 = db w" using insert(1) by (simp add: quiet_def)
  obtain x w2 where ins: "run_state (db_call (q_permission_create p)) w1 = (x, w2)"
    and oa: "only_audit (db w2) (db w')"
    and r: "r = x"
    using insert(4) run_respects [OF only_audit_log(1)]
    by (auto simp: permission_repo_create_def p_def on_db_def oa.Q_refl split: prod.splits sum.splits)
  define row where "row = p\<lparr>p_id := next_permission_id (db w), p_created_at := clock w2\<rparr>"
  have new: "snd (q_permission_create p (clock w2) (db w)) =
      (db w)\<lparr>next_permission_id := next_permission_id (db w) + 1, permissions := permissions (db w) @ [row]\<rparr>"
    and ans: "fst (q_permission_create p (clock w2) (db w)) = Inr row"
    using insert(3) by (simp_all add: q_permission_create_def p_def row_def Let_def)
  have "next_permission_id (db w) \<notin> up_permission_id ` set (user_permissions (db w))"
    using wf by (force simp: wf_defs ids_ok_def)
  then have codes: "set (codes_of (snd (q_permission_create p (clock w2) (db w))) u) = set (codes_of (db w) u)" for u
    unfolding new codes_set by (force simp: row_def)
  have "db w2 = db w \<or> db w2 = snd (q_permission_create p (clock w2) (db w))"
    using run_db_call(6) [OF ins] db1 by auto
  with codes oa have "granted w' = granted w"
    by (auto simp: granted_def only_audit_reads fun_eq_iff)
  moreover have "p_code row = trim_space code" "p_id row = next_permission_id (db w)"
    by (simp_all add: row_def p_def)
  moreover have "x = Inr p' \<Longrightarrow> p' = row \<and> permissions (db w') = permissions (db w) @ [row]" for p'
    using db_call_Inr [of "q_permission_create p" w1 p' w2] ins oa db1 new ans by (auto simp: only_audit_def)
  ultimately show ?thesis using insert(2,3) r by (metis)
qed

theorem create_permission_spec_witness:
  "\<exists>p w'. run_state (create_permission 1 '' reports.read '' []) sample_world = (Inr p, w') \<and>
     p_code p = ''reports.read'' \<and> granted w' = granted sample_world"
proof -
  let ?run = "run_state (create_permission 1 '' reports.read '' []) sample_world"
  have t: "trim_space '' reports.read '' = ''reports.read''"
    "validate_permission_code ''reports.read'' = Inr ()" by code_simp+
  then have "is_inr (fst ?run)"
    by (simp add: service_eval sample_defs is_inr_def)
  then obtain p where "fst ?run = Inr p" by (auto simp: is_inr_def split: sum.splits)
  with t show ?thesis
    using create_permission_spec [of 1 "'' reports.read ''" "[]" sample_world "fst ?run" "snd ?run"]
    by (auto simp: sample_db_wf prod_eq_iff)
qed

end
