(* ===== verification/Rate_Limit.thy ===== *)
theory Rate_Limit
  imports Redis
begin

text \<open>
  The tiered rate limiter of the login (\<open>backend/cache/tiered_ratelimit.go\<close>), with the default
  tiers of \<open>backend/internal/app/app.go\<close>.
\<close>

section \<open>Definitions\<close>

record rate_tier =
  tier_threshold :: int
  tier_block :: int

record tiered_limiter =
  tl_prefix :: string
  tl_tiers :: "rate_tier list"
  tl_counter_ttl :: int

abbreviation second :: int where "second \<equiv> 1000000"
abbreviation minute :: int where "minute \<equiv> 60 * second"
abbreviation hour :: int where "hour \<equiv> 60 * minute"

definition default_login_rate_tiers :: "rate_tier list" where
  "default_login_rate_tiers =
     [\<lparr>tier_threshold = 5, tier_block = minute\<rparr>,
      \<lparr>tier_threshold = 10, tier_block = 15 * minute\<rparr>,
      \<lparr>tier_threshold = 20, tier_block = 24 * hour\<rparr>]"

definition max_tier_threshold :: "tiered_limiter \<Rightarrow> int" where
  "max_tier_threshold l =
     fold (\<lambda>tier m. if m < tier_threshold tier then tier_threshold tier else m) (tl_tiers l) 0"

definition block_duration :: "tiered_limiter \<Rightarrow> int \<Rightarrow> int" where
  "block_duration l count =
     fold (\<lambda>tier block. if tier_threshold tier \<le> count \<and> block < tier_block tier
                        then tier_block tier else block) (tl_tiers l) 0"

text \<open>
  \<open>Check\<close> answers \<open>(blocked, retryAfter, count)\<close>. The error of \<open>Expire\<close> and the error of the
  \<open>Get\<close> of a blocked key are dropped, as in the source.
\<close>

definition check :: "tiered_limiter \<Rightarrow> (int \<Rightarrow> int) \<Rightarrow> string \<Rightarrow> (world, err + bool \<times> int \<times> int) state" where
  "check l ttl_reply key =
     (let full_key = client_key (tl_prefix l) key;
          block_key = client_key (tl_prefix l) (key @ '':block'')
      in try_bind (rdb_ttl ttl_reply block_key) (\<lambda>ttl.
         if 0 < ttl then do {
           stored \<leftarrow> rdb_get_int full_key;
           State_Monad.return (Inr (True, ttl, case stored of Inl _ \<Rightarrow> 0 | Inr n \<Rightarrow> n))
         }
         else try_bind (rdb_incr full_key) (\<lambda>count. do {
           _ \<leftarrow> (if count = 1 then rdb_expire full_key (tl_counter_ttl l) else State_Monad.return (Inr ()));
           (let block = block_duration l count
            in if 0 < block then
                 try_bind (rdb_set block_key (RInt 1) block) (\<lambda>_.
                   State_Monad.return (Inr (True, block, count)))
               else State_Monad.return (Inr (False, 0, count)))
         })))"

definition reset :: "tiered_limiter \<Rightarrow> string \<Rightarrow> (world, err + unit) state" where
  "reset l key =
     rdb_del [client_key (tl_prefix l) key, client_key (tl_prefix l) (key @ '':block'')]"

definition login_ip_key :: "string \<Rightarrow> string" where
  "login_ip_key ip = ''login:ip:'' @ ip"

definition login_email_key :: "string \<Rightarrow> string" where
  "login_email_key email = ''login:email:'' @ email"

section \<open>Tiers\<close>

lemma fold_max_ge:
  fixes f :: "'a \<Rightarrow> int"
  shows "m \<le> fold (\<lambda>x m. if P x \<and> m < f x then f x else m) xs m"
  by (induction xs arbitrary: m) (auto intro: order_trans less_imp_le)

lemma fold_max_member:
  fixes f :: "'a \<Rightarrow> int"
  shows "x \<in> set xs \<Longrightarrow> P x \<Longrightarrow> f x \<le> fold (\<lambda>x m. if P x \<and> m < f x then f x else m) xs m"
proof (induction xs arbitrary: m)
  case (Cons y ys)
  then show ?case
  proof (cases "x = y")
    case True
    have "f y \<le> (if P y \<and> m < f y then f y else m)" using Cons.prems(2) True by simp
    also have "\<dots> \<le> fold (\<lambda>x m. if P x \<and> m < f x then f x else m) (y # ys) m"
      by (simp add: fold_max_ge)
    finally show ?thesis using True by simp
  qed simp
qed simp

lemma fold_max_attained:
  fixes f :: "'a \<Rightarrow> int"
  shows "fold (\<lambda>x m. if P x \<and> m < f x then f x else m) xs m = m \<or>
    (\<exists>x\<in>set xs. P x \<and> fold (\<lambda>x m. if P x \<and> m < f x then f x else m) xs m = f x)"
    (is "?F xs m = m \<or> _")
proof (induction xs arbitrary: m)
  case (Cons y ys)
  from Cons [of "if P y \<and> m < f y then f y else m"] show ?case by (auto split: if_splits)
qed simp

lemma block_duration_nonneg: "0 \<le> block_duration l count"
  unfolding block_duration_def by (rule fold_max_ge)

lemma block_duration_ge:
  "t \<in> set (tl_tiers l) \<Longrightarrow> tier_threshold t \<le> count \<Longrightarrow> tier_block t \<le> block_duration l count"
  unfolding block_duration_def by (rule fold_max_member)

lemma block_duration_attained:
  "block_duration l count = 0 \<or>
     (\<exists>t\<in>set (tl_tiers l). tier_threshold t \<le> count \<and> block_duration l count = tier_block t)"
  unfolding block_duration_def by (rule fold_max_attained)

lemma block_duration_mono: "a \<le> b \<Longrightarrow> block_duration l a \<le> block_duration l b"
  using block_duration_attained [of l a] block_duration_nonneg [of l b] block_duration_ge
  by (metis order_trans)

lemma max_tier_threshold_ge: "t \<in> set (tl_tiers l) \<Longrightarrow> tier_threshold t \<le> max_tier_threshold l"
  using fold_max_member [of t "tl_tiers l" "\<lambda>_. True" tier_threshold]
  by (simp add: max_tier_threshold_def)

section \<open>The life of a counter\<close>

text \<open>
  \<open>tallied l key base end_of m w\<close>: within the window from \<open>base\<close> to \<open>end_of\<close>, the counter of
  \<open>key\<close> has counted at least the \<open>m\<close> attempts that were let through, will outlive the window,
  and the last of them stayed below the threshold \<open>thr\<close>.
\<close>

definition tallied ::
  "tiered_limiter \<Rightarrow> string \<Rightarrow> int \<Rightarrow> int \<Rightarrow> int \<Rightarrow> int \<Rightarrow> world \<Rightarrow> bool" where
  "tallied l key thr base end_of m w \<longleftrightarrow>
     base \<le> clock w \<and>
     (end_of \<le> clock w \<or>
      ((m = 0 \<or> (0 < m \<and> m < thr)) \<and>
       (case lookup (clock w) (redis w) (client_key (tl_prefix l) key) of
          None \<Rightarrow> m = 0 \<and> end_of \<le> base + in_seconds (tl_counter_ttl l)
        | Some e \<Rightarrow> (\<exists>n. re_value e = RInt n \<and> m \<le> n \<and> (n = 0 \<longrightarrow> end_of \<le> base + in_seconds (tl_counter_ttl l))) \<and>
            (\<forall>t. re_expires e = Some t \<longrightarrow> end_of \<le> t))))"

lemma block_key_other [simp]:
  "client_key pre (key @ '':block'') \<noteq> client_key pre key"
  "client_key pre key \<noteq> client_key pre (key @ '':block'')"
  by simp_all

lemma tallied_elapse:
  assumes "tallied l key thr base end_of m w" and "clock w \<le> clock w'"
    and "\<And>now. clock w' \<le> now \<Longrightarrow> lookup now (redis w') (client_key (tl_prefix l) key) =
      lookup now (redis w) (client_key (tl_prefix l) key)"
  shows "tallied l key thr base end_of m w'"
proof (cases "end_of \<le> clock w'")
  case True
  with assms(1,2) show ?thesis by (simp add: tallied_def)
next
  case False
  let ?K = "client_key (tl_prefix l) key"
  have "lookup (clock w') (redis w') ?K = (case lookup (clock w) (redis w) ?K of None \<Rightarrow> None
      | Some e \<Rightarrow> (case re_expires e of None \<Rightarrow> Some e
          | Some t \<Rightarrow> if clock w' < t then Some e else None))"
    using assms(3) [of "clock w'"] rs.look_later [OF assms(2)] by simp
  with assms(1,2) False show ?thesis
    by (auto simp: tallied_def split: option.splits)
qed

text \<open>A command that leaves the counter's key alone keeps the tally.\<close>

lemma tallied_other:
  assumes "\<And>now st later. lookup later (snd (f now st)) (client_key (tl_prefix l) key) =
      lookup later st (client_key (tl_prefix l) key)"
  shows "triple (tallied l key thr base end_of m) (redis_call f) (\<lambda>_. tallied l key thr base end_of m)"
proof (rule tripleI)
  fix w r w'
  assume t: "tallied l key thr base end_of m w" and run: "run_state (redis_call f) w = (r, w')"
  show "tallied l key thr base end_of m w'"
    using run_redis_call(6) [OF run] assms
    by (intro tallied_elapse [OF t run_redis_call_clock [OF run]]) auto
qed

lemma tallied_ttl [triple]:
  "triple (tallied l key thr base end_of m) (rdb_ttl f k) (\<lambda>_. tallied l key thr base end_of m)"
  unfolding rdb_ttl_def by (rule tallied_other) (simp add: ttl_cmd_def)

lemma tallied_get_int [triple]:
  "triple (tallied l key thr base end_of m) (rdb_get_int k) (\<lambda>_. tallied l key thr base end_of m)"
  unfolding rdb_get_int_def by (rule tallied_other) (simp add: get_int_cmd_def)

lemma tallied_set_block [triple]:
  "triple (tallied l key thr base end_of m)
     (rdb_set (client_key (tl_prefix l) (key @ '':block'')) v d)
     (\<lambda>_. tallied l key thr base end_of m)"
  unfolding rdb_set_def by (rule tallied_other) (simp add: set_cmd_def)

text \<open>\<open>INCR\<close> counts one more; the tally after it is ready for one more attempt let through.\<close>

definition counted :: "tiered_limiter \<Rightarrow> string \<Rightarrow> int \<Rightarrow> int \<Rightarrow> int \<Rightarrow> int \<Rightarrow> int \<Rightarrow> world \<Rightarrow> bool" where
  "counted l key thr base end_of m c w \<longleftrightarrow>
     base \<le> clock w \<and>
     (end_of \<le> clock w \<or>
      ((m = 0 \<or> (0 < m \<and> m < thr)) \<and> m < c \<and> (c = 1 \<longrightarrow> end_of \<le> base + in_seconds (tl_counter_ttl l)) \<and>
       (\<exists>e. lookup (clock w) (redis w) (client_key (tl_prefix l) key) = Some e \<and>
          re_value e = RInt c \<and> (\<forall>t. re_expires e = Some t \<longrightarrow> end_of \<le> t))))"

lemma counted_elapse:
  assumes "counted l key thr base end_of m c w" and "clock w \<le> clock w'"
    and "\<And>now. clock w' \<le> now \<Longrightarrow> lookup now (redis w') (client_key (tl_prefix l) key) =
      lookup now (redis w) (client_key (tl_prefix l) key)"
  shows "counted l key thr base end_of m c w'"
proof (cases "end_of \<le> clock w'")
  case True
  with assms(1,2) show ?thesis by (simp add: counted_def)
next
  case False
  let ?K = "client_key (tl_prefix l) key"
  from False assms(1,2) obtain e where
    e: "lookup (clock w) (redis w) ?K = Some e" "re_value e = RInt c"
      "\<And>t. re_expires e = Some t \<Longrightarrow> end_of \<le> t"
    by (auto simp: counted_def)
  have "lookup (clock w') (redis w') ?K = Some e"
    using assms(3) [of "clock w'"] rs.look_kept_later [OF e(1) assms(2)] e(3) False by force
  with assms(1,2) e(2,3) False show ?thesis by (auto simp: counted_def)
qed

lemma counted_set_block [triple]:
  "triple (counted l key thr base end_of m c)
     (rdb_set (client_key (tl_prefix l) (key @ '':block'')) v d)
     (\<lambda>_. counted l key thr base end_of m c)"
proof (rule tripleI)
  fix w r w'
  assume t: "counted l key thr base end_of m c w"
    and run: "run_state (rdb_set (client_key (tl_prefix l) (key @ '':block'')) v d) w = (r, w')"
  note run = run [unfolded rdb_set_def]
  show "counted l key thr base end_of m c w'"
    using run_redis_call(6) [OF run]
    by (intro counted_elapse [OF t run_redis_call_clock [OF run]]) (auto simp: set_cmd_def)
qed

lemma counted_tallied: "counted l key thr base end_of m c w \<Longrightarrow> tallied l key thr base end_of m w"
  by (auto simp: counted_def tallied_def)

lemma counted_through:
  "counted l key thr base end_of m c w \<Longrightarrow> c < thr \<Longrightarrow> tallied l key thr base end_of (m + 1) w"
  by (auto simp: counted_def tallied_def)

lemma tallied_incr [triple]:
  "triple (tallied l key thr base end_of m) (rdb_incr (client_key (tl_prefix l) key))
     (\<lambda>r. case r of Inl _ \<Rightarrow> tallied l key thr base end_of m
                  | Inr c \<Rightarrow> counted l key thr base end_of m c)"
proof (rule tripleI)
  fix w r w'
  let ?K = "client_key (tl_prefix l) key"
  assume t: "tallied l key thr base end_of m w" and run: "run_state (rdb_incr ?K) w = (r, w')"
  note run = run [unfolded rdb_incr_def] and later = run_redis_call_clock [OF run]
  define v where "v = w\<lparr>clock := clock w'\<rparr>"
  have v: "tallied l key thr base end_of m v"
    by (rule tallied_elapse [OF t]) (simp_all add: v_def later)
  have effect: "case fst (incr_cmd ?K (clock v) (redis v)) of
      Inl _ \<Rightarrow> tallied l key thr base end_of m (v\<lparr>redis := snd (incr_cmd ?K (clock v) (redis v))\<rparr>)
    | Inr c \<Rightarrow> counted l key thr base end_of m c (v\<lparr>redis := snd (incr_cmd ?K (clock v) (redis v))\<rparr>)"
    using v rs.look_alive [of "clock v" "redis v" ?K]
    by (auto simp: tallied_def counted_def incr_cmd_def split: option.splits redis_value.splits)
  then have lost: "tallied l key thr base end_of m (v\<lparr>redis := snd (incr_cmd ?K (clock v) (redis v))\<rparr>)"
    by (auto split: sum.splits dest: counted_tallied)
  have same: "tallied l key thr base end_of m w' = tallied l key thr base end_of m (v\<lparr>redis := redis w'\<rparr>)"
    "counted l key thr base end_of m c w' = counted l key thr base end_of m c (v\<lparr>redis := redis w'\<rparr>)" for c
    by (simp_all add: tallied_def counted_def v_def)
  show "(case r of Inl _ \<Rightarrow> tallied l key thr base end_of m
      | Inr c \<Rightarrow> counted l key thr base end_of m c) w'"
    using run_redis_call(6) [OF run] effect lost v
    by (auto simp: same v_def split: sum.splits)
qed

lemma counted_expire [triple]:
  "triple (counted l key thr base end_of m 1) (rdb_expire (client_key (tl_prefix l) key) (tl_counter_ttl l))
     (\<lambda>_. counted l key thr base end_of m 1)"
proof (rule tripleI)
  fix w r w'
  let ?K = "client_key (tl_prefix l) key"
  assume t: "counted l key thr base end_of m 1 w"
    and run: "run_state (rdb_expire ?K (tl_counter_ttl l)) w = (r, w')"
  note run = run [unfolded rdb_expire_def] and later = run_redis_call_clock [OF run]
  define v where "v = w\<lparr>clock := clock w'\<rparr>"
  have v: "counted l key thr base end_of m 1 v"
    by (rule counted_elapse [OF t]) (simp_all add: v_def later)
  have "counted l key thr base end_of m 1
      (v\<lparr>redis := snd (expire_cmd ?K (in_seconds (tl_counter_ttl l)) (clock v) (redis v))\<rparr>)"
    using v in_units_positive [of second "tl_counter_ttl l"] by (auto simp: counted_def expire_cmd_def simp del: in_seconds_sign)
  moreover have "counted l key thr base end_of m 1 w' =
      counted l key thr base end_of m 1 (v\<lparr>redis := redis w'\<rparr>)"
    by (simp add: counted_def v_def)
  ultimately show "counted l key thr base end_of m 1 w'"
    using run_redis_call(6) [OF run] v by (auto simp: v_def)
qed

section \<open>Sequences of attempts\<close>

definition let_through :: "err + bool \<times> int \<times> int \<Rightarrow> bool" where
  "let_through r = (case r of Inl _ \<Rightarrow> False | Inr (blocked, _, _) \<Rightarrow> \<not> blocked)"

lemma let_through_simps [simp]:
  "\<not> let_through (Inl e)" "let_through (Inr (b, ra, c)) = (\<not> b)"
  by (simp_all add: let_through_def)

fun attempts :: "nat \<Rightarrow> tiered_limiter \<Rightarrow> (int \<Rightarrow> int) \<Rightarrow> string \<Rightarrow>
    (world, (err + bool \<times> int \<times> int) list) state" where
  "attempts 0 l ttl_reply key = State_Monad.return []"
| "attempts (Suc n) l ttl_reply key = do {
     r \<leftarrow> check l ttl_reply key;
     rs \<leftarrow> attempts n l ttl_reply key;
     State_Monad.return (r # rs)
   }"

lemma tallied_check:
  assumes "t \<in> set (tl_tiers l)" and "0 < tier_block t"
  shows "triple (tallied l key (tier_threshold t) base end_of m) (check l ttl_reply key)
    (\<lambda>r. tallied l key (tier_threshold t) base end_of (m + (if let_through r then 1 else 0)))"
proof -
  let ?T = "tallied l key (tier_threshold t) base end_of m"
    and ?C = "counted l key (tier_threshold t) base end_of m"
  have below: "c < tier_threshold t" if "\<not> 0 < block_duration l c" for c
    using that assms block_duration_ge [of t l c] by linarith
  have expire: "triple (?C c) (if c = 1 then rdb_expire (client_key (tl_prefix l) key) (tl_counter_ttl l)
      else State_Monad.return (Inr ())) (\<lambda>_. ?C c)" for c
    by (auto intro: triple counted_expire)
  show ?thesis
    unfolding check_def Let_def
    apply (rule triple_try_bind [OF tallied_ttl])
     apply simp
    apply (rule triple_if)
     apply (rule triple_bind [OF tallied_get_int], rule triple_return, simp)
    apply (rule triple_try_bind [OF tallied_incr])
     apply simp
    apply (simp only: sum.case)
    apply (rule triple_bind [OF expire])
    apply (rule triple_if)
     apply (rule triple_try_bind [OF counted_set_block])
      apply (simp add: counted_tallied)
     apply (rule triple_return, simp add: counted_tallied)
    apply (rule triple_return, simp add: counted_through below)
    done
qed

lemma tallied_attempts:
  assumes "t \<in> set (tl_tiers l)" and "0 < tier_block t"
  shows "triple (tallied l key (tier_threshold t) base end_of m) (attempts n l ttl_reply key)
    (\<lambda>rs. tallied l key (tier_threshold t) base end_of (m + int (length (filter let_through rs))))"
proof (induction n arbitrary: m)
  case 0
  show ?case by (simp add: triple_return)
next
  case (Suc n)
  show ?case
    by (simp only: attempts.simps, rule triple_bind [OF tallied_check [OF assms]],
        rule triple_bind [OF Suc], rule triple_return)
      (simp add: add.assoc split: if_splits)
qed

section \<open>Resets and colliding keys\<close>

lemma check_clock: "state_io_rel clock_mono (check l ttl_reply key)"
  unfolding check_def rdb_defs by (intro cm.step_rules respects)

lemma reset_clears:
  assumes "run_state (reset l key) w = (Inr (), w')"
  shows "lookup now (redis w') (client_key (tl_prefix l) key) = None"
    and "lookup now (redis w') (client_key (tl_prefix l) (key @ '':block'')) = None"
  using run_redis_call(6) [OF assms [unfolded reset_def rdb_del_def]]
  by (auto simp: del_cmd_def lookup_def)

lemma check_blocked:
  assumes "redis_faults w = []"
    and "lookup (clock (elapse w)) (redis w) (client_key (tl_prefix l) (key @ '':block'')) = Some e"
    and "re_expires e = Some t" and "0 < ttl_reply (t - clock (elapse w))"
  shows "\<exists>c v. run_state (check l ttl_reply key) w = (Inr (True, ttl_reply (t - clock (elapse w)), c), v)"
  using assms
  by (auto simp: check_def rdb_defs run_redis_call_ok ttl_cmd_def Let_def split: prod.splits)

lemma check_first:
  assumes "redis_faults w = []" and "0 < tl_counter_ttl l"
    and "\<And>now. lookup now (redis w) (client_key (tl_prefix l) key) = None"
    and "\<And>now. lookup now (redis w) (client_key (tl_prefix l) (key @ '':block'')) = None"
    and "run_state (check l ttl_reply key) w = (r, w')"
  shows "redis_faults w' = []" and "clock w \<le> clock w'"
    and "\<exists>t. clock w + in_seconds (tl_counter_ttl l) \<le> t \<and> (\<forall>now.
      lookup now (redis w') (client_key (tl_prefix l) key) =
        (if now < t then Some \<lparr>re_value = RInt 1, re_expires = Some t\<rparr> else None))"
proof -
  let ?t = "clock (elapse (elapse (elapse w))) + in_seconds (tl_counter_ttl l)"
  have mono: "clock w \<le> clock (elapse w)" "clock (elapse w) \<le> clock (elapse (elapse w))"
    "clock (elapse (elapse w)) \<le> clock (elapse (elapse (elapse w)))"
    "clock (elapse (elapse (elapse w))) \<le> clock (elapse (elapse (elapse (elapse w))))"
    by (simp_all add: elapse_clock)
  note run = assms(5) [unfolded check_def Let_def rdb_defs]
  show "redis_faults w' = []" "clock w \<le> clock w'"
    using run mono assms(1-4)
    by (auto simp: run_redis_call_ok ttl_cmd_def incr_cmd_def expire_cmd_def set_cmd_def
        split: if_splits)
  have "\<forall>now. lookup now (redis w') (client_key (tl_prefix l) key) =
      (if now < ?t then Some \<lparr>re_value = RInt 1, re_expires = Some ?t\<rparr> else None)"
    using run mono assms(1-4)
    by (auto simp: run_redis_call_ok ttl_cmd_def incr_cmd_def expire_cmd_def set_cmd_def
        split: if_splits)
  then show "\<exists>t. clock w + in_seconds (tl_counter_ttl l) \<le> t \<and> (\<forall>now.
      lookup now (redis w') (client_key (tl_prefix l) key) =
        (if now < t then Some \<lparr>re_value = RInt 1, re_expires = Some t\<rparr> else None))"
    using mono by (intro exI [of _ ?t]) simp
qed

section \<open>Examples\<close>

definition sample_limiter :: tiered_limiter where
  "sample_limiter = \<lparr>tl_prefix = ''auth:'', tl_tiers = default_login_rate_tiers,
     tl_counter_ttl = 24 * hour\<rparr>"

lemmas rate_eval = attempts.simps check_def reset_def rdb_defs run_redis_call_ok ttl_cmd_def
  get_int_cmd_def incr_cmd_def expire_cmd_def set_cmd_def del_cmd_def lookup_def Let_def
  elapse_def empty_world_def sample_limiter_def block_duration_def default_login_rate_tiers_def
  client_key_def

section \<open>Properties\<close>

text \<open>
  C13: the limiter bounds a brute force. For a key with no counter yet, whatever calls to Redis
  fail and however time passes within the life of the counter, at most \<open>threshold - 1\<close> attempts
  are let through, for every configured tier that blocks. The life of the counter is its TTL in the
  whole seconds that \<open>EXPIRE\<close> is given. Errors count as refusals.
\<close>

theorem brute_force_bound:
  assumes "tier \<in> set (tl_tiers l)" and "0 < tier_block tier" and "1 \<le> tier_threshold tier"
    and "lookup (clock w) (redis w) (client_key (tl_prefix l) key) = None"
    and "run_state (attempts n l ttl_reply key) w = (rs, w')"
    and "clock w' < clock w + in_seconds (tl_counter_ttl l)"
  shows "int (length (filter let_through rs)) < tier_threshold tier"
proof -
  have "tallied l key (tier_threshold tier) (clock w) (clock w' + 1) 0 w"
    using assms(4,6) by (simp add: tallied_def)
  from tripleD [OF tallied_attempts [OF assms(1,2)] this assms(5)] show ?thesis
    using assms(3) by (auto simp: tallied_def)
qed

theorem brute_force_bound_witness:
  "int (length (filter let_through (fst (run_state (attempts (Suc (Suc 0)) sample_limiter id ''login:ip:1'')
     empty_world)))) < 5"
proof -
  let ?run = "run_state (attempts (Suc (Suc 0)) sample_limiter id ''login:ip:1'') empty_world"
  have "clock (snd ?run) = 0" by (simp add: rate_eval)
  then show ?thesis
    using brute_force_bound [of "\<lparr>tier_threshold = 5, tier_block = minute\<rparr>" sample_limiter empty_world
        "''login:ip:1''" "Suc (Suc 0)" id "fst ?run" "snd ?run"]
    by (simp add: sample_limiter_def default_login_rate_tiers_def empty_world_def lookup_def)
qed

text \<open>
  C40: once an attempt more would reach a blocking tier, no attempt is let through until the
  counter itself expires, however short the block of the tier is: after the block has run out the
  next attempt counts again and blocks again.
\<close>

theorem lockout_until_counter_expires:
  assumes "tier \<in> set (tl_tiers l)" and "0 < tier_block tier" and "2 \<le> tier_threshold tier"
    and "lookup (clock w) (redis w) (client_key (tl_prefix l) key) = Some e"
    and "re_value e = RInt k" and "tier_threshold tier - 1 \<le> k"
    and "run_state (attempts n l ttl_reply key) w = (rs, w')"
    and "re_expires e = None \<or> (\<exists>t. re_expires e = Some t \<and> clock w' < t)"
  shows "filter let_through rs = []"
proof -
  have "tallied l key (tier_threshold tier) (clock w) (clock w' + 1) (tier_threshold tier - 1) w"
    using assms(3-6,8) by (auto simp: tallied_def)
  from tripleD [OF tallied_attempts [OF assms(1,2)] this assms(7)] show ?thesis
    using assms(3) by (auto simp: tallied_def)
qed

definition locked_world :: world where
  "locked_world = empty_world\<lparr>redis :=
     [''auth:login:ip:1'' \<mapsto> \<lparr>re_value = RInt 5, re_expires = Some (24 * hour)\<rparr>]\<rparr>"

theorem lockout_until_counter_expires_witness:
  "filter let_through (fst (run_state (attempts (Suc (Suc 0)) sample_limiter id ''login:ip:1'')
     (locked_world\<lparr>ticks := [2 * 60 * 1000000, 0, 0, 0, 120000000]\<rparr>))) = []"
proof -
  let ?w = "locked_world\<lparr>ticks := [2 * 60 * 1000000, 0, 0, 0, 120000000]\<rparr>"
  let ?run = "run_state (attempts (Suc (Suc 0)) sample_limiter id ''login:ip:1'') ?w"
  have "clock (snd ?run) < 24 * hour" by (simp add: rate_eval locked_world_def)
  then show ?thesis
    using lockout_until_counter_expires [of "\<lparr>tier_threshold = 5, tier_block = minute\<rparr>" sample_limiter ?w
        "''login:ip:1''" "\<lparr>re_value = RInt 5, re_expires = Some (24 * hour)\<rparr>" 5 "Suc (Suc 0)" id
        "fst ?run" "snd ?run"]
    by (simp add: sample_limiter_def default_login_rate_tiers_def empty_world_def lookup_def
        locked_world_def client_key_def)
qed

text \<open>
  The block of an attempt grows with the count, and the default tiers give none below 5
  attempts, one minute from 5, 15 minutes from 10 and 24 hours from 20.
\<close>

theorem default_block_durations:
  assumes "tl_tiers l = default_login_rate_tiers"
  shows "block_duration l c =
    (if c < 5 then 0 else if c < 10 then minute else if c < 20 then 15 * minute else 24 * hour)"
  using assms by (simp add: block_duration_def default_login_rate_tiers_def)

theorem default_block_durations_witness:
  "block_duration sample_limiter 12 = 15 * minute"
  using default_block_durations [of sample_limiter 12] by (simp add: sample_limiter_def)

text \<open>
  The key of the block and the key of another counter can be the same. One attempt to log in
  under the address \<open>email:block\<close> makes the next attempt for \<open>email\<close> blocked, as long as the
  counter of the first one lives (a day by default), although nobody tried \<open>email\<close> before.
\<close>

theorem block_key_collision:
  assumes "redis_faults w = []" and "\<forall>left. second \<le> left \<longrightarrow> 0 < ttl_reply left"
    and "redis w (client_key (tl_prefix l) (login_email_key (email @ '':block''))) = None"
    and "redis w (client_key (tl_prefix l) (login_email_key (email @ '':block:block''))) = None"
    and "run_state (check l ttl_reply (login_email_key (email @ '':block''))) w = (r1, w1)"
    and "clock (elapse w1) + second \<le> clock w + in_seconds (tl_counter_ttl l)"
  shows "\<exists>left c v. run_state (check l ttl_reply (login_email_key email)) w1 = (Inr (True, left, c), v)"
proof -
  let ?key = "login_email_key (email @ '':block'')"
  have key: "?key = login_email_key email @ '':block''"
    "?key @ '':block'' = login_email_key (email @ '':block:block'')"
    by (simp_all add: login_email_key_def)
  have later: "clock w1 \<le> clock (elapse w1)" by (rule elapse_clock)
  have "clock w \<le> clock w1"
    using run_respects [OF check_clock assms(5)] by (simp add: clock_mono_def)
  then have "0 < in_seconds (tl_counter_ttl l)" using assms(6) later by linarith
  then have "0 < tl_counter_ttl l" by simp
  then obtain t where t: "clock w + in_seconds (tl_counter_ttl l) \<le> t" "redis_faults w1 = []"
    "\<And>now. lookup now (redis w1) (client_key (tl_prefix l) ?key) =
      (if now < t then Some \<lparr>re_value = RInt 1, re_expires = Some t\<rparr> else None)"
    using check_first [OF assms(1) _ _ _ assms(5)] assms(3,4)
    by (auto simp: lookup_def key(2))
  with assms(6) have "lookup (clock (elapse w1)) (redis w1) (client_key (tl_prefix l) ?key) =
      Some \<lparr>re_value = RInt 1, re_expires = Some t\<rparr>"
    by simp
  moreover have "0 < ttl_reply (t - clock (elapse w1))"
    using assms(2,6) t(1) by simp
  ultimately show ?thesis
    using check_blocked [OF t(2), of l "login_email_key email" "\<lparr>re_value = RInt 1, re_expires = Some t\<rparr>"
        t ttl_reply]
    by (simp add: key(1)) blast
qed

theorem block_key_collision_witness:
  "\<exists>left c v. run_state (check sample_limiter id (login_email_key ''ana@x.io''))
     (snd (run_state (check sample_limiter id (login_email_key ''ana@x.io:block'')) empty_world)) =
     (Inr (True, left, c), v)"
proof -
  let ?run = "run_state (check sample_limiter id (login_email_key ''ana@x.io:block'')) empty_world"
  have "clock (elapse (snd ?run)) = 0" by (simp add: rate_eval login_email_key_def)
  then show ?thesis
    using block_key_collision [of empty_world id sample_limiter "''ana@x.io''" "fst ?run" "snd ?run"]
    by (simp add: empty_world_def sample_limiter_def)
qed

text \<open>
  \<open>Reset\<close> gives a clean slate. After a reset that Redis confirmed, the next attempt on the
  key is counted as the first one and, when no tier blocks a first attempt, is let through.
\<close>

theorem reset_then_first_attempt:
  assumes "run_state (reset l key) w = (Inr (), v)" and "redis_faults v = []"
    and "block_duration l 1 = 0"
  shows "\<exists>v'. run_state (check l ttl_reply key) v = (Inr (False, 0, 1), v')"
proof -
  note gone = reset_clears [OF assms(1)]
  show ?thesis
    using assms(2,3)
    by (simp add: check_def rdb_defs Let_def run_redis_call_ok ttl_cmd_def incr_cmd_def gone)
qed

theorem reset_then_first_attempt_witness:
  "\<exists>v'. run_state (check sample_limiter id ''login:ip:1'')
     (snd (run_state (reset sample_limiter ''login:ip:1'') locked_world)) = (Inr (False, 0, 1), v')"
proof -
  let ?run = "run_state (reset sample_limiter ''login:ip:1'') locked_world"
  have "fst ?run = Inr ()" "redis_faults (snd ?run) = []" "block_duration sample_limiter 1 = 0"
    by (simp_all add: rate_eval locked_world_def)
  then show ?thesis
    using reset_then_first_attempt [of sample_limiter "''login:ip:1''" locked_world "snd ?run" id]
    by (simp add: prod_eq_iff)
qed

end
