(* ===== verification/Base64.thy ===== *)
theory Base64
  imports Go_Strings
begin

text \<open>
  \<open>encoding/base64\<close> without padding, for the standard and the URL alphabet, and
  \<open>encoding/hex\<close>: what the password hashes and the refresh tokens are written in.
\<close>

section \<open>Definitions\<close>

definition std_alphabet :: string where
  "std_alphabet = ''ABCDEFGHIJKLMNOPQRSTUVWXYZabcdefghijklmnopqrstuvwxyz0123456789+/''"

definition url_alphabet :: string where
  "url_alphabet = ''ABCDEFGHIJKLMNOPQRSTUVWXYZabcdefghijklmnopqrstuvwxyz0123456789-_''"

text \<open>The bits of the bytes in groups of six, the last group filled up with zeros.\<close>

fun sextets :: "nat list \<Rightarrow> nat list" where
  "sextets (a # b # c # xs) =
     [a div 4, (a mod 4) * 16 + b div 16, (b mod 16) * 4 + c div 64, c mod 64] @ sextets xs"
| "sextets [a, b] = [a div 4, (a mod 4) * 16 + b div 16, (b mod 16) * 4]"
| "sextets [a] = [a div 4, (a mod 4) * 16]"
| "sextets [] = []"

text \<open>The decoder is not strict: it ignores the bits left over.\<close>

fun octets :: "nat list \<Rightarrow> nat list option" where
  "octets (p # q # r # s # xs) =
     map_option (\<lambda>ys. [p * 4 + q div 16, (q mod 16) * 16 + r div 4, (r mod 4) * 64 + s] @ ys) (octets xs)"
| "octets [p, q, r] = Some [p * 4 + q div 16, (q mod 16) * 16 + r div 4]"
| "octets [p, q] = Some [p * 4 + q div 16]"
| "octets [p] = None"
| "octets [] = Some []"

definition b64_encode :: "string \<Rightarrow> string \<Rightarrow> string" where
  "b64_encode alphabet bs = map (\<lambda>n. alphabet ! n) (sextets (map byte bs))"

definition b64_value :: "string \<Rightarrow> char \<Rightarrow> nat option" where
  "b64_value alphabet c = find (\<lambda>i. alphabet ! i = c) [0..<64]"

text \<open>\<open>DecodeString\<close> skips line breaks; \<open>None\<close> stands for \<open>CorruptInputError\<close>.\<close>

definition b64_decode :: "string \<Rightarrow> string \<Rightarrow> string option" where
  "b64_decode alphabet s =
     (let vs = map (b64_value alphabet) (filter (\<lambda>c. c \<noteq> CHR 0x0A \<and> c \<noteq> CHR 0x0D) s)
      in if None \<in> set vs then None
         else map_option (map char_of) (octets (map the vs)))"

definition hex_lower_digit :: "nat \<Rightarrow> char" where
  "hex_lower_digit n = (if n < 10 then char_of (48 + n) else char_of (87 + n))"

definition hex_encode :: "string \<Rightarrow> string" where
  "hex_encode bs = concat (map (\<lambda>c. [hex_lower_digit (byte c div 16), hex_lower_digit (byte c mod 16)]) bs)"

section \<open>Round trip\<close>

lemma length_alphabets [simp]: "length std_alphabet = 64" "length url_alphabet = 64"
  by (simp_all add: std_alphabet_def url_alphabet_def)

lemma distinct_alphabets: "distinct std_alphabet" "distinct url_alphabet"
  by (simp_all add: std_alphabet_def url_alphabet_def)

lemma sextets_less: "\<forall>b\<in>set bs. b < 256 \<Longrightarrow> \<forall>n\<in>set (sextets bs). n < 64"
  by (induction bs rule: sextets.induct) auto

lemma octets_sextets:
  assumes "\<forall>b\<in>set bs. b < 256"
  shows "octets (sextets bs) = Some bs"
  using assms
proof (induction bs rule: sextets.induct)
  case (1 a b c xs)
  from 1 have "c div 64 < 4" by auto
  then have "(b mod 16 * 4 + c div 64) mod 4 * 64 + c mod 64 = c"
    by (simp add: mod_mult_self3 mult.commute)
  with 1 show ?case by auto
next
  case (2 a b)
  then show ?case by auto
next
  case (3 a)
  then show ?case by auto
qed simp

lemma find_nth:
  assumes "distinct al" and "n < length al"
  shows "find (\<lambda>i. al ! i = al ! n) [0..<length al] = Some n"
proof -
  have "find (\<lambda>i. al ! i = al ! n) [0..<length al] = find (\<lambda>i. i = n) [0..<length al]"
    using assms by (intro find_cong refl) (auto simp: nth_eq_iff_index_eq)
  also have "\<dots> = Some n"
    using find_by_key [of id "[0..<length al]" n] assms(2) by simp
  finally show ?thesis .
qed

text \<open>No character of an alphabet is a line break.\<close>

lemma alphabet_no_break:
  "CHR 0x0A \<notin> set std_alphabet" "CHR 0x0D \<notin> set std_alphabet"
  "CHR 0x0A \<notin> set url_alphabet" "CHR 0x0D \<notin> set url_alphabet"
  by (simp_all add: std_alphabet_def url_alphabet_def)

lemma b64_round_trip:
  assumes "distinct al" and "length al = 64" and "CHR 0x0A \<notin> set al" and "CHR 0x0D \<notin> set al"
  shows "b64_decode al (b64_encode al bs) = Some bs"
proof -
  define ns where "ns = sextets (map byte bs)"
  have less: "\<forall>n\<in>set ns. n < 64" unfolding ns_def by (rule sextets_less) simp
  have keep: "filter (\<lambda>c. c \<noteq> CHR 0x0A \<and> c \<noteq> CHR 0x0D) (map ((!) al) ns) = map ((!) al) ns"
    using less assms(2,3,4) by (auto simp: filter_id_conv) (metis nth_mem)+
  have vs: "map (b64_value al) (map ((!) al) ns) = map Some ns"
    using less assms(1,2) find_nth [OF assms(1)] by (auto simp: b64_value_def)
  have "b64_decode al (b64_encode al bs) = map_option (map char_of) (octets (map the (map Some ns)))"
    unfolding b64_decode_def b64_encode_def ns_def [symmetric] Let_def keep vs by auto
  also have "\<dots> = map_option (map char_of) (Some (map byte bs))"
    using octets_sextets [of "map byte bs"] by (simp add: ns_def)
  also have "map (char_of \<circ> byte) bs = bs" by (simp add: byte_def comp_def)
  then have "map_option (map char_of) (Some (map byte bs)) = Some bs" by simp
  finally show ?thesis .
qed

lemma b64_std [simp]: "b64_decode std_alphabet (b64_encode std_alphabet bs) = Some bs"
  by (rule b64_round_trip) (simp_all add: distinct_alphabets alphabet_no_break)

lemma b64_url [simp]: "b64_decode url_alphabet (b64_encode url_alphabet bs) = Some bs"
  by (rule b64_round_trip) (simp_all add: distinct_alphabets alphabet_no_break)

lemma b64_encode_chars: "set (b64_encode std_alphabet bs) \<subseteq> set std_alphabet"
proof -
  have "\<forall>n\<in>set (sextets (map byte bs)). n < 64" by (rule sextets_less) simp
  then show ?thesis by (auto simp: b64_encode_def)
qed

lemma b64_no_dollar: "CHR ''$'' \<notin> set (b64_encode std_alphabet bs)"
  using b64_encode_chars [of bs] by (auto simp: std_alphabet_def)

end
