(* ===== verification/Password_Hash.thy ===== *)
theory Password_Hash
  imports Base64 Go_Unicode Models
begin

text \<open>
  Password hashes (\<open>internal/password/password.go\<close>): the PHC string of an Argon2id hash, its
  parser, and the verification of Argon2id and legacy bcrypt hashes. The two functions of
  \<open>golang.org/x/crypto\<close> are the fields of \<open>kdf\<close>. \<open>argon2.IDKey\<close> panics when the number of rounds,
  the parallelism or the length is zero; the field stands for the call where it does not.
\<close>

record kdf =
  argon2_id_key :: "string \<Rightarrow> string \<Rightarrow> nat \<Rightarrow> nat \<Rightarrow> nat \<Rightarrow> nat \<Rightarrow> string"
  bcrypt_compare :: "string \<Rightarrow> string \<Rightarrow> bool"

section \<open>\<open>fmt.Sscanf\<close>\<close>

text \<open>
  What the two formats need: literal characters match themselves, \<open>%d\<close> skips blanks (a line break
  is an error) and reads a number of the width of its operand; input that is left over is ignored.
\<close>

fun skip_space :: "string \<Rightarrow> string option" where
  "skip_space [] = Some []"
| "skip_space (c # cs) = (case decode_rune (c # cs) of (r, n) \<Rightarrow>
     if r = 13 \<and> cs \<noteq> [] \<and> hd cs = CHR 0x0A then skip_space cs
     else if r = 10 then None
     else if is_space r then skip_space (drop (n - 1) cs)
     else Some (c # cs))"

definition scan_literal :: "string \<Rightarrow> string \<Rightarrow> string option" where
  "scan_literal lit s = (if has_prefix s lit then Some (drop (length lit) s) else None)"

definition scan_uint :: "nat \<Rightarrow> string \<Rightarrow> (nat \<times> string) option" where
  "scan_uint bits s = (case skip_space s of
     None \<Rightarrow> None
   | Some s' \<Rightarrow>
       (case parse_digits (takeWhile ascii_digit s') of
          None \<Rightarrow> None
        | Some n \<Rightarrow> if n < 2 ^ 64 \<and> n < 2 ^ bits then Some (n, dropWhile ascii_digit s') else None))"

definition scan_int :: "string \<Rightarrow> (int \<times> string) option" where
  "scan_int s = (case skip_space s of
     None \<Rightarrow> None
   | Some s' \<Rightarrow>
       (let sign = (if s' \<noteq> [] \<and> (hd s' = CHR ''-'' \<or> hd s' = CHR ''+'') then [hd s'] else []);
            body = drop (length sign) s'
        in case parse_int64 (sign @ takeWhile ascii_digit body) of
             None \<Rightarrow> None
           | Some i \<Rightarrow> Some (i, dropWhile ascii_digit body)))"

section \<open>Definitions\<close>

record params =
  pa_memory :: nat
  pa_iterations :: nat
  pa_parallelism :: nat
  pa_salt_length :: nat
  pa_key_length :: nat

definition default_params :: params where
  "default_params = \<lparr>pa_memory = 65536, pa_iterations = 3, pa_parallelism = 2, pa_salt_length = 16,
     pa_key_length = 32\<rparr>"

definition test_params :: params where
  "test_params = \<lparr>pa_memory = 4096, pa_iterations = 1, pa_parallelism = 1, pa_salt_length = 16,
     pa_key_length = 32\<rparr>"

definition argon2_version :: int where
  "argon2_version = 19"

text \<open>The PHC string; \<open>p\<close> is the package variable \<open>activeParams\<close>.\<close>

definition phc_string :: "params \<Rightarrow> string \<Rightarrow> string \<Rightarrow> string" where
  "phc_string p salt h =
     ''$argon2id$v='' @ dec argon2_version @ ''$m='' @ dec (int (pa_memory p)) @ '',t='' @
     dec (int (pa_iterations p)) @ '',p='' @ dec (int (pa_parallelism p)) @ ''$'' @
     b64_encode std_alphabet salt @ ''$'' @ b64_encode std_alphabet h"

definition hash_password :: "kdf \<Rightarrow> params \<Rightarrow> string \<Rightarrow> (world, err + string) state" where
  "hash_password k p plain =
     try_bind (rand_read (pa_salt_length p)) (\<lambda>salt.
       State_Monad.return (Inr (phc_string p salt
         (argon2_id_key k plain salt (pa_iterations p) (pa_memory p) (pa_parallelism p) (pa_key_length p)))))"

definition scan_version :: "string \<Rightarrow> int option" where
  "scan_version s = map_option fst (Option.bind (scan_literal ''v='' s) scan_int)"

definition scan_costs :: "string \<Rightarrow> (nat \<times> nat \<times> nat) option" where
  "scan_costs s =
     Option.bind (Option.bind (scan_literal ''m='' s) (scan_uint 32)) (\<lambda>(memory, s1).
     Option.bind (Option.bind (scan_literal '',t='' s1) (scan_uint 32)) (\<lambda>(iterations, s2).
     Option.bind (Option.bind (scan_literal '',p='' s2) (scan_uint 8)) (\<lambda>(parallelism, s3).
       Some (memory, iterations, parallelism))))"

definition decode_argon2id :: "string \<Rightarrow> err + params \<times> string \<times> string" where
  "decode_argon2id stored =
     (let parts = split_on (CHR ''$'') stored in
      if length parts \<noteq> 6 \<or> parts ! 1 \<noteq> ''argon2id'' then Inl (ErrText ''invalid argon2id hash'')
      else case scan_version (parts ! 2) of
        None \<Rightarrow> Inl (ErrLib ''fmt.Sscanf'')
      | Some version \<Rightarrow>
          if version \<noteq> argon2_version then Inl (ErrText ''unsupported argon2 version'')
          else case scan_costs (parts ! 3) of
            None \<Rightarrow> Inl (ErrLib ''fmt.Sscanf'')
          | Some (memory, iterations, parallelism) \<Rightarrow>
              (case b64_decode std_alphabet (parts ! 4) of
                 None \<Rightarrow> Inl (ErrLib ''base64'')
               | Some salt \<Rightarrow>
                   (case b64_decode std_alphabet (parts ! 5) of
                      None \<Rightarrow> Inl (ErrLib ''base64'')
                    | Some h \<Rightarrow> Inr (\<lparr>pa_memory = memory, pa_iterations = iterations,
                        pa_parallelism = parallelism, pa_salt_length = 0, pa_key_length = length h mod 2 ^ 32\<rparr>,
                        salt, h))))"

definition verify_argon2id :: "kdf \<Rightarrow> string \<Rightarrow> string \<Rightarrow> err + bool" where
  "verify_argon2id k stored plain = (case decode_argon2id stored of
     Inl e \<Rightarrow> Inl e
   | Inr (p, salt, h) \<Rightarrow>
       Inr (h = argon2_id_key k plain salt (pa_iterations p) (pa_memory p) (pa_parallelism p) (pa_key_length p)))"

definition err_if_not_ok :: "err + bool \<Rightarrow> err + unit" where
  "err_if_not_ok r = (case r of
     Inl e \<Rightarrow> Inl e
   | Inr ok \<Rightarrow> if \<not> ok then Inl (ErrText ''password mismatch'') else Inr ())"

text \<open>The answer without error is \<open>needsRehash\<close>.\<close>

definition verify :: "kdf \<Rightarrow> string \<Rightarrow> string \<Rightarrow> err + bool" where
  "verify k stored plain =
     (if has_prefix stored ''$2a$'' \<or> has_prefix stored ''$2b$'' then
        (if bcrypt_compare k stored plain then Inr True else Inl (ErrLib ''bcrypt''))
      else if has_prefix stored ''$argon2id$'' then
        (case err_if_not_ok (verify_argon2id k stored plain) of Inl e \<Rightarrow> Inl e | Inr _ \<Rightarrow> Inr False)
      else Inl (ErrText ''unknown password hash format''))"

text \<open>
  \<open>init\<close> makes the hash \<open>DummyVerify\<close> works on; the result of the dummy verification is dropped, it
  only takes time.
\<close>

definition init_dummy_hash :: "kdf \<Rightarrow> (world, err + string) state" where
  "init_dummy_hash k = hash_password k test_params ''timing-equalizer-dummy''"

definition dummy_verify :: "kdf \<Rightarrow> string \<Rightarrow> string \<Rightarrow> (world, unit) state" where
  "dummy_verify k dummy plain = (case verify k dummy plain of
     Inl _ \<Rightarrow> State_Monad.return ()
   | Inr _ \<Rightarrow> State_Monad.return ())"

lemma dummy_verify_return [simp]: "dummy_verify k dummy plain = State_Monad.return ()"
  by (simp add: dummy_verify_def split: sum.splits)

section \<open>Parsing what was printed\<close>

lemma dec_nonneg [simp]: "dec (int n) = dec_nat n"
  by (simp add: dec_def)

lemma dec_nat_all_digits [simp]: "\<forall>c\<in>set (dec_nat n). ascii_digit c"
  using dec_nat_digits [of n] by (simp add: list_all_iff)

lemma digit_not_space: "ascii_digit c \<Longrightarrow> byte c < 128 \<and> \<not> is_space (byte c) \<and> byte c \<noteq> 13 \<and> byte c \<noteq> 10"
  by (simp add: ascii_digit_def byte_def is_space_def)

declare skip_space.simps [simp del]

lemma skip_space_digits: "skip_space (dec_nat n @ t) = Some (dec_nat n @ t)"
proof (cases "dec_nat n")
  case (Cons c cs)
  then have "ascii_digit c" by (rule dec_nat_head)
  from digit_not_space [OF this] show ?thesis by (simp add: Cons skip_space.simps)
qed (use dec_nat_digits [of n] in simp)

definition stops :: "string \<Rightarrow> bool" where
  "stops t \<longleftrightarrow> t = [] \<or> \<not> ascii_digit (hd t)"

lemma takeWhile_digits:
  assumes "stops t"
  shows "takeWhile ascii_digit (dec_nat n @ t) = dec_nat n" "dropWhile ascii_digit (dec_nat n @ t) = t"
proof -
  have "takeWhile ascii_digit t = []" "dropWhile ascii_digit t = t"
    using assms by (cases t; simp add: stops_def)+
  then show "takeWhile ascii_digit (dec_nat n @ t) = dec_nat n" "dropWhile ascii_digit (dec_nat n @ t) = t"
    by (simp_all add: takeWhile_append dropWhile_append)
qed

lemma scan_uint_dec: "n < 2 ^ bits \<Longrightarrow> bits \<le> 64 \<Longrightarrow> stops t \<Longrightarrow> scan_uint bits (dec_nat n @ t) = Some (n, t)"
  using power_increasing [of bits 64 "2::nat"]
  by (simp add: scan_uint_def skip_space_digits takeWhile_digits del: takeWhile_append2 dropWhile_append2)

lemma scan_int_dec:
  assumes "int n < 2 ^ 63" and "stops t"
  shows "scan_int (dec_nat n @ t) = Some (int n, t)"
proof -
  obtain c cs where c: "dec_nat n = c # cs" and d: "ascii_digit c"
    using dec_nat_head [of n] dec_nat_digits [of n] by (cases "dec_nat n") auto
  have "parse_int64 (dec_nat n) = Some (int n)"
    using parse_dec [of "int n"] assms(1) by simp
  moreover have "c \<noteq> CHR ''-''" "c \<noteq> CHR ''+''" using d by (auto simp: ascii_digit_def)
  moreover have "skip_space (c # cs @ t) = Some (c # cs @ t)"
    using skip_space_digits [of n t] by (simp add: c)
  ultimately show ?thesis
    using takeWhile_digits [OF assms(2), of n]
    by (simp add: scan_int_def c)
qed

lemma scan_literal_append [simp]: "scan_literal lit (lit @ t) = Some t"
  by (simp add: scan_literal_def)

lemma scan_costs_printed:
  assumes "pa_memory p < 2 ^ 32" and "pa_iterations p < 2 ^ 32" and "pa_parallelism p < 2 ^ 8"
  shows "scan_costs (''m='' @ dec_nat (pa_memory p) @ '',t='' @ dec_nat (pa_iterations p) @ '',p='' @
    dec_nat (pa_parallelism p)) = Some (pa_memory p, pa_iterations p, pa_parallelism p)"
proof -
  have stop: "stops ('',t='' @ u)" "stops ('',p='' @ u)" "stops []" for u
    by (simp_all add: stops_def ascii_digit_def)
  have "scan_uint 8 (dec_nat (pa_parallelism p)) = Some (pa_parallelism p, [])"
    using scan_uint_dec [OF assms(3) _ stop(3)] by simp
  then show ?thesis
    unfolding scan_costs_def scan_literal_append Option.bind.bind_lunit
    using scan_uint_dec [OF assms(1) _ stop(1)] scan_uint_dec [OF assms(2) _ stop(2)]
    by (simp only: scan_literal_append Option.bind.bind_lunit prod.case)
qed

lemma scan_version_printed: "scan_version (''v='' @ dec argon2_version) = Some argon2_version"
proof -
  have "scan_int (dec argon2_version) = Some (argon2_version, [])"
    using scan_int_dec [of 19 "[]"] by (simp add: argon2_version_def dec_def stops_def)
  then show ?thesis unfolding scan_version_def scan_literal_append by simp
qed

lemma dec_no_dollar: "CHR ''$'' \<notin> set (dec_nat n)"
  using dec_nat_all_digits [of n] by (auto simp: ascii_digit_def)

lemma split_phc:
  "split_on (CHR ''$'') (phc_string p salt h) =
     [[], ''argon2id'', ''v='' @ dec argon2_version,
      ''m='' @ dec_nat (pa_memory p) @ '',t='' @ dec_nat (pa_iterations p) @ '',p='' @ dec_nat (pa_parallelism p),
      b64_encode std_alphabet salt, b64_encode std_alphabet h]"
proof -
  have parts: "phc_string p salt h = [] @ CHR ''$'' # ''argon2id'' @ CHR ''$'' # (''v='' @ dec argon2_version) @ CHR ''$'' #
      (''m='' @ dec_nat (pa_memory p) @ '',t='' @ dec_nat (pa_iterations p) @ '',p='' @ dec_nat (pa_parallelism p)) @
      CHR ''$'' # b64_encode std_alphabet salt @ CHR ''$'' # b64_encode std_alphabet h"
    by (simp add: phc_string_def)
  have "CHR ''$'' \<notin> set (''v='' @ dec argon2_version)"
    using dec_no_dollar [of 19] by (simp add: argon2_version_def dec_def)
  moreover have "CHR ''$'' \<notin> set (''m='' @ dec_nat (pa_memory p) @ '',t='' @ dec_nat (pa_iterations p) @ '',p='' @ dec_nat (pa_parallelism p))"
    by (simp add: dec_no_dollar)
  moreover have "CHR ''$'' \<notin> set ''argon2id''" "CHR ''$'' \<notin> set []" by simp_all
  ultimately show ?thesis
    unfolding parts by (simp only: split_on_append split_on_word b64_no_dollar not_False_eq_True)
qed

lemma decode_phc:
  assumes "pa_memory p < 2 ^ 32" and "pa_iterations p < 2 ^ 32" and "pa_parallelism p < 2 ^ 8"
  shows "decode_argon2id (phc_string p salt h) =
    Inr (p\<lparr>pa_salt_length := 0, pa_key_length := length h mod 2 ^ 32\<rparr>, salt, h)"
proof -
  have "[a, b, c, d, e, f] ! 1 = b" "[a, b, c, d, e, f] ! 2 = c" "[a, b, c, d, e, f] ! 3 = d"
    "[a, b, c, d, e, f] ! 4 = e" "[a, b, c, d, e, f] ! 5 = f" for a b c d e f :: string
    by simp_all
  then show ?thesis
    unfolding decode_argon2id_def split_phc Let_def
    by (simp only: scan_version_printed scan_costs_printed [OF assms] b64_std) simp
qed

lemma verify_phc:
  assumes "pa_memory p < 2 ^ 32" and "pa_iterations p < 2 ^ 32" and "pa_parallelism p < 2 ^ 8"
    and "length h = pa_key_length p" and "pa_key_length p < 2 ^ 32"
  shows "verify k (phc_string p salt h) pw = Inr False \<longleftrightarrow>
    argon2_id_key k pw salt (pa_iterations p) (pa_memory p) (pa_parallelism p) (pa_key_length p) = h"
proof -
  have dec: "decode_argon2id (phc_string p salt h) = Inr (p\<lparr>pa_salt_length := 0\<rparr>, salt, h)"
    using decode_phc [OF assms(1-3)] assms(4,5) by simp
  have "has_prefix (phc_string p salt h) ''$argon2id$''" "\<not> has_prefix (phc_string p salt h) ''$2a$''"
    "\<not> has_prefix (phc_string p salt h) ''$2b$''"
    by (simp_all add: phc_string_def has_prefix_def)
  then show ?thesis
    by (auto simp: verify_def verify_argon2id_def dec err_if_not_ok_def)
qed

lemma hash_password_Inr:
  assumes "run_state (hash_password k p plain) w = (Inr stored, w')"
  obtains salt where "entropy w = salt # entropy w'" "stored = phc_string p salt
    (argon2_id_key k plain salt (pa_iterations p) (pa_memory p) (pa_parallelism p) (pa_key_length p))"
  using assms by (auto simp: hash_password_def rand_read_def split: list.splits if_splits)

section \<open>Properties\<close>

text \<open>
  C20: what \<open>Hash\<close> writes, \<open>Verify\<close> reads back. For parameters within their machine widths and a
  key derivation that gives as many bytes as asked for, the stored string is parsed to the
  parameters, the salt and the key it was made from; the password is accepted without a rehash; and
  another password is accepted exactly when its key under the same salt is the same.
\<close>

theorem hash_then_verify:
  assumes run: "run_state (hash_password k p plain) w = (Inr stored, w')"
    and salt: "entropy w = salt # rest"
    and bounds: "pa_memory p < 2 ^ 32" "pa_iterations p < 2 ^ 32" "pa_parallelism p < 2 ^ 8" "pa_key_length p < 2 ^ 32"
    and key: "\<And>pw s. length (argon2_id_key k pw s (pa_iterations p) (pa_memory p) (pa_parallelism p) (pa_key_length p)) =
      pa_key_length p"
  shows "(\<exists>h. decode_argon2id stored = Inr (p\<lparr>pa_salt_length := 0\<rparr>, salt, h)) \<and>
    verify k stored plain = Inr False \<and>
    (verify k stored other = Inr False \<longleftrightarrow>
       argon2_id_key k other salt (pa_iterations p) (pa_memory p) (pa_parallelism p) (pa_key_length p) =
       argon2_id_key k plain salt (pa_iterations p) (pa_memory p) (pa_parallelism p) (pa_key_length p))"
proof -
  let ?key = "\<lambda>pw. argon2_id_key k pw salt (pa_iterations p) (pa_memory p) (pa_parallelism p) (pa_key_length p)"
  have stored: "stored = phc_string p salt (?key plain)"
    using run by (rule hash_password_Inr) (simp add: salt)
  have dec: "decode_argon2id stored = Inr (p\<lparr>pa_salt_length := 0\<rparr>, salt, ?key plain)"
    using decode_phc [OF bounds(1-3)] bounds(4) key by (simp add: stored)
  have "verify k stored pw = Inr False \<longleftrightarrow> ?key pw = ?key plain" for pw
    unfolding stored by (rule verify_phc [OF bounds(1-3) key bounds(4)])
  with dec show ?thesis by blast
qed

definition sample_kdf :: kdf where
  "sample_kdf = \<lparr>argon2_id_key = (\<lambda>pw s t m p n. take n (pw @ replicate n (CHR ''0''))),
     bcrypt_compare = (\<lambda>h pw. h = ''$2a$'' @ pw)\<rparr>"

definition sample_params :: params where
  "sample_params = \<lparr>pa_memory = 8, pa_iterations = 1, pa_parallelism = 1, pa_salt_length = 2, pa_key_length = 6\<rparr>"

theorem hash_then_verify_witness:
  "verify sample_kdf ''$argon2id$v=19$m=8,t=1,p=1$c2E$Z3Vlc3Mw'' ''guess'' = Inr False \<and>
   verify sample_kdf ''$argon2id$v=19$m=8,t=1,p=1$c2E$Z3Vlc3Mw'' ''other'' \<noteq> Inr False"
proof -
  have run: "run_state (hash_password sample_kdf sample_params ''guess'') (empty_world\<lparr>entropy := [''sa'']\<rparr>) =
      (Inr ''$argon2id$v=19$m=8,t=1,p=1$c2E$Z3Vlc3Mw'', empty_world)"
  proof -
    have "phc_string sample_params ''sa'' ''guess0'' = ''$argon2id$v=19$m=8,t=1,p=1$c2E$Z3Vlc3Mw''" by code_simp
    then show ?thesis
      by (simp add: hash_password_def rand_read_def sample_kdf_def sample_params_def empty_world_def)
  qed
  show ?thesis
    using hash_then_verify [OF run, of "''sa''" "[]" "''other''"]
    by (simp add: sample_params_def sample_kdf_def empty_world_def)
qed

end
