(* ===== verification/Access_Token.thy ===== *)
theory Access_Token
  imports Go_Unicode Models Samples
begin

text \<open>
  Access tokens (\<open>generateAccessToken\<close>, \<open>ValidateAccessToken\<close> in \<open>service/auth.go\<close>). The functions
  of \<open>golang-jwt\<close> are the fields of \<open>jwt_lib\<close>, under the server's key pair: signing claims, the
  algorithm a token names (\<open>None\<close> for a malformed token), and the claims of a token whose signature
  and times are in order. \<open>encoding/json\<close> reads a number into a \<open>float64\<close>, so a claim comes back
  rounded.
\<close>

section \<open>Numbers in \<open>float64\<close>\<close>

text \<open>
  An integer rounded to 53 significant bits, ties to even: the \<open>float64\<close> that JSON decoding gives
  (the exponent does not overflow for the widths of the program).
\<close>

fun bit_length :: "nat \<Rightarrow> nat" where
  "bit_length n = (if n = 0 then 0 else Suc (bit_length (n div 2)))"

declare bit_length.simps [simp del]

definition round_half_even :: "nat \<Rightarrow> nat \<Rightarrow> nat" where
  "round_half_even m d = (let q = m div d; r = m mod d in
     if 2 * r < d \<or> (2 * r = d \<and> even q) then q else q + 1)"

definition float64 :: "int \<Rightarrow> int" where
  "float64 i = (let m = nat \<bar>i\<bar>; e = bit_length m - 53 in
     if bit_length m \<le> 53 then i else sgn i * int (round_half_even m (2 ^ e) * 2 ^ e))"

lemma bit_length_step: "bit_length 0 = 0" "0 < n \<Longrightarrow> bit_length n = Suc (bit_length (n div 2))"
  by (subst bit_length.simps, simp)+

lemma bit_length_le: "n < 2 ^ k \<Longrightarrow> bit_length n \<le> k"
proof (induction k arbitrary: n)
  case 0
  then show ?case by (simp add: bit_length.simps)
next
  case (Suc k)
  then have "n div 2 < 2 ^ k" by auto
  with Suc.IH show ?case by (subst bit_length.simps) auto
qed

lemma float64_exact: "\<bar>i\<bar> < 2 ^ 53 \<Longrightarrow> float64 i = i"
  using bit_length_le [of "nat \<bar>i\<bar>" 53] by (simp add: float64_def Let_def nat_less_iff)

section \<open>Definitions\<close>

datatype claim = CNum int | CStr string

type_synonym claims = "(string \<times> claim) list"

record jwt_lib =
  jl_sign :: "claims \<Rightarrow> err + string"
  jl_algorithm :: "string \<Rightarrow> string option"
  jl_verify :: "int \<Rightarrow> string \<Rightarrow> claims option"

record token_claims =
  tc_user_id :: int
  tc_session_id :: int

text \<open>\<open>Time.Unix()\<close>: whole seconds.\<close>

definition unix_time :: "int \<Rightarrow> int" where
  "unix_time t = t div 1000000"

definition generate_access_token :: "jwt_lib \<Rightarrow> int \<Rightarrow> user \<Rightarrow> int \<Rightarrow> (world, err + string) state" where
  "generate_access_token L access_ttl u sid = do {
     now \<leftarrow> time_now;
     State_Monad.return (jl_sign L
       [(''sub'', CNum (u_id u)), (''sid'', CNum sid), (''email'', CStr (u_email u)),
        (''iat'', CNum (unix_time now)), (''exp'', CNum (unix_time (now + access_ttl)))])
   }"

text \<open>The key function refuses a token whose algorithm is not one of \<open>SigningMethodRSA\<close>.\<close>

definition rsa_algorithms :: "string list" where
  "rsa_algorithms = [''RS256'', ''RS384'', ''RS512'']"

definition jwt_parse :: "jwt_lib \<Rightarrow> int \<Rightarrow> string \<Rightarrow> claims option" where
  "jwt_parse L now token = (case jl_algorithm L token of
     None \<Rightarrow> None
   | Some alg \<Rightarrow> if alg \<notin> set rsa_algorithms then None else jl_verify L now token)"

text \<open>
  \<open>int64(f)\<close> of a \<open>float64\<close>. Outside the range of \<open>int64\<close> the language leaves the result open; on amd64 it is
  the least value.
\<close>

definition in_int64 :: "int \<Rightarrow> bool" where
  "in_int64 i \<longleftrightarrow> - (2 ^ 63) \<le> i \<and> i < 2 ^ 63"

definition to_int64 :: "int \<Rightarrow> int" where
  "to_int64 f = (if in_int64 f then f else - (2 ^ 63))"

lemma to_int64_inside [simp]: "- (2 ^ 63) \<le> f \<Longrightarrow> f < 2 ^ 63 \<Longrightarrow> to_int64 f = f"
  by (simp add: to_int64_def in_int64_def)

definition validate_access_token :: "jwt_lib \<Rightarrow> string \<Rightarrow> (world, err + token_claims) state" where
  "validate_access_token L token = do {
     now \<leftarrow> time_now;
     State_Monad.return (case jwt_parse L now token of
       None \<Rightarrow> Inl (ErrText ''invalid token'')
     | Some cs \<Rightarrow>
         (case map_of cs ''sub'' of
            Some (CNum sub) \<Rightarrow>
              (case map_of cs ''sid'' of
                 Some (CNum sid) \<Rightarrow> Inr \<lparr>tc_user_id = to_int64 sub, tc_session_id = to_int64 sid\<rparr>
               | _ \<Rightarrow> Inl (ErrText ''invalid session id''))
          | _ \<Rightarrow> Inl (ErrText ''invalid subject'')))
   }"

section \<open>Tokens that were issued\<close>

lemma int64_exact: "\<bar>i\<bar> < 2 ^ 53 \<Longrightarrow> to_int64 (float64 i) = i"
  by (simp add: float64_exact)

fun through_json :: "claim \<Rightarrow> claim" where
  "through_json (CNum i) = CNum (float64 i)"
| "through_json (CStr s) = CStr s"

text \<open>
  What the library promises of a token it signed: it names RS256, and verification gives the claims
  back, through JSON, strictly before the instant of \<open>exp\<close> and not from then on.
\<close>

definition jwt_documented :: "jwt_lib \<Rightarrow> bool" where
  "jwt_documented L \<longleftrightarrow> (\<forall>cs t now e. jl_sign L cs = Inr t \<longrightarrow> map_of cs ''exp'' = Some (CNum e) \<longrightarrow>
     jl_algorithm L t = Some ''RS256'' \<and>
     jl_verify L now t = (if now < float64 e * 1000000 then Some (map (\<lambda>(k, v). (k, through_json v)) cs) else None))"

lemma map_of_through: "map_of (map (\<lambda>(k, v). (k, f v)) cs) k = map_option f (map_of cs k)"
  by (induction cs) auto

text \<open>
  C19: an access token names the user and the session it was made for until it expires. A token
  signed at one time is validated to the two identities, as \<open>float64\<close> and \<open>int64\<close> give them, at any later time
  before the second its life ends in, and is refused from that second on; identities below \<open>2^53\<close>
  are not changed.
\<close>

theorem token_round_trip:
  assumes lib: "jwt_documented L"
    and issued: "run_state (generate_access_token L access_ttl u sid) w = (Inr t, w')"
    and "\<bar>unix_time (clock w' + access_ttl)\<bar> < 2 ^ 53"
  shows "fst (run_state (validate_access_token L t) v) =
      (if clock (elapse v) < unix_time (clock w' + access_ttl) * 1000000
       then Inr \<lparr>tc_user_id = to_int64 (float64 (u_id u)), tc_session_id = to_int64 (float64 sid)\<rparr>
       else Inl (ErrText ''invalid token'')) \<and>
    (\<forall>i. \<bar>i\<bar> < 2 ^ 53 \<longrightarrow> to_int64 (float64 i) = i)"
proof
  show "\<forall>i. \<bar>i\<bar> < 2 ^ 53 \<longrightarrow> to_int64 (float64 i) = i" by (simp add: int64_exact)
next
  show "fst (run_state (validate_access_token L t) v) =
      (if clock (elapse v) < unix_time (clock w' + access_ttl) * 1000000
       then Inr \<lparr>tc_user_id = to_int64 (float64 (u_id u)), tc_session_id = to_int64 (float64 sid)\<rparr>
       else Inl (ErrText ''invalid token''))"
  proof -  define cs where "cs = [(''sub'', CNum (u_id u)), (''sid'', CNum sid), (''email'', CStr (u_email u)),
    (''iat'', CNum (unix_time (clock w'))), (''exp'', CNum (unix_time (clock w' + access_ttl)))]"
  have "jl_sign L cs = Inr t" using issued by (auto simp: generate_access_token_def cs_def)
  moreover have "map_of cs ''exp'' = Some (CNum (unix_time (clock w' + access_ttl)))" by (simp add: cs_def)
  ultimately have "jl_algorithm L t = Some ''RS256''" and
    "jl_verify L now t = (if now < unix_time (clock w' + access_ttl) * 1000000
       then Some (map (\<lambda>(k, v). (k, through_json v)) cs) else None)" for now
    using lib float64_exact [OF assms(3)] unfolding jwt_documented_def by metis+
  then show ?thesis
    by (simp add: validate_access_token_def jwt_parse_def rsa_algorithms_def map_of_through) (simp add: cs_def)
  qed
qed

text \<open>Beyond that range two users share their tokens: the identity \<open>2^53 + 1\<close> comes back as \<open>2^53\<close>.\<close>

lemma large_identity: "float64 9007199254740993 = 9007199254740992"
  by (simp add: float64_def bit_length_step round_half_even_def Let_def)

subsection \<open>A library that keeps the promise\<close>

definition blank :: char where
  "blank = CHR '' ''"

text \<open>The five claims of the program, written with blanks between them.\<close>

definition sample_sign :: "claims \<Rightarrow> err + string" where
  "sample_sign cs = (case cs of
     [(k1, CNum a), (k2, CNum b), (k3, CStr m), (k4, CNum c), (k5, CNum d)] \<Rightarrow>
       if [k1, k2, k3, k4, k5] = [''sub'', ''sid'', ''email'', ''iat'', ''exp''] \<and> blank \<notin> set m \<and>
          in_int64 a \<and> in_int64 b \<and> in_int64 c \<and> in_int64 d
       then Inr (dec a @ blank # dec b @ blank # m @ blank # dec c @ blank # dec d)
       else Inl (ErrLib ''jwt'')
   | _ \<Rightarrow> Inl (ErrLib ''jwt''))"

definition sample_verify :: "int \<Rightarrow> string \<Rightarrow> claims option" where
  "sample_verify now t = (case split_on blank t of
     [a, b, m, c, d] \<Rightarrow>
       (case (parse_int64 a, parse_int64 b, parse_int64 c, parse_int64 d) of
          (Some a', Some b', Some c', Some d') \<Rightarrow>
            if now < float64 d' * 1000000
            then Some [(''sub'', CNum (float64 a')), (''sid'', CNum (float64 b')), (''email'', CStr m),
                       (''iat'', CNum (float64 c')), (''exp'', CNum (float64 d'))]
            else None
        | _ \<Rightarrow> None)
   | _ \<Rightarrow> None)"

definition sample_jwt :: jwt_lib where
  "sample_jwt = \<lparr>jl_sign = sample_sign, jl_algorithm = (\<lambda>_. Some ''RS256''), jl_verify = sample_verify\<rparr>"

lemma dec_no_blank: "blank \<notin> set (dec i)"
proof -
  have "blank \<notin> set (dec_nat n)" for n
    using dec_nat_digits [of n] by (auto simp: list_all_iff ascii_digit_def blank_def)
  then show ?thesis by (auto simp: dec_def) (simp add: blank_def)
qed

lemma sample_jwt_documented: "jwt_documented sample_jwt"
  unfolding jwt_documented_def
proof (intro allI impI)
  fix cs t now e
  assume sign: "jl_sign sample_jwt cs = Inr t" and e: "map_of cs ''exp'' = Some (CNum e)"
  from sign obtain a b m c d where
    cs: "cs = [(''sub'', CNum a), (''sid'', CNum b), (''email'', CStr m), (''iat'', CNum c), (''exp'', CNum d)]"
    and ok: "blank \<notin> set m" "in_int64 a" "in_int64 b" "in_int64 c" "in_int64 d"
    and t: "t = dec a @ blank # dec b @ blank # m @ blank # dec c @ blank # dec d"
    by (auto simp: sample_jwt_def sample_sign_def split: list.splits prod.splits claim.splits if_splits)
  have split: "split_on blank t = [dec a, dec b, m, dec c, dec d]"
    unfolding t by (simp only: split_on_append split_on_word dec_no_blank ok not_False_eq_True)
  have "parse_int64 (dec i) = Some i" if "in_int64 i" for i
    using that by (simp add: in_int64_def parse_dec)
  with ok e show "jl_algorithm sample_jwt t = Some ''RS256'' \<and>
     jl_verify sample_jwt now t = (if now < float64 e * 1000000 then Some (map (\<lambda>(k, v). (k, through_json v)) cs) else None)"
    by (simp add: sample_jwt_def sample_verify_def split cs)
qed

theorem token_round_trip_witness:
  "\<exists>t. fst (run_state (generate_access_token sample_jwt 900000000 alice 7) empty_world) = Inr t \<and>
     fst (run_state (validate_access_token sample_jwt t) (empty_world\<lparr>clock := 899999999\<rparr>)) =
       Inr \<lparr>tc_user_id = 1, tc_session_id = 7\<rparr> \<and>
     fst (run_state (validate_access_token sample_jwt t) (empty_world\<lparr>clock := 900000000\<rparr>)) =
       Inl (ErrText ''invalid token'')"
proof -
  let ?run = "run_state (generate_access_token sample_jwt 900000000 alice 7) empty_world"
  have w: "clock (snd ?run) = 0" by (simp add: generate_access_token_def elapse_def empty_world_def)
  have "fst ?run \<in> range Inr"
    by (simp add: generate_access_token_def sample_jwt_def sample_sign_def alice_def in_int64_def blank_def
        unix_time_def elapse_def empty_world_def)
  then obtain t w' where run: "?run = (Inr t, w')" by (cases ?run) auto
  with w have w': "clock w' = 0" by simp
  then have "\<bar>unix_time (clock w' + 900000000)\<bar> < 2 ^ 53" by (simp add: unix_time_def)
  note answer = token_round_trip [OF sample_jwt_documented run this, THEN conjunct1]
  have "fst (run_state (validate_access_token sample_jwt t) (empty_world\<lparr>clock := 899999999\<rparr>)) =
      Inr \<lparr>tc_user_id = 1, tc_session_id = 7\<rparr>"
    unfolding answer w' by (simp add: unix_time_def elapse_def empty_world_def alice_def int64_exact)
  moreover have "fst (run_state (validate_access_token sample_jwt t) (empty_world\<lparr>clock := 900000000\<rparr>)) =
      Inl (ErrText ''invalid token'')"
    unfolding answer w' by (simp add: unix_time_def elapse_def empty_world_def)
  ultimately show ?thesis using run by (metis fst_conv)
qed

end
