(* ===== verification/Last_Login.thy ===== *)
theory Last_Login
  imports Redis Go_Strings Audit_Service
begin

text \<open>
  The last login of a user in Redis (\<open>backend/cache/last_login.go\<close>) and the country of an address
  (\<open>internal/geoip\<close>). JSON encoding and decoding of the stored record, the parser of addresses and
  the MaxMind reader are the fields of \<open>geo_lib\<close>.
\<close>

record last_login_info =
  ll_country :: string
  ll_ip :: string
  ll_at :: int

record geo_lib =
  gl_marshal :: "last_login_info \<Rightarrow> err + string"
  gl_unmarshal :: "string \<Rightarrow> err + last_login_info"
  gl_valid_ip :: "string \<Rightarrow> bool"
  gl_country :: "string \<Rightarrow> err + string"

section \<open>Definitions\<close>

datatype geo_lookup = Nop | Mock "string \<rightharpoonup> string" | MaxMind

definition maxmind_country_code :: "geo_lib \<Rightarrow> string \<Rightarrow> err + string" where
  "maxmind_country_code G ip =
     (if \<not> gl_valid_ip G ip then Inr []
      else (case gl_country G ip of Inl e \<Rightarrow> Inl (ErrLib ''geoip'') | Inr code \<Rightarrow> Inr code))"

definition country_code :: "geo_lib \<Rightarrow> geo_lookup \<Rightarrow> string \<Rightarrow> err + string" where
  "country_code G geo ip = (case geo of
     Nop \<Rightarrow> Inr []
   | Mock countries \<Rightarrow> (case countries ip of Some code \<Rightarrow> Inr code | None \<Rightarrow> Inr [])
   | MaxMind \<Rightarrow> maxmind_country_code G ip)"

record last_login_store =
  lls_prefix :: string
  lls_ttl :: int

definition last_login_key :: "int \<Rightarrow> string" where
  "last_login_key uid = ''last_login:'' @ dec uid"

definition last_login_get ::
  "geo_lib \<Rightarrow> last_login_store \<Rightarrow> int \<Rightarrow> (world, err + last_login_info option) state" where
  "last_login_get G s uid =
     try_bind (rdb_get (client_key (lls_prefix s) (last_login_key uid))) (\<lambda>raw.
       State_Monad.return (case raw of
         None \<Rightarrow> Inr None
       | Some bytes \<Rightarrow> (case gl_unmarshal G bytes of Inl e \<Rightarrow> Inl e | Inr info \<Rightarrow> Inr (Some info))))"

definition last_login_set ::
  "geo_lib \<Rightarrow> last_login_store \<Rightarrow> int \<Rightarrow> last_login_info \<Rightarrow> (world, err + unit) state" where
  "last_login_set G s uid info =
     (case gl_marshal G info of
        Inl e \<Rightarrow> State_Monad.return (Inl e)
      | Inr raw \<Rightarrow> rdb_set (client_key (lls_prefix s) (last_login_key uid)) (RStr raw) (lls_ttl s))"

text \<open>
  \<open>checkImpossibleTravel\<close> of \<open>service/auth.go\<close>; \<open>None\<close> for the store is the nil pointer. An error of
  the store while reading counts as no previous login.
\<close>

definition check_impossible_travel ::
  "geo_lib \<Rightarrow> geo_lookup \<Rightarrow> last_login_store option \<Rightarrow> int \<Rightarrow> int \<Rightarrow> string \<Rightarrow> (world, unit) state" where
  "check_impossible_travel G geo store window uid ip = (case store of
     None \<Rightarrow> State_Monad.return ()
   | Some s \<Rightarrow>
       (case country_code G geo ip of
          Inl e \<Rightarrow> State_Monad.return ()
        | Inr country \<Rightarrow>
            if country = [] then State_Monad.return ()
            else do {
              got \<leftarrow> last_login_get G s uid;
              _ \<leftarrow> (case got of
                 Inr (Some prev) \<Rightarrow>
                   (if ll_country prev \<noteq> [] \<and> ll_country prev \<noteq> country then do {
                      now \<leftarrow> time_now;
                      (let elapsed = now - ll_at prev in
                       if elapsed \<le> window then
                         log_security_alert (Some uid) ''impossible_travel'' (Some
                           [(''ip'', JStr ip), (''country'', JStr country), (''prevIp'', JStr (ll_ip prev)),
                            (''prevCountry'', JStr (ll_country prev)), (''elapsedSec'', JDur elapsed),
                            (''windowMinutes'', JDur window)])
                       else State_Monad.return ())
                    }
                    else State_Monad.return ())
               | _ \<Rightarrow> State_Monad.return ());
              at \<leftarrow> time_now;
              _ \<leftarrow> last_login_set G s uid \<lparr>ll_country = country, ll_ip = ip, ll_at = at\<rparr>;
              State_Monad.return ()
            }))"


lemma evolves_travel [respects]:
  "state_io_rel (on_db evolves) (last_login_get G s uid)"
  "state_io_rel (on_db evolves) (last_login_set G s uid info)"
  "state_io_rel (on_db evolves) (check_impossible_travel G geo store window uid ip)"
  unfolding last_login_get_def last_login_set_def check_impossible_travel_def rdb_defs
  by (intro ev.on_rules respects)+

lemma only_audit_travel [respects]:
  "state_io_rel (on_db only_audit) (last_login_get G s uid)"
  "state_io_rel (on_db only_audit) (last_login_set G s uid info)"
  "state_io_rel (on_db only_audit) (check_impossible_travel G geo store window uid ip)"
  unfolding last_login_get_def last_login_set_def check_impossible_travel_def rdb_defs
  by (intro oa.on_rules respects)+

end
