(* ===== verification/Auth_Service.thy ===== *)
theory Auth_Service
  imports Rate_Limit Permission_Service Password_Hash Access_Token Last_Login
begin

text \<open>
  The authentication service (\<open>service/auth.go\<close>): login, rotation of refresh tokens with reuse
  detection, logout, and the sessions of a user. What the service is built from is the record
  \<open>auth_service\<close>; the code outside the repository comes in through its library fields.
\<close>

section \<open>Definitions\<close>

record auth_service =
  as_limiter :: tiered_limiter
  as_ttl_reply :: "int \<Rightarrow> int"
  as_perm_cache :: perm_cache
  as_last_login :: "last_login_store option"
  as_geo :: geo_lookup
  as_geo_lib :: geo_lib
  as_kdf :: kdf
  as_params :: params
  as_dummy_hash :: string
  as_jwt :: jwt_lib
  as_sha256 :: "string \<Rightarrow> string"
  as_access_ttl :: int
  as_refresh_ttl :: int
  as_travel_window :: int

record token_pair =
  tp_access_token :: string
  tp_refresh_token :: string
  tp_refresh_expires_at :: int
  tp_session_id :: int

text \<open>\<open>NewAuthService\<close>: defaults for a nil \<open>geo\<close> and a zero window.\<close>

definition new_auth_service :: "geo_lookup option \<Rightarrow> int \<Rightarrow> auth_service \<Rightarrow> auth_service" where
  "new_auth_service geo travel_window s =
     s\<lparr>as_geo := (case geo of None \<Rightarrow> Nop | Some g \<Rightarrow> g),
       as_travel_window := (if travel_window = 0 then 30 * minute else travel_window)\<rparr>"

definition hash_token :: "auth_service \<Rightarrow> string \<Rightarrow> string" where
  "hash_token s token = hex_encode (as_sha256 s token)"

definition generate_refresh_token :: "(world, err + string) state" where
  "generate_refresh_token = try_bind (rand_read 32) (\<lambda>raw.
     State_Monad.return (Inr (b64_encode url_alphabet raw)))"

definition audit_login_failed :: "string \<Rightarrow> string \<Rightarrow> string \<Rightarrow> (world, unit) state" where
  "audit_login_failed email ip reason = audit_service_log None ''login.failed'' ''auth'' None None
     (Some [(''email'', JStr email), (''ip'', JStr ip), (''reason'', JStr reason)])"

definition audit_rate_limit_block :: "auth_service \<Rightarrow> string \<Rightarrow> string \<Rightarrow> int \<Rightarrow> int \<Rightarrow> (world, unit) state" where
  "audit_rate_limit_block s email ip count retry_after = do {
     _ \<leftarrow> audit_service_log None ''login.failed'' ''auth'' None None
       (Some [(''email'', JStr email), (''ip'', JStr ip), (''reason'', JStr ''rate_limited''),
              (''retryAfterSec'', JDur retry_after)]);
     (if max_tier_threshold (as_limiter s) \<le> count then
        log_security_alert None ''login_rate_limit''
          (Some [(''email'', JStr email), (''ip'', JStr ip), (''attemptCount'', JInt count),
                 (''retryAfterSec'', JDur retry_after)])
      else State_Monad.return ())
   }"

definition check_login_rate_limit ::
  "auth_service \<Rightarrow> string \<Rightarrow> string \<Rightarrow> string \<Rightarrow> (world, err + unit) state" where
  "check_login_rate_limit s key email ip = do {
     r \<leftarrow> check (as_limiter s) (as_ttl_reply s) key;
     (case r of
        Inl e \<Rightarrow> State_Monad.return (Inl ErrRateLimitDown)
      | Inr (blocked, retry_after, count) \<Rightarrow>
          if blocked then do {
            _ \<leftarrow> audit_rate_limit_block s email ip count retry_after;
            State_Monad.return (Inl ErrRateLimited)
          }
          else State_Monad.return (Inr ()))
   }"

definition create_session ::
  "auth_service \<Rightarrow> user \<Rightarrow> string \<Rightarrow> string \<Rightarrow> (world, err + token_pair) state" where
  "create_session s u ip user_agent =
     try_bind generate_refresh_token (\<lambda>refresh_token. do {
       now0 \<leftarrow> time_now;
       (let expires_at = now0 + as_refresh_ttl s in do {
          now \<leftarrow> time_now;
          try_bind (session_repo_create
            \<lparr>s_id = 0, s_user_id = u_id u, s_refresh_token_hash = hash_token s refresh_token,
             s_expires_at = expires_at, s_revoked = False, s_revoked_at = None,
             s_ip_address = (if ip \<noteq> [] then Some ip else None),
             s_user_agent = (if user_agent \<noteq> [] then Some user_agent else None),
             s_last_activity_at = Some now, s_created_at = 0\<rparr>) (\<lambda>row.
          try_bind (generate_access_token (as_jwt s) (as_access_ttl s) u (s_id row)) (\<lambda>access_token. do {
            _ \<leftarrow> audit_service_log (Some (u_id u)) ''session.created'' ''session'' (Some (s_id row)) None
              (Some [(''sessionId'', JInt (s_id row)), (''ip'', JStr ip)]);
            State_Monad.return (Inr \<lparr>tp_access_token = access_token, tp_refresh_token = refresh_token,
              tp_refresh_expires_at = expires_at, tp_session_id = s_id row\<rparr>)
          }))
        })
     })"

text \<open>
  The end of a login once the credentials are right: the session, the reset of both counters, the
  trail, the travel check, the invalidation of the cached permissions.
\<close>

definition login_success ::
  "auth_service \<Rightarrow> user \<Rightarrow> string \<Rightarrow> string \<Rightarrow> string \<Rightarrow> (world, err + token_pair) state" where
  "login_success s u email ip user_agent =
     try_bind (create_session s u ip user_agent) (\<lambda>pair. do {
       _ \<leftarrow> reset (as_limiter s) (login_email_key email);
       _ \<leftarrow> reset (as_limiter s) (login_ip_key ip);
       _ \<leftarrow> audit_service_log (Some (u_id u)) ''login.success'' ''auth'' (Some (u_id u)) None
         (Some [(''email'', JStr email), (''ip'', JStr ip), (''sessionId'', JInt (tp_session_id pair))]);
       _ \<leftarrow> check_impossible_travel (as_geo_lib s) (as_geo s) (as_last_login s) (as_travel_window s) (u_id u) ip;
       _ \<leftarrow> invalidate_user_cache (as_perm_cache s) (u_id u);
       State_Monad.return (Inr pair)
     })"

text \<open>\<open>Login\<close> after the two checks of the rate limits; first the part for a user that was found.\<close>

definition login_found ::
  "auth_service \<Rightarrow> user \<Rightarrow> string \<Rightarrow> string \<Rightarrow> string \<Rightarrow> string \<Rightarrow> (world, err + token_pair) state" where
  "login_found s u email password_plain ip user_agent =
     (if \<not> u_active u then
        do {
          _ \<leftarrow> dummy_verify (as_kdf s) (as_dummy_hash s) password_plain;
          _ \<leftarrow> audit_login_failed email ip ''user_inactive'';
          State_Monad.return (Inl ErrInvalidCredentials)
        }
      else (case verify (as_kdf s) (u_password_hash u) password_plain of
          Inl e \<Rightarrow> do {
            _ \<leftarrow> audit_login_failed email ip ''wrong_password'';
            State_Monad.return (Inl ErrInvalidCredentials)
          }
        | Inr needs_rehash \<Rightarrow>
            if needs_rehash then
              try_bind (hash_password (as_kdf s) (as_params s) password_plain) (\<lambda>new_hash. do {
                _ \<leftarrow> user_repo_update_password_hash (u_id u) new_hash;
                login_success s u email ip user_agent
              })
            else login_success s u email ip user_agent))"

definition login_credentials ::
  "auth_service \<Rightarrow> string \<Rightarrow> string \<Rightarrow> string \<Rightarrow> string \<Rightarrow> (world, err + token_pair) state" where
  "login_credentials s email password_plain ip user_agent = do {
     found \<leftarrow> user_repo_find_by_email email;
     (case found of
        Inl e \<Rightarrow>
          if e = ErrNotFound then
            do {
              _ \<leftarrow> dummy_verify (as_kdf s) (as_dummy_hash s) password_plain;
              _ \<leftarrow> audit_login_failed email ip ''user_not_found'';
              State_Monad.return (Inl ErrInvalidCredentials)
            }
          else State_Monad.return (Inl e)
      | Inr view \<Rightarrow> login_found s (uv_user view) email password_plain ip user_agent)
   }"

definition login :: "auth_service \<Rightarrow> string \<Rightarrow> string \<Rightarrow> string \<Rightarrow> string \<Rightarrow> (world, err + token_pair) state" where
  "login s email password_plain ip user_agent =
     try_bind (check_login_rate_limit s (login_ip_key ip) email ip) (\<lambda>_.
     try_bind (check_login_rate_limit s (login_email_key email) email ip) (\<lambda>_.
       login_credentials s email password_plain ip user_agent))"

definition handle_refresh_miss ::
  "auth_service \<Rightarrow> string \<Rightarrow> string \<Rightarrow> (world, err + token_pair) state" where
  "handle_refresh_miss s token_hash ip = do {
     found \<leftarrow> session_repo_find_by_token_hash token_hash;
     (case found of
        Inl e \<Rightarrow> State_Monad.return (Inl (if e = ErrNotFound then ErrInvalidSession else e))
      | Inr sess \<Rightarrow> do {
          now \<leftarrow> (if s_revoked sess then State_Monad.return 0 else time_now);
          (if s_revoked sess \<or> s_expires_at sess < now then do {
             _ \<leftarrow> session_repo_revoke_all_by_user (s_user_id sess);
             _ \<leftarrow> audit_service_log (Some (s_user_id sess)) ''session.revoked'' ''session'' (Some (s_id sess)) None
               (Some [(''reason'', JStr ''refresh_token_reuse''), (''sessionId'', JInt (s_id sess))]);
             _ \<leftarrow> log_security_alert (Some (s_user_id sess)) ''refresh_token_reuse''
               (Some [(''sessionId'', JInt (s_id sess)), (''ip'', JStr ip)]);
             State_Monad.return (Inl ErrTokenReuse)
           }
           else State_Monad.return (Inl ErrInvalidSession))
        })
   }"

text \<open>\<open>Refresh\<close> from the point where the active session is found, and from where its user is.\<close>

definition rotate_session ::
  "auth_service \<Rightarrow> user \<Rightarrow> session \<Rightarrow> string \<Rightarrow> string \<Rightarrow> (world, err + token_pair) state" where
  "rotate_session s u sess ip user_agent =
     try_bind (session_repo_revoke_with_timestamp (s_id sess)) (\<lambda>_.
     try_bind (create_session s u ip user_agent) (\<lambda>pair. do {
       _ \<leftarrow> audit_service_log (Some (u_id u)) ''session.refreshed'' ''session'' (Some (s_id sess)) None
         (Some [(''oldSessionId'', JInt (s_id sess)), (''newSessionId'', JInt (tp_session_id pair))]);
       _ \<leftarrow> invalidate_user_cache (as_perm_cache s) (u_id u);
       State_Monad.return (Inr pair)
     }))"

definition refresh_active ::
  "auth_service \<Rightarrow> session \<Rightarrow> string \<Rightarrow> string \<Rightarrow> (world, err + token_pair) state" where
  "refresh_active s sess ip user_agent = do {
     owner \<leftarrow> user_repo_find_by_id (s_user_id sess);
     (case owner of
        Inl e \<Rightarrow> State_Monad.return (Inl ErrInvalidSession)
      | Inr view \<Rightarrow>
          if \<not> u_active (uv_user view) then State_Monad.return (Inl ErrInvalidSession)
          else rotate_session s (uv_user view) sess ip user_agent)
   }"

definition refresh :: "auth_service \<Rightarrow> string \<Rightarrow> string \<Rightarrow> string \<Rightarrow> (world, err + token_pair) state" where
  "refresh s refresh_token ip user_agent =
     (let token_hash = hash_token s refresh_token in do {
        found \<leftarrow> session_repo_find_active_by_token_hash token_hash;
        (case found of
           Inl e \<Rightarrow>
             if e = ErrNotFound then handle_refresh_miss s token_hash ip
             else State_Monad.return (Inl e)
         | Inr sess \<Rightarrow> refresh_active s sess ip user_agent)
      })"

definition logout :: "auth_service \<Rightarrow> string \<Rightarrow> (world, err + unit) state" where
  "logout s refresh_token = do {
     found \<leftarrow> session_repo_find_active_by_token_hash (hash_token s refresh_token);
     (case found of
        Inl e \<Rightarrow> State_Monad.return (if e = ErrNotFound then Inr () else Inl e)
      | Inr sess \<Rightarrow>
          try_bind (session_repo_revoke_with_timestamp (s_id sess)) (\<lambda>_. do {
            _ \<leftarrow> audit_service_log (Some (s_user_id sess)) ''logout'' ''auth'' (Some (s_user_id sess)) None
              (Some [(''sessionId'', JInt (s_id sess))]);
            _ \<leftarrow> audit_service_log (Some (s_user_id sess)) ''session.revoked'' ''session'' (Some (s_id sess)) None
              (Some [(''reason'', JStr ''logout'')]);
            State_Monad.return (Inr ())
          }))
   }"

definition touch_session :: "int \<Rightarrow> (world, err + bool) state" where
  "touch_session sid = try_bind (session_repo_touch_activity sid) (\<lambda>rows. State_Monad.return (Inr (0 < rows)))"

definition list_active_sessions :: "int \<Rightarrow> (world, err + session list) state" where
  "list_active_sessions uid = session_repo_find_active_by_user_id uid"

definition opt_json :: "string option \<Rightarrow> json" where
  "opt_json x = (case x of None \<Rightarrow> JNull | Some v \<Rightarrow> JStr v)"

definition revoke_session :: "int \<Rightarrow> int \<Rightarrow> (world, err + unit) state" where
  "revoke_session sid uid =
     try_bind (session_repo_find_by_id sid) (\<lambda>sess.
       if s_user_id sess \<noteq> uid then State_Monad.return (Inl (ErrText ''unauthorized to revoke this session''))
       else try_bind (session_repo_revoke_with_timestamp sid) (\<lambda>_. do {
         _ \<leftarrow> audit_service_log (Some uid) ''session.revoked_manually'' ''sessions'' (Some sid)
           (Some [(''userAgent'', opt_json (s_user_agent sess)), (''ip'', opt_json (s_ip_address sess))]) None;
         State_Monad.return (Inr ())
       }))"

definition revoke_other_sessions :: "int \<Rightarrow> int \<Rightarrow> (world, err + unit) state" where
  "revoke_other_sessions uid current =
     try_bind (session_repo_revoke_all_by_user_except_current uid current) (\<lambda>_. do {
       _ \<leftarrow> audit_service_log (Some uid) ''sessions.revoked_others'' ''users'' (Some uid) None None;
       State_Monad.return (Inr ())
     })"

section \<open>Every operation evolves the database\<close>

lemma evolves_auth_parts [respects]:
  "state_io_rel (on_db evolves) (check l tr key)"
  "state_io_rel (on_db evolves) (reset l key)"
  "state_io_rel (on_db evolves) (hash_password k p plain)"
  "state_io_rel (on_db evolves) (generate_access_token L t u sid)"
  "state_io_rel (on_db evolves) (validate_access_token L token)"
  unfolding check_def reset_def hash_password_def generate_access_token_def validate_access_token_def rdb_defs
  by (intro ev.on_rules respects)+

lemma evolves_auth [respects]:
  "state_io_rel (on_db evolves) (check_login_rate_limit s key email ip)"
  "state_io_rel (on_db evolves) (create_session s u ip ua)"
  "state_io_rel (on_db evolves) (login_success s u email ip ua)"
  "state_io_rel (on_db evolves) (handle_refresh_miss s h ip)"
  unfolding check_login_rate_limit_def audit_rate_limit_block_def create_session_def login_success_def
    handle_refresh_miss_def generate_refresh_token_def
  by (intro ev.on_rules respects)+

lemma evolves_auth_service [respects]:
  "state_io_rel (on_db evolves) (login s email pw ip ua)"
  "state_io_rel (on_db evolves) (refresh s token ip ua)"
  "state_io_rel (on_db evolves) (logout s token)"
  "state_io_rel (on_db evolves) (touch_session sid)"
  "state_io_rel (on_db evolves) (list_active_sessions uid)"
  "state_io_rel (on_db evolves) (revoke_session sid uid)"
  "state_io_rel (on_db evolves) (revoke_other_sessions uid sid)"
  unfolding login_def login_credentials_def login_found_def dummy_verify_return audit_login_failed_def refresh_def refresh_active_def rotate_session_def
    logout_def touch_session_def list_active_sessions_def
    revoke_session_def revoke_other_sessions_def
  by (intro ev.on_rules respects)+

end
