(* ===== verification/Auth_Lemmas.thy ===== *)
theory Auth_Lemmas
  imports Auth_Service
begin

text \<open>
  What the steps of the authentication service do to the tables: the limiter and the credentials
  only touch Redis and the trail, the creation of a session appends one row, a revocation marks
  the rows it names. The properties of the service rest on these.
\<close>

section \<open>Steps that leave the tables to the trail\<close>

lemma only_audit_limiter [respects]:
  "state_io_rel (on_db only_audit) (check l tr key)"
  "state_io_rel (on_db only_audit) (reset l key)"
  "state_io_rel (on_db only_audit) (check_login_rate_limit s key email ip)"
  unfolding check_login_rate_limit_def audit_rate_limit_block_def check_def reset_def rdb_defs
  by (intro oa.on_rules respects)+

lemma only_audit_reads_repo [respects]:
  "state_io_rel (on_db only_audit) (user_repo_find_by_email email)"
  "state_io_rel (on_db only_audit) (user_repo_find_by_id uid)"
  "state_io_rel (on_db only_audit) (session_repo_find_active_by_token_hash h)"
  "state_io_rel (on_db only_audit) (session_repo_find_by_token_hash h)"
  "state_io_rel (on_db only_audit) (session_repo_find_by_id sid)"
  unfolding repository_defs
  by (intro oa.on_rules respects oa.on_db_call, simp_all add: oa.Q_refl)+

lemma only_audit_cache [respects]:
  "state_io_rel (on_db only_audit) (audit_login_failed email ip reason)"
  unfolding audit_login_failed_def by (intro oa.on_rules respects)

lemma only_audit_tokens [respects]:
  "state_io_rel (on_db only_audit) (hash_password k p plain)"
  "state_io_rel (on_db only_audit) generate_refresh_token"
  "state_io_rel (on_db only_audit) (generate_access_token L t u sid)"
  unfolding hash_password_def generate_refresh_token_def generate_access_token_def
  by (intro oa.on_rules respects)+

lemma clock_monoD: "state_io_rel clock_mono m \<Longrightarrow> run_state m w = (r, w') \<Longrightarrow> clock w \<le> clock w'"
  using run_respects [of clock_mono] by (auto simp: clock_mono_def)

lemma clock_mono_auth [respects]:
  "state_io_rel clock_mono (audit_service_log uid action entity eid old new)"
  "state_io_rel clock_mono (log_security_alert uid reason m)"
  "state_io_rel clock_mono generate_refresh_token"
  "state_io_rel clock_mono (generate_access_token L t u sid)"
  "state_io_rel clock_mono (session_repo_create row)"
  "state_io_rel clock_mono (invalidate_user_cache pc i)"
  "state_io_rel clock_mono (session_repo_revoke_with_timestamp sid)"
  unfolding audit_service_log_def log_security_alert_def generate_refresh_token_def
    generate_access_token_def repository_defs invalidate_user_cache_def invalidate_cache_def
    cache_invalidate_def rdb_defs
  by (intro cm.step_rules respects)+

section \<open>Creating a session\<close>

definition new_row :: "auth_service \<Rightarrow> user \<Rightarrow> string \<Rightarrow> string \<Rightarrow> string \<Rightarrow> int \<Rightarrow> int \<Rightarrow> session" where
  "new_row s u ip ua token expires now =
     \<lparr>s_id = 0, s_user_id = u_id u, s_refresh_token_hash = hash_token s token,
      s_expires_at = expires, s_revoked = False, s_revoked_at = None,
      s_ip_address = (if ip \<noteq> [] then Some ip else None),
      s_user_agent = (if ua \<noteq> [] then Some ua else None),
      s_last_activity_at = Some now, s_created_at = 0\<rparr>"

lemma create_session_run:
  assumes "run_state (create_session s u ip ua) w = (r, w')"
  obtains (failed) e where "r = Inl e" "only_audit (db w) (db w')"
  | (tried) w1 w2 x token expires now where "only_audit (db w) (db w1)" "clock w \<le> expires - as_refresh_ttl s"
      "expires - as_refresh_ttl s \<le> now" "now \<le> clock w1"
      "run_state (db_call (q_session_create (new_row s u ip ua token expires now))) w1 = (x, w2)"
      "only_audit (db w2) (db w')" "clock w2 \<le> clock w'"
      "\<And>pair. r = Inr pair \<Longrightarrow> \<exists>row. x = Inr row \<and> tp_refresh_token pair = token \<and>
         tp_refresh_expires_at pair = expires \<and> tp_session_id pair = s_id row"
proof -
  from assms consider (no) e where "run_state generate_refresh_token w = (Inl e, w')" "r = Inl e"
    | (go) token v where "run_state generate_refresh_token w = (Inr token, v)"
      "run_state (do {
         now0 \<leftarrow> time_now;
         (let expires_at = now0 + as_refresh_ttl s in do {
            now \<leftarrow> time_now;
            try_bind (session_repo_create (new_row s u ip ua token expires_at now)) (\<lambda>row.
            try_bind (generate_access_token (as_jwt s) (as_access_ttl s) u (s_id row)) (\<lambda>access_token. do {
              _ \<leftarrow> audit_service_log (Some (u_id u)) ''session.created'' ''session'' (Some (s_id row)) None
                (Some [(''sessionId'', JInt (s_id row)), (''ip'', JStr ip)]);
              State_Monad.return (Inr \<lparr>tp_access_token = access_token, tp_refresh_token = token,
                tp_refresh_expires_at = expires_at, tp_session_id = s_id row\<rparr>)
            }))
          })
       }) v = (r, w')"
    unfolding create_session_def new_row_def by (elim try_bindE) auto
  then show thesis
  proof cases
    case no
    then show thesis using failed only_auditD [OF only_audit_tokens(2)] by blast
  next
    case (go token v)
    note oa1 = only_auditD [OF only_audit_tokens(2) go(1)] and c1 = clock_monoD [OF clock_mono_auth(3) go(1)]
    define w1 where "w1 = elapse (elapse v)"
    define expires where "expires = clock (elapse v) + as_refresh_ttl s"
    from go(2) have body: "run_state (try_bind (session_repo_create (new_row s u ip ua token expires (clock w1))) (\<lambda>row.
            try_bind (generate_access_token (as_jwt s) (as_access_ttl s) u (s_id row)) (\<lambda>access_token. do {
              _ \<leftarrow> audit_service_log (Some (u_id u)) ''session.created'' ''session'' (Some (s_id row)) None
                (Some [(''sessionId'', JInt (s_id row)), (''ip'', JStr ip)]);
              State_Monad.return (Inr \<lparr>tp_access_token = access_token, tp_refresh_token = token,
                tp_refresh_expires_at = expires, tp_session_id = s_id row\<rparr>)
            }))) w1 = (r, w')"
      by (simp add: Let_def w1_def expires_def del: run_try_bind)
    have pre: "only_audit (db w) (db w1)" "clock w \<le> expires - as_refresh_ttl s"
      "expires - as_refresh_ttl s \<le> clock w1" "clock w1 \<le> clock w1"
      using oa1 c1 elapse_clock [of v] elapse_clock [of "elapse v"] by (simp_all add: w1_def expires_def)
    from body show thesis
    proof (cases rule: try_bindE)
      case (stop e)
      then show thesis
        using tried [OF pre, of token "Inl e" w'] by (simp add: session_repo_create_def oa.Q_refl)
    next
      case (go row w2)
      from go(2) have "only_audit (db w2) (db w') \<and> clock w2 \<le> clock w' \<and>
          (\<forall>pair. r = Inr pair \<longrightarrow> tp_refresh_token pair = token \<and>
           tp_refresh_expires_at pair = expires \<and> tp_session_id pair = s_id row)"
      proof (cases rule: try_bindE)
        case (stop e)
        then show ?thesis
          using only_auditD [OF only_audit_tokens(3) stop(1)] clock_monoD [OF clock_mono_auth(4) stop(1)] by simp
      next
        case (go access_token w3)
        from go(2) obtain w4 where log: "run_state (audit_service_log (Some (u_id u)) ''session.created'' ''session''
            (Some (s_id row)) None (Some [(''sessionId'', JInt (s_id row)), (''ip'', JStr ip)])) w3 = ((), w')"
          and r: "r = Inr \<lparr>tp_access_token = access_token, tp_refresh_token = token,
                tp_refresh_expires_at = expires, tp_session_id = s_id row\<rparr>"
          by (auto split: prod.splits)
        show ?thesis
          using only_auditD [OF only_audit_tokens(3) go(1)] only_auditD [OF only_audit_log(1) log]
            clock_monoD [OF clock_mono_auth(4) go(1)] clock_monoD [OF clock_mono_auth(1) log] r
          by (auto intro: oa.Q_trans)
      qed
      then show thesis
        using tried [OF pre, of token "Inr row" w2] go(1) by (auto simp: session_repo_create_def)
    qed
  qed
qed

text \<open>The row a token pair belongs to.\<close>

definition opens :: "auth_service \<Rightarrow> int \<Rightarrow> token_pair \<Rightarrow> session \<Rightarrow> bool" where
  "opens s uid pair row \<longleftrightarrow> s_id row = tp_session_id pair \<and> s_user_id row = uid \<and>
     s_refresh_token_hash row = hash_token s (tp_refresh_token pair) \<and>
     s_expires_at row = tp_refresh_expires_at pair \<and> \<not> s_revoked row"

lemma create_session_effect:
  assumes run: "run_state (create_session s u ip ua) w = (r, w')"
  shows "same_accounts (db w) (db w') \<and>
    (\<forall>pair. r = Inr pair \<longrightarrow> (\<exists>row. sessions (db w') = sessions (db w) @ [row] \<and> opens s (u_id u) pair row \<and>
       s_id row = next_session_id (db w) \<and>
       clock w + as_refresh_ttl s \<le> s_expires_at row \<and> s_expires_at row \<le> clock w' + as_refresh_ttl s)) \<and>
    (\<forall>e. r = Inl e \<longrightarrow> sessions (db w') = sessions (db w) \<or>
       (\<exists>row. sessions (db w') = sessions (db w) @ [row] \<and> s_user_id row = u_id u \<and> s_id row = next_session_id (db w)))"
  using run
proof (cases rule: create_session_run)
  case (failed e)
  then show ?thesis using only_audit_accounts by blast
next
  case (tried w1 w2 x token expires now)
  define row where "row = (new_row s u ip ua token expires now)\<lparr>s_id := next_session_id (db w1), s_created_at := clock w2\<rparr>"
  let ?f = "q_session_create (new_row s u ip ua token expires now) (clock w2) (db w1)"
  have pre: "same_accounts (db w) (db w1)" "sessions (db w1) = sessions (db w)" "next_session_id (db w1) = next_session_id (db w)"
    using only_audit_accounts [OF tried(1)] by auto
  have post: "same_accounts (db w2) (db w')" "sessions (db w') = sessions (db w2)"
    using only_audit_accounts [OF tried(6)] by auto
  have f: "same_accounts (db w1) (snd ?f) \<and> (fst ?f = Inr row \<and> sessions (snd ?f) = sessions (db w1) @ [row] \<or>
      fst ?f = Inl ErrDb \<and> sessions (snd ?f) = sessions (db w1))"
    by (simp add: q_session_create_def Let_def row_def same_accounts_def)
  have eff: "same_accounts (db w1) (db w2)" "sessions (db w2) = sessions (db w1) \<or> sessions (db w2) = sessions (db w1) @ [row]"
    using run_db_call(6) [OF tried(5)] f by (auto simp: same_accounts_def)
  have acc: "same_accounts (db w) (db w')"
    using pre(1) eff(1) post(1) same_accounts_trans by blast
  have row: "s_user_id row = u_id u" "s_id row = next_session_id (db w)"
    by (simp_all add: row_def new_row_def pre(3))
  show ?thesis
  proof (cases r)
    case (Inl e)
    then show ?thesis using acc eff(2) pre(2) post(2) row by auto
  next
    case (Inr pair)
    then obtain q where q: "x = Inr q" "tp_refresh_token pair = token" "tp_refresh_expires_at pair = expires"
      "tp_session_id pair = s_id q" using tried(8) by blast
    have "fst ?f = Inr q" "db w2 = snd ?f"
      using db_call_Inr [OF tried(5) [unfolded q(1)]] by auto
    with f have "q = row" "sessions (db w2) = sessions (db w1) @ [row]" by auto
    moreover have "opens s (u_id u) pair row"
      using q \<open>q = row\<close> by (simp add: opens_def row_def new_row_def)
    moreover have "s_expires_at row = expires" by (simp add: row_def new_row_def)
    moreover have "clock w1 \<le> clock w2" using run_db_call_clock [OF tried(5)] .
    ultimately show ?thesis using Inr acc pre post row tried(2,3,4,7) by auto
  qed
qed

end
