(* ===== verification/Auth_Properties.thy ===== *)
theory Auth_Properties
  imports Auth_Lemmas
begin

text \<open>The properties of the authentication service, each with an instance.\<close>

section \<open>A service to try them on\<close>

definition sample_geo_lib :: geo_lib where
  "sample_geo_lib = \<lparr>gl_marshal = (\<lambda>i. Inr (ll_country i)), gl_unmarshal = (\<lambda>b. Inl (ErrLib ''json'')),
     gl_valid_ip = (\<lambda>ip. True), gl_country = (\<lambda>ip. Inr [])\<rparr>"

definition sample_service :: auth_service where
  "sample_service = \<lparr>as_limiter = sample_limiter, as_ttl_reply = id,
     as_perm_cache = \<lparr>pc_prefix = ''auth:'', pc_ttl = 300000000\<rparr>, as_last_login = None, as_geo = Nop,
     as_geo_lib = sample_geo_lib, as_kdf = sample_kdf, as_params = sample_params, as_dummy_hash = [],
     as_jwt = sample_jwt, as_sha256 = id, as_access_ttl = 900000000, as_refresh_ttl = 604800000000,
     as_travel_window = 30 * minute\<rparr>"

definition sample_raw :: "nat \<Rightarrow> string" where
  "sample_raw n = replicate 32 (char_of n)"

definition sample_session :: "int \<Rightarrow> int \<Rightarrow> string \<Rightarrow> session" where
  "sample_session sid uid token = \<lparr>s_id = sid, s_user_id = uid, s_refresh_token_hash = hash_token sample_service token,
     s_expires_at = 1000000, s_revoked = False, s_revoked_at = None, s_ip_address = None, s_user_agent = None,
     s_last_activity_at = None, s_created_at = 0\<rparr>"

definition session_world :: world where
  "session_world = sample_world\<lparr>
     db := sample_db\<lparr>sessions := [sample_session 1 1 ''a'', sample_session 2 1 ''b'', sample_session 3 2 ''c''],
                      next_session_id := 4\<rparr>,
     entropy := [sample_raw 7]\<rparr>"

lemma session_world_wf: "db_wf (db session_world)"
  by (simp add: wf_defs ids_ok_def role_exists_def session_world_def sample_session_def sample_defs)

lemma sample_raw_length: "length (sample_raw n) = 32"
  by (simp add: sample_raw_def)

lemma sample_token: "b64_encode url_alphabet (sample_raw 7) = ''BwcHBwcHBwcHBwcHBwcHBwcHBwcHBwcHBwcHBwcHBwc''"
  by code_simp

lemmas auth_eval = session_world_def sample_session_def sample_service_def sample_kdf_def sample_params_def
  sample_jwt_def sample_sign_def sample_token sample_raw_length sample_limiter_def sample_geo_lib_def db_eval
  hash_token_def hex_encode_def hex_lower_digit_def byte_def blank_def in_int64_def unix_time_def
  create_session_def generate_refresh_token_def rand_read_def generate_access_token_def audit_service_log_def
  invalidate_user_cache_def invalidate_cache_def cache_invalidate_def rdb_defs run_redis_call_ok del_cmd_def
  refresh_def refresh_active_def rotate_session_def

section \<open>Refresh\<close>

lemma find_active_Inr:
  assumes "run_state (session_repo_find_active_by_token_hash h) w = (Inr x, w1)"
  shows "x \<in> set (sessions (db w))" "s_refresh_token_hash x = h" "\<not> s_revoked x" "clock w < s_expires_at x" "db w1 = db w"
proof -
  from assms have call: "run_state (db_call (q_session_by (\<lambda>s. s_refresh_token_hash s = h \<and> active_at (clock (elapse w)) s)))
      (elapse w) = (Inr x, w1)"
    by (simp add: session_repo_find_active_by_token_hash_def)
  show "x \<in> set (sessions (db w))" "s_refresh_token_hash x = h" "\<not> s_revoked x" "clock w < s_expires_at x"
    using session_by_Inr [OF call] elapse_clock [of w] by (auto simp: active_at_def)
  show "db w1 = db w" using db_call_Inr [OF call] by simp
qed

lemma miss_gives_no_pair: "run_state (handle_refresh_miss s h ip) w \<noteq> (Inr pair, w')"
  unfolding handle_refresh_miss_def by (auto split: prod.splits sum.splits if_splits)

lemma rotate_effect:
  assumes "run_state (rotate_session s u sess ip ua) w = (Inr pair, w')"
  shows "\<exists>row now. sessions (db w') = revoke_where (\<lambda>x. s_id x = s_id sess) now (sessions (db w)) @ [row] \<and>
      opens s (u_id u) pair row \<and> s_id row = next_session_id (db w) \<and> same_accounts (db w) (db w')"
proof -
  from assms obtain w3 w4 w5 x y where rev: "run_state (session_repo_revoke_with_timestamp (s_id sess)) w = (Inr (), w3)"
    and cre: "run_state (create_session s u ip ua) w3 = (Inr pair, w4)"
    and log: "run_state (audit_service_log (Some (u_id u)) ''session.refreshed'' ''session'' (Some (s_id sess)) None
        (Some [(''oldSessionId'', JInt (s_id sess)), (''newSessionId'', JInt (tp_session_id pair))])) w4 = (x, w5)"
    and inv: "run_state (invalidate_user_cache (as_perm_cache s) (u_id u)) w5 = (y, w')"
    unfolding rotate_session_def run_try_bind_Inr run_bind_eq by auto
  obtain now where db3: "db w3 = (db w)\<lparr>sessions := revoke_where (\<lambda>x. s_id x = s_id sess) now (sessions (db w))\<rparr>"
    using rev unfolding session_repo_revoke_with_timestamp_def by (cases rule: revoke_run_Inr)
  have oa: "only_audit (db w4) (db w')"
    using only_auditD [OF only_audit_log(1) log] only_auditD [OF only_audit_invalidate inv] by (rule oa.Q_trans)
  from create_session_effect [OF cre] only_audit_accounts [OF oa] show ?thesis
    by (auto simp: db3 same_accounts_def)
qed

lemma refresh_effect:
  assumes run: "run_state (refresh s token ip ua) w = (Inr pair, w')"
  shows "\<exists>old\<in>set (sessions (db w)). s_refresh_token_hash old = hash_token s token \<and> \<not> s_revoked old \<and>
     clock w < s_expires_at old \<and> (\<exists>u\<in>set (users (db w)). u_id u = s_user_id old \<and> u_active u) \<and>
     (\<exists>row now. sessions (db w') = revoke_where (\<lambda>x. s_id x = s_id old) now (sessions (db w)) @ [row] \<and>
        opens s (s_user_id old) pair row \<and> s_id row = next_session_id (db w)) \<and>
     same_accounts (db w) (db w')"
proof -
  from run obtain found w1 where f0: "run_state (session_repo_find_active_by_token_hash (hash_token s token)) w = (found, w1)"
    and act0: "run_state (case found of Inl e \<Rightarrow> if e = ErrNotFound then handle_refresh_miss s (hash_token s token) ip
          else State_Monad.return (Inl e) | Inr sess \<Rightarrow> refresh_active s sess ip ua) w1 = (Inr pair, w')"
    unfolding refresh_def Let_def run_bind_eq by blast
  from act0 obtain sess where found: "found = Inr sess"
    by (cases found) (simp_all add: miss_gives_no_pair split: if_splits)
  note f = f0 [unfolded found] and act = act0 [unfolded found sum.case]
  from act obtain owner w2 where o0: "run_state (user_repo_find_by_id (s_user_id sess)) w1 = (owner, w2)"
    and rot0: "run_state (case owner of Inl e \<Rightarrow> State_Monad.return (Inl ErrInvalidSession)
      | Inr view \<Rightarrow> if \<not> u_active (uv_user view) then State_Monad.return (Inl ErrInvalidSession)
          else rotate_session s (uv_user view) sess ip ua) w2 = (Inr pair, w')"
    unfolding refresh_active_def run_bind_eq by blast
  from rot0 obtain view where owner: "owner = Inr view" and active: "u_active (uv_user view)"
    and rot: "run_state (rotate_session s (uv_user view) sess ip ua) w2 = (Inr pair, w')"
    by (cases owner) (simp_all split: if_splits)
  note o = o0 [unfolded owner]
  note sess = find_active_Inr [OF f] and usr = user_by_id_Inr [OF o]
  have "db w2 = db w" using quietD [OF quiet_repository(2) o] sess(5) by (simp add: quiet_def)
  moreover have "uv_user view \<in> set (users (db w))" using usr(1) sess(5) by (auto dest: find_Some_member)
  ultimately show ?thesis
    using rotate_effect [OF rot] sess active usr(2) by (intro bexI [of _ sess]) auto
qed

text \<open>
  C1: a refresh token that is accepted is used up. A refresh that answers with a new pair had, in
  the tables, an unexpired and unrevoked session of an active user under the hash of the token;
  afterwards that session is revoked, one new session of the same user is there under the hash of
  the new token, and no other row and no account has changed.
\<close>

theorem refresh_rotates:
  assumes run: "run_state (refresh s token ip ua) w = (Inr pair, w')"
  shows "\<exists>old\<in>set (sessions (db w)). s_refresh_token_hash old = hash_token s token \<and> \<not> s_revoked old \<and>
     clock w < s_expires_at old \<and> (\<exists>u\<in>set (users (db w)). u_id u = s_user_id old \<and> u_active u) \<and>
     (\<exists>row now. sessions (db w') = revoke_where (\<lambda>x. s_id x = s_id old) now (sessions (db w)) @ [row] \<and>
        opens s (s_user_id old) pair row \<and> s_id row = next_session_id (db w)) \<and>
     same_accounts (db w) (db w')"
  by (rule refresh_effect [OF run])

theorem refresh_rotates_witness:
  "\<exists>pair w'. run_state (refresh sample_service ''a'' ''ip'' []) session_world = (Inr pair, w') \<and>
     (\<exists>old\<in>set (sessions (db session_world)). s_refresh_token_hash old = hash_token sample_service ''a'' \<and>
       (\<exists>row now. sessions (db w') = revoke_where (\<lambda>x. s_id x = s_id old) now (sessions (db session_world)) @ [row]))"
proof -
  let ?run = "run_state (refresh sample_service ''a'' ''ip'' []) session_world"
  have "fst ?run \<in> range Inr"
    by (simp add: auth_eval sample_defs)
  then obtain pair w' where run: "?run = (Inr pair, w')" by (cases ?run) auto
  from refresh_rotates [OF run] run show ?thesis by blast
qed

section \<open>Reuse of a token\<close>

lemma healthy_read:
  assumes "db_faults w = []" and "\<And>now d. snd (f now d) = d"
  shows "run_state (db_call f) w = (fst (f (clock (elapse w)) (db w)), elapse w)"
proof -
  have "(elapse w)\<lparr>db := db w\<rparr> = elapse w" by (cases "elapse w") (metis elapse_simps(1) world.select_convs(3) world.update_convs(3))
  with assms show ?thesis by (simp add: run_db_call_ok)
qed

lemma find_active_healthy:
  assumes "db_faults w = []" and "\<forall>y\<in>set (sessions (db w)). s_refresh_token_hash y = h \<longrightarrow> s_revoked y"
  obtains w1 where "run_state (session_repo_find_active_by_token_hash h) w = (Inl ErrNotFound, w1)"
    "db w1 = db w" "db_faults w1 = []"
proof -
  have "find (\<lambda>s. s_refresh_token_hash s = h \<and> active_at t s) (sessions (db w)) = None" for t
    using assms(2) by (auto simp: find_None_iff active_at_def)
  with assms(1) that show thesis
    by (simp add: session_repo_find_active_by_token_hash_def healthy_read q_session_by_def)
qed

lemma find_by_hash_healthy:
  assumes "db_faults w = []" and "x \<in> set (sessions (db w))" and "s_refresh_token_hash x = h"
  obtains y w1 where "run_state (session_repo_find_by_token_hash h) w = (Inr y, w1)"
    "y \<in> set (sessions (db w))" "s_refresh_token_hash y = h" "db w1 = db w" "db_faults w1 = []"
proof -
  obtain y where y: "find (\<lambda>s. s_refresh_token_hash s = h) (sessions (db w)) = Some y"
    using assms(2,3) by (cases "find (\<lambda>s. s_refresh_token_hash s = h) (sessions (db w))") (auto simp: find_None_iff)
  then have "y \<in> set (sessions (db w))" "s_refresh_token_hash y = h" by (auto dest: find_Some_member)
  with y assms(1) that show thesis
    by (simp add: session_repo_find_by_token_hash_def healthy_read q_session_by_def)
qed

text \<open>
  C6: a refresh token that was rotated away is an alarm. When a token is presented whose sessions
  are all revoked, the caller gets no pair, every session of the owner is revoked, and the trail
  ends with a security alert that names the owner. (This is with a working database: an error of
  the revocation is only logged.)
\<close>

theorem reuse_revokes_all:
  assumes run: "run_state (refresh s token ip ua) w = (r, w')" and healthy: "db_faults w = []"
    and wf: "db_wf (db w)"
    and known: "x \<in> set (sessions (db w))" "s_refresh_token_hash x = hash_token s token"
    and dead: "\<And>y. y \<in> set (sessions (db w)) \<Longrightarrow> s_refresh_token_hash y = hash_token s token \<Longrightarrow>
      s_revoked y \<and> s_user_id y = s_user_id x"
  shows "r = Inl ErrTokenReuse \<and> (\<forall>y\<in>set (sessions (db w')). s_user_id y = s_user_id x \<longrightarrow> s_revoked y) \<and>
    al_action (last (audit_logs (db w'))) = ''security.alert'' \<and>
    al_user_id (last (audit_logs (db w'))) = Some (s_user_id x)"
proof -
  obtain w1 where w1: "run_state (session_repo_find_active_by_token_hash (hash_token s token)) w = (Inl ErrNotFound, w1)"
    "db w1 = db w" "db_faults w1 = []"
    using find_active_healthy [OF healthy] dead by blast
  obtain y w2 where w2: "run_state (session_repo_find_by_token_hash (hash_token s token)) w1 = (Inr y, w2)"
      "y \<in> set (sessions (db w))" "s_refresh_token_hash y = hash_token s token" "db w2 = db w" "db_faults w2 = []"
    using find_by_hash_healthy [OF w1(3), of x "hash_token s token"] known w1(2) by metis
  have y: "s_revoked y" "s_user_id y = s_user_id x" using dead [OF w2(2,3)] by auto
  obtain q w3 where rev0: "run_state (session_repo_revoke_all_by_user (s_user_id x)) w2 = (q, w3)"
    by (cases "run_state (session_repo_revoke_all_by_user (s_user_id x)) w2")
  then obtain now where w3: "db w3 = (db w2)\<lparr>sessions := revoke_where (\<lambda>t. s_user_id t = s_user_id x) now (sessions (db w2))\<rparr>"
    "db_faults w3 = []"
    unfolding session_repo_revoke_all_by_user_def by (rule revoke_run_healthy [OF _ w2(5)])
  let ?log = "audit_service_log (Some (s_user_id x)) ''session.revoked'' ''session'' (Some (s_id y)) None
      (Some [(''reason'', JStr ''refresh_token_reuse''), (''sessionId'', JInt (s_id y))])"
  let ?alert = "log_security_alert (Some (s_user_id x)) ''refresh_token_reuse''
      (Some [(''sessionId'', JInt (s_id y)), (''ip'', JStr ip)])"
  obtain w4 where l1: "run_state ?log w3 = ((), w4)" by (cases "run_state ?log w3") auto
  from run w1(1) w2(1) y rev0 l1 have l2: "run_state ?alert w4 = ((), w')" and r: "r = Inl ErrTokenReuse"
    by (auto simp: refresh_def Let_def handle_refresh_miss_def split: prod.splits)
  have owner: "s_user_id x \<in> user_ids (db w)" using wf known(1) by (simp add: wf_defs)
  have ids: "user_ids (db w3) = user_ids (db w)" by (simp add: w3 w2(4) user_ids_def)
  note first = audit_log_written [OF l1 w3(2)]
  have oa: "only_audit (db w3) (db w4)" "only_audit (db w4) (db w')"
    using only_auditD [OF only_audit_log(1) l1] only_auditD [OF only_audit_log(2) l2] .
  have "user_ids (db w4) = user_ids (db w)" using oa(1) ids by (simp add: only_audit_def user_ids_def)
  then have tail: "al_action (last (audit_logs (db w'))) = ''security.alert''"
      "al_user_id (last (audit_logs (db w'))) = Some (s_user_id x)"
    using audit_log_written [OF l2 [unfolded log_security_alert_def Let_def]] first(2) owner ids by auto
  have "sessions (db w') = revoke_where (\<lambda>t. s_user_id t = s_user_id x) now (sessions (db w))"
    using oa w3(1) w2(4) by (simp add: only_audit_def)
  then have "\<forall>t\<in>set (sessions (db w')). s_user_id t = s_user_id x \<longrightarrow> s_revoked t"
    using revoke_where_effect [of _ "\<lambda>t. s_user_id t = s_user_id x" now "sessions (db w)"]
    by (auto simp: session_later_def)
  with r tail show ?thesis by blast
qed

theorem reuse_revokes_all_witness:
  "fst (run_state (refresh sample_service ''a'' ''ip'' [])
     (snd (run_state (refresh sample_service ''a'' ''ip'' []) session_world))) = Inl ErrTokenReuse"
proof -
  define w where "w = snd (run_state (refresh sample_service ''a'' ''ip'' []) session_world)"
  let ?run = "run_state (refresh sample_service ''a'' ''ip'' []) w"
  have "db_wf (db w)"
    unfolding w_def by (rule wf_after [OF evolves_auth_service(2) session_world_wf])
  moreover have "db_faults w = []" "revoke_row 0 (sample_session 1 1 ''a'') \<in> set (sessions (db w))"
    "\<And>y. y \<in> set (sessions (db w)) \<Longrightarrow> s_refresh_token_hash y = hash_token sample_service ''a'' \<Longrightarrow>
         s_revoked y \<and> s_user_id y = 1"
    by (auto simp: w_def auth_eval sample_defs)
  ultimately show ?thesis
    using reuse_revokes_all [of sample_service "''a''" "''ip''" "[]" w "fst ?run" "snd ?run"
        "revoke_row 0 (sample_session 1 1 ''a'')"]
    unfolding w_def [symmetric] by (auto simp: revoke_row_def sample_session_def)
qed

section \<open>Login\<close>

text \<open>The credentials name an active user whose hash accepts the password.\<close>

definition credentials_ok :: "auth_service \<Rightarrow> database \<Rightarrow> string \<Rightarrow> string \<Rightarrow> user \<Rightarrow> bool" where
  "credentials_ok s d email pw u \<longleftrightarrow> find (\<lambda>u. u_email u = email) (users d) = Some u \<and> u_active u \<and>
     (case verify (as_kdf s) (u_password_hash u) pw of Inl _ \<Rightarrow> False | Inr _ \<Rightarrow> True)"

lemma rate_limit_errors:
  "run_state (check_login_rate_limit s key email ip) w = (Inl e, w') \<Longrightarrow> e = ErrRateLimited \<or> e = ErrRateLimitDown"
  unfolding check_login_rate_limit_def by (auto split: prod.splits sum.splits if_splits)

lemma login_success_effect:
  assumes "run_state (login_success s u email ip ua) w = (Inr pair, w')"
  shows "\<exists>row. sessions (db w') = sessions (db w) @ [row] \<and> opens s (u_id u) pair row \<and> s_id row = next_session_id (db w)"
proof -
  from assms obtain w1 where cre: "run_state (create_session s u ip ua) w = (Inr pair, w1)"
    and tail: "run_state (do {
       _ \<leftarrow> reset (as_limiter s) (login_email_key email);
       _ \<leftarrow> reset (as_limiter s) (login_ip_key ip);
       _ \<leftarrow> audit_service_log (Some (u_id u)) ''login.success'' ''auth'' (Some (u_id u)) None
         (Some [(''email'', JStr email), (''ip'', JStr ip), (''sessionId'', JInt (tp_session_id pair))]);
       _ \<leftarrow> check_impossible_travel (as_geo_lib s) (as_geo s) (as_last_login s) (as_travel_window s) (u_id u) ip;
       _ \<leftarrow> invalidate_user_cache (as_perm_cache s) (u_id u);
       State_Monad.return (Inr pair) :: (world, err + token_pair) state
     }) w1 = (Inr pair, w')"
    unfolding login_success_def run_try_bind_Inr run_bind_eq by (auto simp: run_bind_eq)
  have "only_audit (db w1) (db w')"
    by (rule only_auditD [OF _ tail]) (intro oa.on_rules respects)
  with create_session_effect [OF cre] show ?thesis
    using only_audit_accounts by fastforce
qed

lemma login_run:
  assumes "run_state (login s email pw ip ua) w = (r, w')"
  obtains (refused) e where "r = Inl e" "e \<in> {ErrInvalidCredentials, ErrRateLimited, ErrRateLimitDown, ErrDb}"
      "only_audit (db w) (db w')"
  | (accepted) u w1 where "credentials_ok s (db w) email pw u" "only_audit (db w) (db w1)"
      "run_state (login_success s u email ip ua) w1 = (r, w')"
  | (rehashed) u w1 new_hash w2 x where "credentials_ok s (db w) email pw u" "only_audit (db w) (db w1)"
      "run_state (user_repo_update_password_hash (u_id u) new_hash) w1 = (x, w2)"
      "run_state (login_success s u email ip ua) w2 = (r, w')"
  | (no_salt) u e where "credentials_ok s (db w) email pw u" "r = Inl e" "only_audit (db w) (db w')"
  using assms unfolding login_def
proof (cases rule: try_bindE)
  case (stop e)
  then show thesis
    using refused only_auditD [OF only_audit_limiter(3)] rate_limit_errors by blast
next
  case (go v0 w1)
  note oa1 = only_auditD [OF only_audit_limiter(3) go(1)]
  from go(2) show thesis
  proof (cases rule: try_bindE)
    case (stop e)
    then show thesis
      using refused only_auditD [OF only_audit_limiter(3) stop(1)] rate_limit_errors [of s _ email ip w1 e w'] oa1 oa.Q_trans
      by blast
  next
    case (go v1 w2)
    note oa2 = oa.Q_trans [OF oa1 only_auditD [OF only_audit_limiter(3) go(1)]]
    from go(2) obtain found w3 where f: "run_state (user_repo_find_by_email email) w2 = (found, w3)"
      and rest: "run_state (case found of
          Inl e \<Rightarrow>
            if e = ErrNotFound then
              do {
                _ \<leftarrow> dummy_verify (as_kdf s) (as_dummy_hash s) pw;
                _ \<leftarrow> audit_login_failed email ip ''user_not_found'';
                State_Monad.return (Inl ErrInvalidCredentials)
              }
            else State_Monad.return (Inl e)
        | Inr view \<Rightarrow> login_found s (uv_user view) email pw ip ua) w3 = (r, w')"
      unfolding login_credentials_def run_bind_eq by blast
    note oa3 = oa.Q_trans [OF oa2 only_auditD [OF only_audit_reads_repo(1) f]]
    have failed: thesis if "run_state (do { _ \<leftarrow> audit_login_failed email ip reason;
        State_Monad.return (Inl ErrInvalidCredentials) }) w3 = (r, w')" for reason
      using that refused oa.Q_trans [OF oa3] only_auditD [OF only_audit_cache] by (auto split: prod.splits)
    show thesis
    proof (cases found)
      case (Inl e)
      then have "e = ErrNotFound \<or> e = ErrDb" using f lookup_errors(2) by blast
      with rest Inl oa3 show thesis using refused failed by (auto split: if_splits)
    next
      case (Inr view)
      define u where "u = uv_user view"
      have rest: "run_state (login_found s u email pw ip ua) w3 = (r, w')" using rest Inr by (simp add: u_def)
      have u: "find (\<lambda>u. u_email u = email) (users (db w)) = Some u"
        using user_by_email_Inr(1) [OF f [unfolded Inr]] oa2 by (simp add: u_def only_audit_def)
      show thesis
      proof (cases "u_active u")
        case False
        then show thesis using rest failed by (simp add: login_found_def)
      next
        case active: True
        show thesis
        proof (cases "verify (as_kdf s) (u_password_hash u) pw")
          case (Inl e)
          then show thesis using rest failed active by (simp add: login_found_def)
        next
          case (Inr needs)
          then have ok: "credentials_ok s (db w) email pw u" using u active by (simp add: credentials_ok_def)
          show thesis
          proof (cases needs)
            case False
            then show thesis using rest Inr active accepted [OF ok oa3] by (simp add: login_found_def)
          next
            case True
            then have "run_state (try_bind (hash_password (as_kdf s) (as_params s) pw) (\<lambda>new_hash. do {
                       _ \<leftarrow> user_repo_update_password_hash (u_id u) new_hash;
                       login_success s u email ip ua
                     })) w3 = (r, w')"
              using rest Inr active by (simp add: login_found_def del: run_try_bind)
            then show thesis
            proof (cases rule: try_bindE)
              case (stop e)
              then show thesis using no_salt [OF ok] oa.Q_trans [OF oa3] only_auditD [OF only_audit_tokens(1)] by blast
            next
              case (go h w4)
              from go(2) obtain x w5 where "run_state (user_repo_update_password_hash (u_id u) h) w4 = (x, w5)"
                "run_state (login_success s u email ip ua) w5 = (r, w')" by (rule bindE)
              then show thesis
                by (rule rehashed [OF ok oa.Q_trans [OF oa3 only_auditD [OF only_audit_tokens(1) go(1)]]])
            qed
          qed
        qed
      qed
    qed
  qed
qed

end
