(* ===== verification/Login_Properties.thy ===== *)
theory Login_Properties
  imports Auth_Properties
begin

text \<open>
  The login: who gets a session, what a refused login leaves behind, and that the refusals of an
  unknown, an inactive and a mistaken user cannot be told apart by their answers.
\<close>

section \<open>Who gets in\<close>

text \<open>
  C4: a login that answers with a pair was made with the e-mail of an active user of the tables
  and a password that the user's stored hash accepts, and opened exactly one session, of that user
  and under the hash of the refresh token.
\<close>

theorem login_authenticates:
  assumes "run_state (login s email pw ip ua) w = (Inr pair, w')"
  shows "\<exists>u. credentials_ok s (db w) email pw u \<and>
    (\<exists>row. sessions (db w') = sessions (db w) @ [row] \<and> opens s (u_id u) pair row)"
  using assms
proof (cases rule: login_run)
  case (accepted u w1)
  then show ?thesis
    using login_success_effect [OF accepted(3)] only_audit_accounts [OF accepted(2)] by auto
next
  case (rehashed u w1 h w2 x)
  have "sessions (db w2) = sessions (db w1)"
    using rehashed(3) run_db_call(6)
    by (fastforce simp: user_repo_update_password_hash_def q_user_update_password_hash_def split: if_splits)
  then show ?thesis
    using login_success_effect [OF rehashed(4)] only_audit_accounts [OF rehashed(2)] rehashed(1) by auto
qed auto

definition login_world :: world where
  "login_world = session_world\<lparr>db := (db session_world)\<lparr>users := [alice\<lparr>u_password_hash := ''$2a$pw''\<rparr>, bob, carol]\<rparr>,
     entropy := [''sa'', sample_raw 7]\<rparr>"

lemmas login_eval = auth_eval login_world_def sample_defs login_def login_credentials_def login_found_def login_success_def check_login_rate_limit_def
  check_def reset_def ttl_cmd_def incr_cmd_def expire_cmd_def set_cmd_def get_int_cmd_def lookup_def client_key_def
  login_ip_key_def login_email_key_def block_duration_def default_login_rate_tiers_def dummy_verify_return
  audit_login_failed_def check_impossible_travel_def verify_def has_prefix_def hash_password_def

theorem login_authenticates_witness:
  "\<exists>pair w' u. run_state (login sample_service ''alice@x.io'' ''pw'' ''ip'' []) login_world = (Inr pair, w') \<and>
     credentials_ok sample_service (db login_world) ''alice@x.io'' ''pw'' u"
proof -
  let ?run = "run_state (login sample_service ''alice@x.io'' ''pw'' ''ip'' []) login_world"
  have "fst ?run \<in> range Inr" by (simp add: login_eval)
  then obtain pair w' where run: "?run = (Inr pair, w')" by (cases ?run) auto
  from login_authenticates [OF run] run show ?thesis by blast
qed

section \<open>Who does not\<close>

text \<open>
  C28: without valid credentials nobody gets in and nothing happens. The answer is one of four
  errors, and of the tables only the trail can have changed.
\<close>

theorem login_refused:
  assumes run: "run_state (login s email pw ip ua) w = (r, w')"
    and bad: "\<And>u. \<not> credentials_ok s (db w) email pw u"
  shows "(\<exists>e\<in>{ErrInvalidCredentials, ErrRateLimited, ErrRateLimitDown, ErrDb}. r = Inl e) \<and> only_audit (db w) (db w')"
  using run by (cases rule: login_run) (use bad in auto)

theorem login_refused_witness:
  "(\<exists>e\<in>{ErrInvalidCredentials, ErrRateLimited, ErrRateLimitDown, ErrDb}.
      fst (run_state (login sample_service ''bob@x.io'' ''pw'' ''ip'' []) login_world) = Inl e)"
proof -
  let ?run = "run_state (login sample_service ''bob@x.io'' ''pw'' ''ip'' []) login_world"
  have "\<not> credentials_ok sample_service (db login_world) ''bob@x.io'' ''pw'' u" for u
    by (auto simp: credentials_ok_def login_world_def session_world_def sample_defs verify_def has_prefix_def)
  from login_refused [OF _ this, of "''ip''" "[]" "fst ?run" "snd ?run"] show ?thesis by auto
qed

section \<open>No enumeration of users\<close>

text \<open>
  Two programs are alike when they give the same answer and leave the same world but for the
  tables, from any two worlds that differ in their tables only.
\<close>

definition sans_db :: "world \<Rightarrow> world" where
  "sans_db w = w\<lparr>db := empty_db\<rparr>"

definition alike :: "(world, 'a) state \<Rightarrow> (world, 'a) state \<Rightarrow> world \<Rightarrow> world \<Rightarrow> bool" where
  "alike m n v w \<longleftrightarrow> fst (run_state m v) = fst (run_state n w) \<and>
     sans_db (snd (run_state m v)) = sans_db (snd (run_state n w))"

lemma sans_db_parts:
  "sans_db v = sans_db w \<longleftrightarrow> clock v = clock w \<and> ticks v = ticks w \<and> db_faults v = db_faults w \<and>
     redis v = redis w \<and> redis_faults v = redis_faults w \<and> entropy v = entropy w"
  by (cases v; cases w) (auto simp: sans_db_def)

lemma sans_db_elapse: "sans_db v = sans_db w \<Longrightarrow> sans_db (elapse v) = sans_db (elapse w)"
  by (auto simp: sans_db_parts elapse_def split: list.splits)

lemma alike_return: "sans_db v = sans_db w \<Longrightarrow> alike (State_Monad.return a) (State_Monad.return a) v w"
  by (simp add: alike_def)

lemma alike_bind:
  assumes "alike m n v w"
    and "\<And>a v' w'. run_state m v = (a, v') \<Longrightarrow> run_state n w = (a, w') \<Longrightarrow> sans_db v' = sans_db w' \<Longrightarrow> alike (f a) (g a) v' w'"
  shows "alike (State_Monad.bind m f) (State_Monad.bind n g) v w"
proof -
  obtain a v' where m: "run_state m v = (a, v')" by (cases "run_state m v")
  then obtain w' where n: "run_state n w = (a, w')" and s: "sans_db v' = sans_db w'"
    using assms(1) by (cases "run_state n w") (auto simp: alike_def)
  from assms(2) [OF m n s] m n show ?thesis by (simp add: alike_def)
qed

lemma alike_try_bind:
  assumes "alike m n v w"
    and "\<And>a v' w'. run_state m v = (Inr a, v') \<Longrightarrow> run_state n w = (Inr a, w') \<Longrightarrow> sans_db v' = sans_db w' \<Longrightarrow> alike (f a) (g a) v' w'"
  shows "alike (try_bind m f) (try_bind n g) v w"
  unfolding try_bind_def
proof (rule alike_bind [OF assms(1)])
  fix a v' w'
  assume "run_state m v = (a, v')" "run_state n w = (a, w')" "sans_db v' = sans_db w'"
  then show "alike (case a of Inl e \<Rightarrow> State_Monad.return (Inl e) | Inr x \<Rightarrow> f x)
      (case a of Inl e \<Rightarrow> State_Monad.return (Inl e) | Inr x \<Rightarrow> g x) v' w'"
    using assms(2) by (cases a) (auto intro: alike_return)
qed

lemma alike_redis: "sans_db v = sans_db w \<Longrightarrow> alike (redis_call f) (redis_call f) v w"
  using sans_db_elapse [of v w]
  by (auto simp: alike_def redis_call_def Let_def sans_db_parts split: prod.splits list.splits io_fault.splits)

text \<open>A statement leaves the same world behind but for the tables, whatever it asks.\<close>

lemma sans_db_db_call:
  assumes "sans_db v = sans_db w"
  shows "sans_db (snd (run_state (db_call f) v)) = sans_db (snd (run_state (db_call g) w))"
  using assms sans_db_elapse [of v w]
  by (auto simp: db_call_def Let_def sans_db_parts split: prod.splits list.splits io_fault.splits)

lemma alike_audit:
  "sans_db v = sans_db w \<Longrightarrow> alike (audit_service_log a b c d e f) (audit_service_log a' b' c' d' e' f') v w"
  using sans_db_db_call [of v w]
  by (simp add: alike_def audit_service_log_def audit_repo_insert_def split_beta)

lemma alike_alert: "sans_db v = sans_db w \<Longrightarrow> alike (log_security_alert a b c) (log_security_alert a b c) v w"
  unfolding log_security_alert_def Let_def by (rule alike_audit)

lemma alike_limit:
  assumes "sans_db v = sans_db w"
  shows "alike (check_login_rate_limit s key email ip) (check_login_rate_limit s key email ip) v w"
  using assms unfolding check_login_rate_limit_def check_def audit_rate_limit_block_def rdb_defs Let_def
  by (auto intro!: alike_bind alike_try_bind alike_redis alike_return alike_audit alike_alert
      split: sum.splits prod.splits)

text \<open>The lookup of the user, and what follows, when the credentials are not valid.\<close>

lemma read_alike:
  assumes "\<And>now d. snd (f now d) = d"
  obtains (lost) w1 where "run_state (db_call f) w = (Inl ErrDb, w1)"
      "run_state (db_call (\<lambda>now d. (Inr () :: err + unit, d))) w = (Inl ErrDb, w1)"
  | (answered) w1 where "run_state (db_call f) w = (fst (f (clock w1) (db w)), w1)"
      "run_state (db_call (\<lambda>now d. (Inr () :: err + unit, d))) w = (Inr (), w1)"
proof -
  have f: "f (clock (elapse w)) (db w) = (fst (f (clock (elapse w)) (db w)), db w)"
    using assms by (metis prod.collapse)
  show thesis
  proof (cases "db_faults w")
    case Nil
    with f that(2) assms show thesis by (simp add: db_call_def Let_def split_beta)
  next
    case (Cons a fs)
    with f that assms show thesis by (cases a) (simp_all add: db_call_def Let_def split_beta)
  qed
qed

lemma login_credentials_bad:
  assumes "\<And>u. \<not> credentials_ok s (db w) email pw u"
  shows "\<exists>reason. run_state (login_credentials s email pw ip ua) w = run_state (do {
       ok \<leftarrow> db_call (\<lambda>now d. (Inr () :: err + unit, d));
       (case ok of Inl e \<Rightarrow> State_Monad.return (Inl e) | Inr _ \<Rightarrow> do {
          _ \<leftarrow> audit_login_failed email ip reason;
          State_Monad.return (Inl ErrInvalidCredentials) })
     }) w"
proof (rule read_alike [of "q_user_by_email email" w, OF reads(1)])
  fix w1
  assume "run_state (db_call (q_user_by_email email)) w = (Inl ErrDb, w1)"
    and "run_state (db_call (\<lambda>now d. (Inr () :: err + unit, d))) w = (Inl ErrDb, w1)"
  then show ?thesis by (simp add: login_credentials_def user_repo_find_by_email_def)
next
  fix w1
  assume answered: "run_state (db_call (q_user_by_email email)) w = (fst (q_user_by_email email (clock w1) (db w)), w1)"
    "run_state (db_call (\<lambda>now d. (Inr () :: err + unit, d))) w = (Inr (), w1)"
  show ?thesis
  proof (cases "find (\<lambda>u. u_email u = email) (users (db w))")
    case None
    with answered show ?thesis
      by (auto simp: login_credentials_def user_repo_find_by_email_def q_user_by_email_def)
  next
    case (Some u)
    with assms [of u] have "\<not> u_active u \<or> (\<exists>e. verify (as_kdf s) (u_password_hash u) pw = Inl e)"
      by (auto simp: credentials_ok_def split: sum.splits)
    with answered Some show ?thesis
      by (auto simp: login_credentials_def login_found_def user_repo_find_by_email_def q_user_by_email_def)
  qed
qed

text \<open>
  C17: the answer does not say why a login was refused. For two databases in neither of which the
  credentials are valid (one may not know the user, the other may have it inactive or with another
  password), the same request on the same world gives the same answer, and the same state of
  Redis and of everything else but the tables.
\<close>

theorem login_no_enumeration:
  assumes "\<And>u. \<not> credentials_ok s d email pw u" and "\<And>u. \<not> credentials_ok s e email pw u"
  shows "fst (run_state (login s email pw ip ua) (w\<lparr>db := d\<rparr>)) = fst (run_state (login s email pw ip ua) (w\<lparr>db := e\<rparr>)) \<and>
    redis (snd (run_state (login s email pw ip ua) (w\<lparr>db := d\<rparr>))) =
    redis (snd (run_state (login s email pw ip ua) (w\<lparr>db := e\<rparr>)))"
proof -
  have limits: "alike (check_login_rate_limit s key email ip) (check_login_rate_limit s key email ip) v x"
    if "sans_db v = sans_db x" for key v x using that by (rule alike_limit)
  have body: "alike (login_credentials s email pw ip ua) (login_credentials s email pw ip ua) v x"
    if same: "sans_db v = sans_db x" and v: "\<And>u. \<not> credentials_ok s (db v) email pw u"
      and x: "\<And>u. \<not> credentials_ok s (db x) email pw u" for v x
  proof -
    let ?m = "\<lambda>reason. do {
       ok \<leftarrow> db_call (\<lambda>now d. (Inr () :: err + unit, d));
       (case ok of Inl e \<Rightarrow> State_Monad.return (Inl e) | Inr _ \<Rightarrow> do {
          _ \<leftarrow> audit_login_failed email ip reason;
          State_Monad.return (Inl ErrInvalidCredentials :: err + token_pair) })
     }"
    obtain p q where runs: "run_state (login_credentials s email pw ip ua) v = run_state (?m p) v"
      "run_state (login_credentials s email pw ip ua) x = run_state (?m q) x"
      using login_credentials_bad [of s v] login_credentials_bad [of s x] v x by metis
    have "alike (db_call (\<lambda>now d. (Inr () :: err + unit, d))) (db_call (\<lambda>now d. (Inr (), d))) v x"
      using same sans_db_elapse [OF same]
      by (auto simp: alike_def db_call_def Let_def sans_db_parts split: list.splits io_fault.splits)
    then have "alike (?m p) (?m q) v x"
      unfolding audit_login_failed_def
      by (rule alike_bind) (auto intro!: alike_bind alike_return alike_audit split: sum.splits)
    then show ?thesis by (simp only: alike_def runs)
  qed
  have "alike (login s email pw ip ua) (login s email pw ip ua) (w\<lparr>db := d\<rparr>) (w\<lparr>db := e\<rparr>)"
    unfolding login_def
  proof (rule alike_try_bind [OF limits], simp add: sans_db_def, rule alike_try_bind [OF limits], assumption, rule body, assumption)
    fix a v x b v' x'
    assume runs: "run_state (check_login_rate_limit s (login_ip_key ip) email ip) (w\<lparr>db := d\<rparr>) = (Inr a, v)"
      "run_state (check_login_rate_limit s (login_ip_key ip) email ip) (w\<lparr>db := e\<rparr>) = (Inr a, x)"
      "run_state (check_login_rate_limit s (login_email_key email) email ip) v = (Inr b, v')"
      "run_state (check_login_rate_limit s (login_email_key email) email ip) x = (Inr b, x')"
    have "users (db v') = users d" "users (db x') = users e"
      using only_auditD [OF only_audit_limiter(3) runs(1)] only_auditD [OF only_audit_limiter(3) runs(2)]
        only_auditD [OF only_audit_limiter(3) runs(3)] only_auditD [OF only_audit_limiter(3) runs(4)]
      by (simp_all add: only_audit_def)
    then show "\<not> credentials_ok s (db v') email pw u" "\<not> credentials_ok s (db x') email pw u" for u
      using assms by (simp_all add: credentials_ok_def)
  qed
  then show ?thesis by (simp add: alike_def sans_db_parts)
qed

theorem login_no_enumeration_witness:
  "fst (run_state (login sample_service ''carol@x.io'' ''pw'' ''ip'' []) (empty_world\<lparr>db := sample_db\<rparr>)) =
   fst (run_state (login sample_service ''carol@x.io'' ''pw'' ''ip'' []) (empty_world\<lparr>db := empty_db\<rparr>))"
proof -
  have "\<not> credentials_ok sample_service sample_db ''carol@x.io'' ''pw'' u"
    "\<not> credentials_ok sample_service empty_db ''carol@x.io'' ''pw'' u" for u
    by (auto simp: credentials_ok_def sample_defs)
  from login_no_enumeration [OF this, of "''ip''" "[]" empty_world] show ?thesis by blast
qed

end
