(* ===== verification/Password_Policy.thy ===== *)
theory Password_Policy
  imports Go_Unicode
begin

text \<open>
  The checks of an e-mail address and of a new password (\<open>service/user_validation.go\<close>). Code that
  is not in the repository comes in as the fields of \<open>policy_env\<close>: the Unicode tables, the RFC 5322
  parser \<open>mail.ParseAddress\<close> (the address it finds), SHA-1, and the answer of the HIBP service to a
  range request (an error of the transport, or a status and what reading the body gives).
\<close>

record policy_env =
  pe_unicode :: unicode_tables
  pe_parse_address :: "string \<Rightarrow> string option"
  pe_sha1 :: "string \<Rightarrow> string"
  pe_hibp :: "string \<Rightarrow> err + nat \<times> (err + string)"

section \<open>Definitions\<close>

definition common_passwords :: "string list" where
  "common_passwords = [''123456'', ''123456789'', ''password'', ''senha123'', ''qwerty'', ''admin'',
     ''12345678'', ''87654321'', ''senha123456'', ''mudar123'', ''welcome'', ''letmein'', ''login123'']"

definition validate_email :: "policy_env \<Rightarrow> string \<Rightarrow> err + unit" where
  "validate_email env email = (case pe_parse_address env email of
     None \<Rightarrow> Inl ErrInvalidEmail
   | Some addr \<Rightarrow> if addr \<noteq> email then Inl ErrInvalidEmail else Inr ())"

text \<open>Bytes wrap around: the successor of 255 is 0.\<close>

definition ascending_at :: "string \<Rightarrow> nat \<Rightarrow> bool" where
  "ascending_at s i = list_all (\<lambda>j. byte (s ! (i + j + 1)) = (byte (s ! (i + j)) + 1) mod 256) [0..<7]"

definition descending_at :: "string \<Rightarrow> nat \<Rightarrow> bool" where
  "descending_at s i = list_all (\<lambda>j. byte (s ! (i + j + 1)) = (byte (s ! (i + j)) + 255) mod 256) [0..<7]"

definition reverse_string :: "string \<Rightarrow> string" where
  "reverse_string s = string_of_runes (rev (runes s))"

definition keyboard_rows :: "string list" where
  "keyboard_rows = [''qwertyuiop'', ''asdfghjkl'', ''zxcvbnm'']"

definition has_sequence :: "unicode_tables \<Rightarrow> string \<Rightarrow> bool" where
  "has_sequence U s = (let sl = to_lower U s; n = length sl in
     if n < 8 then False
     else list_ex (\<lambda>i. ascending_at sl i \<or> descending_at sl i) [0..<n - 8 + 1] \<or>
          list_ex (\<lambda>row. let rev_row = reverse_string row in
            list_ex (\<lambda>i. let sub = take 8 (drop i sl) in contains row sub \<or> contains rev_row sub)
              [0..<n - 8 + 1]) keyboard_rows)"

text \<open>How often the pattern follows at the front of the rest.\<close>

function repeats :: "string \<Rightarrow> string \<Rightarrow> nat" where
  "repeats pat rest =
     (if pat \<noteq> [] \<and> length pat \<le> length rest \<and> take (length pat) rest = pat
      then Suc (repeats pat (drop (length pat) rest)) else 0)"
  by pat_completeness auto

termination repeats
proof (relation "measure (\<lambda>(p, r). length r)", goal_cases)
  case (2 pat rest)
  then show ?case by (cases rest) (auto simp: Suc_le_eq neq_Nil_conv)
qed simp

declare repeats.simps [simp del]

text \<open>The bound \<open>i <= n - k*3\<close> is one of signed integers: no pattern when \<open>n < k*3\<close>.\<close>

definition has_repetitive_patterns :: "string \<Rightarrow> bool" where
  "has_repetitive_patterns s = (let n = length s in
     list_ex (\<lambda>k. list_ex (\<lambda>i.
         let pat = take k (drop i s) in 10 \<le> (1 + repeats pat (drop (i + k) s)) * k)
       [0..<(if k * 3 \<le> n then n - k * 3 + 1 else 0)]) [1, 2, 3])"

definition name_separator :: "char \<Rightarrow> bool" where
  "name_separator c = (c = CHR '' '' \<or> c = CHR ''-'' \<or> c = CHR ''_'' \<or> c = CHR ''.'')"

definition contains_personal_data :: "unicode_tables \<Rightarrow> string \<Rightarrow> string \<Rightarrow> string \<Rightarrow> bool" where
  "contains_personal_data U password name email =
     (let p_lower = to_lower U password in
      (name \<noteq> [] \<and> list_ex (\<lambda>part. 3 \<le> length part \<and> contains p_lower part)
         (fields_func name_separator (to_lower U name))) \<or>
      (email \<noteq> [] \<and>
        (let e_lower = to_lower U email in
         contains p_lower e_lower \<or>
         (case index e_lower ''@'' of
            None \<Rightarrow> False
          | Some idx \<Rightarrow> 0 < idx \<and>
              (let pre = take idx e_lower in 3 \<le> length pre \<and> contains p_lower pre)))))"

definition hex_upper_digit :: "nat \<Rightarrow> char" where
  "hex_upper_digit n = (if n < 10 then char_of (48 + n) else char_of (55 + n))"

definition hex_upper :: "string \<Rightarrow> string" where
  "hex_upper bs = concat (map (\<lambda>c. [hex_upper_digit (byte c div 16), hex_upper_digit (byte c mod 16)]) bs)"

text \<open>\<open>Inr True\<close>: the password is known to the service. An error of the service is an error.\<close>

definition hibp_line :: "string \<Rightarrow> string \<Rightarrow> bool" where
  "hibp_line suff line0 = (let line = trim_space line0 in
     line \<noteq> [] \<and> (case split_n2 (CHR '':'') line of [a, b] \<Rightarrow> a = suff | _ \<Rightarrow> False))"

definition check_hibp :: "policy_env \<Rightarrow> string \<Rightarrow> err + bool" where
  "check_hibp env password =
     (let sha_sum = hex_upper (pe_sha1 env password);
          pre = take 5 sha_sum;
          suff = drop 5 sha_sum
      in case pe_hibp env pre of
           Inl e \<Rightarrow> Inl e
         | Inr (status, body) \<Rightarrow>
             if status \<noteq> 200 then Inl (ErrText ''HIBP API returned status'')
             else case body of
                Inl e \<Rightarrow> Inl e
              | Inr bytes \<Rightarrow> Inr (list_ex (hibp_line suff) (split_on (CHR 0x0A) bytes)))"

text \<open>The classes of the characters: an \<open>else if\<close> chain, so a character counts for one class.\<close>

definition character_classes :: "unicode_tables \<Rightarrow> nat list \<Rightarrow> bool \<times> bool \<times> bool" where
  "character_classes U rs = fold (\<lambda>r (lo, up, di).
     if is_lower U r then (True, up, di)
     else if is_upper U r then (lo, True, di)
     else if is_digit U r then (lo, up, True)
     else (lo, up, di)) rs (False, False, False)"

definition validate_password_secure :: "policy_env \<Rightarrow> string \<Rightarrow> string \<Rightarrow> string \<Rightarrow> err + unit" where
  "validate_password_secure env password name email =
     (let U = pe_unicode env; rs = runes password; (has_lower, has_upper, has_digit) = character_classes U rs in
      if length rs < 12 then Inl ErrPasswordTooShort
      else if 128 < length rs then Inl ErrPasswordTooLong
      else if \<not> has_lower \<or> \<not> has_upper \<or> \<not> has_digit then Inl ErrPasswordComplexity
      else if to_lower U password \<in> set common_passwords then Inl ErrPasswordWeak
      else if has_sequence U password then Inl ErrPasswordWeak
      else if has_repetitive_patterns password then Inl ErrPasswordWeak
      else if contains_personal_data U password name email then Inl ErrPasswordWeak
      else (case check_hibp env password of
          Inl e \<Rightarrow> Inr ()
        | Inr is_pwned \<Rightarrow> if is_pwned then Inl ErrPasswordPwned else Inr ()))"

section \<open>Repetitions\<close>

lemma list_ex_upt: "list_ex P [0..<n] \<longleftrightarrow> (\<exists>i<n. P i)"
  by (auto simp: list_ex_iff)

lemma repeats_at_least:
  assumes "pat \<noteq> []"
  shows "m \<le> repeats pat rest \<longleftrightarrow> (\<exists>b. rest = concat (replicate m pat) @ b)"
proof (induction m arbitrary: rest)
  case (Suc m)
  show ?case
  proof
    assume "Suc m \<le> repeats pat rest"
    then have t: "take (length pat) rest = pat" and m: "m \<le> repeats pat (drop (length pat) rest)"
      by (subst (asm) repeats.simps, auto split: if_splits)+
    from m Suc obtain b where "drop (length pat) rest = concat (replicate m pat) @ b" by blast
    with t have "rest = concat (replicate (Suc m) pat) @ b"
      using append_take_drop_id [of "length pat" rest] by simp
    then show "\<exists>b. rest = concat (replicate (Suc m) pat) @ b" by blast
  next
    assume "\<exists>b. rest = concat (replicate (Suc m) pat) @ b"
    then obtain b where "rest = pat @ concat (replicate m pat) @ b" by auto
    with Suc [of "concat (replicate m pat) @ b"] assms show "Suc m \<le> repeats pat rest"
      by (subst repeats.simps) auto
  qed
qed simp

lemma length_concat_replicate [simp]: "length (concat (replicate m xs)) = m * length xs"
  by (induction m) auto

text \<open>
  C39: the repetition check finds exactly the passwords in which a block of one to three bytes
  stands ten or more bytes long in a row.
\<close>

theorem has_repetitive_patterns_spec:
  "has_repetitive_patterns s \<longleftrightarrow>
     (\<exists>pat m a b. 1 \<le> length pat \<and> length pat \<le> 3 \<and> 10 \<le> m * length pat \<and>
        s = a @ concat (replicate m pat) @ b)"
proof
  assume "has_repetitive_patterns s"
  then obtain k i where k0: "k \<in> set [1, 2, 3]" and i0: "i < (if k * 3 \<le> length s then length s - k * 3 + 1 else 0)"
    and r: "10 \<le> (1 + repeats (take k (drop i s)) (drop (i + k) s)) * k"
    unfolding has_repetitive_patterns_def Let_def list_ex_upt unfolding list_ex_iff by blast
  from k0 have k: "k \<in> {1, 2, 3}" by simp
  from i0 have ki: "k * 3 \<le> length s" "i < length s - k * 3 + 1" by (simp_all split: if_splits)
  define pat where "pat = take k (drop i s)"
  have len: "length pat = k" using k ki by (auto simp: pat_def)
  with k have "pat \<noteq> []" by auto
  then obtain b where b: "drop (i + k) s = concat (replicate (repeats pat (drop (i + k) s)) pat) @ b"
    using repeats_at_least [of pat "repeats pat (drop (i + k) s)"] by blast
  have "s = take i s @ pat @ drop (i + k) s"
    unfolding pat_def by (metis append_take_drop_id drop_drop add.commute)
  with b have "s = take i s @ concat (replicate (Suc (repeats pat (drop (i + k) s))) pat) @ b"
    by simp
  with len k r show "\<exists>pat m a b. 1 \<le> length pat \<and> length pat \<le> 3 \<and> 10 \<le> m * length pat \<and>
      s = a @ concat (replicate m pat) @ b"
    by (intro exI [of _ pat] exI [of _ "Suc (repeats pat (drop (i + k) s))"] exI [of _ "take i s"] exI [of _ b])
      (auto simp: pat_def)
next
  assume "\<exists>pat m a b. 1 \<le> length pat \<and> length pat \<le> 3 \<and> 10 \<le> m * length pat \<and>
      s = a @ concat (replicate m pat) @ b"
  then obtain pat m a b where pat: "1 \<le> length pat" "length pat \<le> 3" "10 \<le> m * length pat"
    and s: "s = a @ concat (replicate m pat) @ b" by blast
  have k: "length pat \<in> {1, 2, 3}" using pat by auto
  then have m: "4 \<le> m" using pat by auto
  then obtain m' where m': "m = Suc m'" by (cases m) auto
  have n: "length s = length a + m * length pat + length b" using s by simp
  have "3 * length pat \<le> m * length pat" using m by simp
  with n have "length pat * 3 \<le> length s" "length a < length s - length pat * 3 + 1" by linarith+
  then have i: "length a < (if length pat * 3 \<le> length s then length s - length pat * 3 + 1 else 0)"
    by simp
  have p: "take (length pat) (drop (length a) s) = pat" and rest: "drop (length a + length pat) s = concat (replicate m' pat) @ b"
    using s m' by simp_all
  have "pat \<noteq> []" using pat by auto
  then have "m' \<le> repeats pat (drop (length a + length pat) s)"
    using rest repeats_at_least by blast
  then have "m * length pat \<le> (1 + repeats pat (drop (length a + length pat) s)) * length pat"
    using m' by (intro mult_le_mono1) simp
  with pat(3) have r: "10 \<le> (1 + repeats pat (drop (length a + length pat) s)) * length pat" by simp
  show "has_repetitive_patterns s"
    unfolding has_repetitive_patterns_def Let_def list_ex_upt unfolding list_ex_iff
    by (rule bexI [of _ "length pat"], rule exI [of _ "length a"]) (use k i p r in simp_all)
qed

section \<open>Sequences\<close>

definition climbs :: "string \<Rightarrow> bool" where
  "climbs w \<longleftrightarrow> (\<forall>j<7. byte (w ! (j + 1)) = (byte (w ! j) + 1) mod 256)"

definition descends :: "string \<Rightarrow> bool" where
  "descends w \<longleftrightarrow> (\<forall>j<7. byte (w ! j) = (byte (w ! (j + 1)) + 1) mod 256)"

lemma reverse_ascii:
  assumes "list_all ascii_byte s"
  shows "reverse_string s = rev s"
proof -
  have "concat (map encode_rune (map byte t)) = t" if "list_all ascii_byte t" for t
    using that by (induction t) (auto simp: encode_rune_def ascii_byte_def valid_rune_def byte_def)
  from this [of "rev s"] assms show ?thesis
    by (simp add: reverse_string_def string_of_runes_def runes_ascii rev_map)
qed

lemma contains_length: "contains s t \<Longrightarrow> length t \<le> length s"
  by (auto simp: contains_iff)

lemma wrap_back: "x < 256 \<Longrightarrow> y < 256 \<Longrightarrow> x = (y + 255) mod 256 \<longleftrightarrow> y = (x + 1) mod (256::nat)"
  by (cases "y = 0"; cases "x = 255") (auto simp: mod_if)

text \<open>
  C38: the sequence check finds exactly the passwords that hold, lower-cased, eight bytes in a row
  which count up, which count down, or which are part of one of the two long keyboard rows read in
  either direction. The third row of the code has seven keys and can match no eight bytes.
\<close>

theorem has_sequence_spec:
  "has_sequence U s \<longleftrightarrow> (\<exists>a w b. to_lower U s = a @ w @ b \<and> length w = 8 \<and>
     (climbs w \<or> descends w \<or>
      (\<exists>row\<in>{''qwertyuiop'', ''asdfghjkl''}. contains row w \<or> contains (rev row) w)))"
proof -
  let ?l = "to_lower U s"
  let ?good = "\<lambda>w. climbs w \<or> descends w \<or>
      (\<exists>row\<in>{''qwertyuiop'', ''asdfghjkl''}. contains row w \<or> contains (rev row) w)"
  have rev: "reverse_string row = rev row" if "row \<in> set keyboard_rows" for row
    using that by (intro reverse_ascii) (auto simp: keyboard_rows_def ascii_byte_def byte_def)
  have rows: "(\<exists>row\<in>set keyboard_rows. contains row w \<or> contains (reverse_string row) w) \<longleftrightarrow>
      (\<exists>row\<in>{''qwertyuiop'', ''asdfghjkl''}. contains row w \<or> contains (rev row) w)" if "length w = 8" for w
  proof -
    have "\<not> contains ''zxcvbnm'' w" "\<not> contains (rev ''zxcvbnm'') w"
      using that contains_length [of "''zxcvbnm''" w] contains_length [of "rev ''zxcvbnm''" w] by auto
    then show ?thesis using rev by (simp add: keyboard_rows_def)
  qed
  have window: "ascending_at ?l i \<longleftrightarrow> climbs (take 8 (drop i ?l))"
    "descending_at ?l i \<longleftrightarrow> descends (take 8 (drop i ?l))" if "i + 8 \<le> length ?l" for i
    using that by (auto simp: ascending_at_def descending_at_def climbs_def descends_def list_all_iff wrap_back)
  have "has_sequence U s \<longleftrightarrow> 8 \<le> length ?l \<and> (\<exists>i<length ?l - 8 + 1. ?good (take 8 (drop i ?l)))"
  proof -
    have "has_sequence U s \<longleftrightarrow> \<not> length ?l < 8 \<and> (\<exists>i<length ?l - 8 + 1. ascending_at ?l i \<or> descending_at ?l i \<or>
        (\<exists>row\<in>set keyboard_rows. contains row (take 8 (drop i ?l)) \<or> contains (reverse_string row) (take 8 (drop i ?l))))"
      unfolding has_sequence_def Let_def list_ex_upt list_ex_iff [of _ keyboard_rows]
      by (cases "length ?l < 8", simp) (simp only: if_False simp_thms, blast)
    also have "\<dots> \<longleftrightarrow> 8 \<le> length ?l \<and> (\<exists>i<length ?l - 8 + 1. ?good (take 8 (drop i ?l)))"
      unfolding not_less using window rows by (intro conj_cong refl ex_cong1) (auto simp del: One_nat_def)
    finally show ?thesis .
  qed
  also have "\<dots> \<longleftrightarrow> (\<exists>a w b. ?l = a @ w @ b \<and> length w = 8 \<and> ?good w)"
  proof
    assume "8 \<le> length ?l \<and> (\<exists>i<length ?l - 8 + 1. ?good (take 8 (drop i ?l)))"
    then obtain i where l: "8 \<le> length ?l" "i < length ?l - 8 + 1" and g: "?good (take 8 (drop i ?l))" by blast
    from l have "i + 8 \<le> length ?l" by linarith
    moreover note g
    moreover have "?l = take i ?l @ take 8 (drop i ?l) @ drop (i + 8) ?l"
      by (metis append_take_drop_id drop_drop add.commute)
    moreover have "length (take 8 (drop i ?l)) = 8" using calculation(1) by simp
    ultimately show "\<exists>a w b. ?l = a @ w @ b \<and> length w = 8 \<and> ?good w" by blast
  next
    assume "\<exists>a w b. ?l = a @ w @ b \<and> length w = 8 \<and> ?good w"
    then obtain a w b where l: "?l = a @ w @ b" and w: "length w = 8" and g: "?good w" by blast
    then have "take 8 (drop (length a) ?l) = w" "length a < length ?l - 8 + 1" "8 \<le> length ?l" by simp_all
    with g show "8 \<le> length ?l \<and> (\<exists>i<length ?l - 8 + 1. ?good (take 8 (drop i ?l)))" by metis
  qed
  finally show ?thesis .
qed

section \<open>The answer of the HIBP service\<close>

definition printable :: "char \<Rightarrow> bool" where
  "printable c \<longleftrightarrow> 33 \<le> byte c \<and> byte c < 127"

text \<open>The documented format: one line \<open>SUFFIX:COUNT\<close> per hash, ended by CR LF.\<close>

definition hibp_body :: "(string \<times> string) list \<Rightarrow> string" where
  "hibp_body entries = concat (map (\<lambda>(s, c). s @ CHR '':'' # c @ [CHR 0x0D, CHR 0x0A]) entries)"

lemma printable_not_space: "printable c \<Longrightarrow> \<not> is_space (byte c)"
  by (simp add: printable_def is_space_def)

lemma trim_left_printable:
  assumes "w \<noteq> []" and "printable (hd w)"
  shows "trim_left_space w = w"
proof (cases w)
  case (Cons c cs)
  with assms have "\<not> is_space (byte c)" "byte c < 128"
    using printable_not_space [of c] by (simp_all add: printable_def)
  with Cons show ?thesis by simp
qed (use assms in simp)

lemma trim_right_ascii:
  assumes "byte c < 128"
  shows "trim_right_space (w @ [c]) = (if is_space (byte c) then trim_right_space w else w @ [c])"
  using assms by (subst trim_right_space.simps) (simp add: decode_last_rune_def)

lemma trim_line:
  assumes "w \<noteq> []" and "list_all printable w"
  shows "trim_space (w @ [CHR 0x0D]) = w"
proof -
  have "printable (hd w)" "printable (last w)" using assms by (simp_all add: list_all_iff)
  then have left: "trim_left_space (w @ [CHR 0x0D]) = w @ [CHR 0x0D]"
    using assms(1) by (intro trim_left_printable) (cases w, simp_all)
  have cr: "byte (CHR 0x0D) = 13" by (simp add: byte_def)
  have "trim_right_space (w @ [CHR 0x0D]) = trim_right_space (butlast w @ [last w])"
    using trim_right_ascii [of "CHR 0x0D" w] assms(1) by (simp add: cr is_space_def)
  also have "\<dots> = w"
    using trim_right_ascii [of "last w" "butlast w"] \<open>printable (last w)\<close> assms(1)
    by (simp add: printable_not_space) (simp add: printable_def)
  finally show ?thesis by (simp add: trim_space_def left)
qed

lemma split_n2_first: "sep \<notin> set a \<Longrightarrow> split_n2 sep (a @ sep # b) = [a, b]"
  by (simp add: split_n2_def dropWhile_append takeWhile_append)

lemma split_hibp_body:
  assumes "\<forall>(s, c)\<in>set entries. list_all printable s \<and> list_all printable c"
  shows "split_on (CHR 0x0A) (hibp_body entries) =
    map (\<lambda>(s, c). s @ CHR '':'' # c @ [CHR 0x0D]) entries @ [[]]"
  using assms
proof (induction entries)
  case (Cons e es)
  obtain s c where e: "e = (s, c)" by (cases e)
  have lf: "\<not> printable (CHR 0x0A)" by (simp add: printable_def byte_def)
  with Cons.prems e have "CHR 0x0A \<notin> set (s @ CHR '':'' # c @ [CHR 0x0D])"
    by (auto simp: list_all_iff)
  from split_on_append [OF this, of "hibp_body es"] show ?case
    using Cons by (simp add: e hibp_body_def)
qed (simp add: hibp_body_def split_on_def)

lemma hibp_line_entry:
  assumes "list_all printable s" and "list_all printable c" and "CHR '':'' \<notin> set s"
  shows "hibp_line suff (s @ CHR '':'' # c @ [CHR 0x0D]) \<longleftrightarrow> s = suff"
proof -
  have "printable (CHR '':'')" by (simp add: printable_def byte_def)
  then have "trim_space ((s @ CHR '':'' # c) @ [CHR 0x0D]) = s @ CHR '':'' # c"
    using assms by (intro trim_line) auto
  with assms(3) show ?thesis by (simp add: hibp_line_def Let_def split_n2_first)
qed

text \<open>
  C37: the leak check reads the answer of the service right: for an answer in the documented format
  the password is reported as known exactly when the rest of its hash is among the suffixes. Only
  the first five hexadecimal digits of the hash are sent.
\<close>

theorem check_hibp_spec:
  assumes "pe_hibp env (take 5 (hex_upper (pe_sha1 env password))) = Inr (200, Inr (hibp_body entries))"
    and "\<forall>(s, c)\<in>set entries. list_all printable s \<and> list_all printable c \<and> CHR '':'' \<notin> set s"
  shows "check_hibp env password = Inr (drop 5 (hex_upper (pe_sha1 env password)) \<in> fst ` set entries)"
proof -
  have "\<forall>(s, c)\<in>set entries. list_all printable s \<and> list_all printable c" using assms(2) by auto
  note split = split_hibp_body [OF this]
  let ?line = "\<lambda>(s, c). s @ CHR '':'' # c @ [CHR 0x0D]"
  have "hibp_line suff (?line e) \<longleftrightarrow> suff = fst e" if "e \<in> set entries" for suff e
  proof -
    obtain s c where e: "e = (s, c)" by (cases e)
    with assms(2) that show ?thesis using hibp_line_entry [of s c suff] by auto
  qed
  then have "(\<exists>e\<in>set entries. hibp_line suff (?line e)) \<longleftrightarrow> (\<exists>e\<in>set entries. suff = fst e)" for suff
    by (intro bex_cong refl) simp
  moreover have "\<not> hibp_line suff []" for suff by (simp add: hibp_line_def)
  ultimately have "list_ex (hibp_line suff) (split_on (CHR 0x0A) (hibp_body entries)) \<longleftrightarrow> suff \<in> fst ` set entries" for suff
    unfolding split list_ex_iff by (simp add: image_iff)
  with assms(1) show ?thesis by (simp add: check_hibp_def Let_def)
qed

definition ascii_tables :: unicode_tables where
  "ascii_tables = \<lparr>table_lower = (\<lambda>_. False), table_upper = (\<lambda>_. False), table_digit = (\<lambda>_. False),
     table_to_lower = (\<lambda>r. r)\<rparr>"

text \<open>A service that knows one password and a hash that is the first bytes of the password.\<close>

definition sample_policy :: policy_env where
  "sample_policy = \<lparr>pe_unicode = ascii_tables, pe_parse_address = Some, pe_sha1 = take 4,
     pe_hibp = (\<lambda>pre. if pre = ''50617'' then Inr (200, Inr (hibp_body [(''373'', ''17'')])) else Inl ErrDb)\<rparr>"

theorem check_hibp_spec_witness:
  "check_hibp sample_policy ''Pass7word-Zebra'' = Inr True"
proof -
  have "hex_upper (pe_sha1 sample_policy ''Pass7word-Zebra'') = ''50617373''"
    by code_simp
  then show ?thesis
    using check_hibp_spec [of sample_policy "''Pass7word-Zebra''" "[(''373'', ''17'')]"]
    by (simp add: sample_policy_def printable_def byte_def)
qed

section \<open>The policy\<close>

lemma character_classes_eq:
  "fold (\<lambda>r (lo, up, di). if is_lower U r then (True, up, di) else if is_upper U r then (lo, True, di)
      else if is_digit U r then (lo, up, True) else (lo, up, di)) rs (a, b, c) =
   (a \<or> (\<exists>r\<in>set rs. is_lower U r), b \<or> (\<exists>r\<in>set rs. is_upper U r \<and> \<not> is_lower U r),
    c \<or> (\<exists>r\<in>set rs. is_digit U r \<and> \<not> is_upper U r \<and> \<not> is_lower U r))"
  by (induction rs arbitrary: a b c) auto

text \<open>
  C36: the accepted passwords are exactly those of 12 to 128 characters with a lower-case letter,
  an upper-case letter and a digit, that pass the four local checks and that the leak check does
  not know. When the service cannot be asked or its answer cannot be read, the leak check refuses
  nothing.
\<close>

theorem validate_password_secure_spec:
  "validate_password_secure env password name email = Inr () \<longleftrightarrow>
     (let U = pe_unicode env; rs = runes password in
      12 \<le> length rs \<and> length rs \<le> 128 \<and> (\<exists>r\<in>set rs. is_lower U r) \<and>
      (\<exists>r\<in>set rs. is_upper U r \<and> \<not> is_lower U r) \<and>
      (\<exists>r\<in>set rs. is_digit U r \<and> \<not> is_upper U r \<and> \<not> is_lower U r) \<and>
      to_lower U password \<notin> set common_passwords \<and> \<not> has_sequence U password \<and>
      \<not> has_repetitive_patterns password \<and> \<not> contains_personal_data U password name email \<and>
      check_hibp env password \<noteq> Inr True)"
  unfolding validate_password_secure_def Let_def character_classes_def character_classes_eq
  by (auto simp: not_less split: sum.splits)

end
