(* ===== verification/User_Service.thy ===== *)
theory User_Service
  imports Permission_Service Password_Policy Password_Hash
begin

text \<open>
  The user service (\<open>service/user.go\<close>, \<open>service/user_authz.go\<close>) and the list of roles
  (\<open>service/role.go\<close>). \<open>Update\<close> is cut into the steps of the source: the permissions each field
  needs, the guard of the last administrator, the fields, the effects after the row is written.
\<close>

section \<open>Definitions\<close>

record user_service =
  us_perm_cache :: perm_cache
  us_policy :: policy_env
  us_kdf :: kdf
  us_params :: params

record create_user_input =
  ci_name :: string
  ci_email :: string
  ci_password :: string
  ci_role_id :: "int option"

record update_user_input =
  ui_name :: "string option"
  ui_email :: "string option"
  ui_password :: "string option"
  ui_role_id :: "int option"
  ui_active :: "bool option"

definition list_roles :: "(string \<Rightarrow> string) \<Rightarrow> (world, err + role list) state" where
  "list_roles collate = role_repo_list collate"

definition user_service_list :: "(world, err + user_view list) state" where
  "user_service_list = user_repo_list"

definition user_service_find_by_id :: "int \<Rightarrow> (world, err + user_view) state" where
  "user_service_find_by_id uid = user_repo_find_by_id uid"

definition require_permission :: "perm_cache \<Rightarrow> int \<Rightarrow> string \<Rightarrow> (world, err + unit) state" where
  "require_permission pc actor code =
     try_bind (has_permission pc actor code) (\<lambda>ok.
       State_Monad.return (if \<not> ok then Inl ErrForbidden else Inr ()))"

definition user_has_permission_code :: "int \<Rightarrow> string \<Rightarrow> (world, err + bool) state" where
  "user_has_permission_code uid code =
     try_bind (list_codes_by_user uid) (\<lambda>codes. State_Monad.return (Inr (list_ex (\<lambda>c. c = code) codes)))"

definition opt_int_json :: "int option \<Rightarrow> json" where
  "opt_int_json x = (case x of None \<Rightarrow> JNull | Some i \<Rightarrow> JInt i)"

definition user_service_create ::
  "user_service \<Rightarrow> int \<Rightarrow> create_user_input \<Rightarrow> (world, err + user) state" where
  "user_service_create s actor inp =
     (case validate_email (us_policy s) (ci_email inp) of
        Inl e \<Rightarrow> State_Monad.return (Inl e)
      | Inr _ \<Rightarrow>
     (case validate_password_secure (us_policy s) (ci_password inp) (ci_name inp) (ci_email inp) of
        Inl e \<Rightarrow> State_Monad.return (Inl e)
      | Inr _ \<Rightarrow> do {
          existing \<leftarrow> user_repo_find_by_email (ci_email inp);
          (case existing of
             Inr _ \<Rightarrow> State_Monad.return (Inl ErrEmailTaken)
           | Inl e \<Rightarrow>
               if e \<noteq> ErrNotFound then State_Monad.return (Inl e)
               else try_bind (hash_password (us_kdf s) (us_params s) (ci_password inp)) (\<lambda>h.
                 try_bind (user_repo_create
                   \<lparr>u_id = 0, u_role_id = ci_role_id inp, u_name = ci_name inp, u_email = ci_email inp,
                    u_password_hash = h, u_active = True, u_created_at = 0, u_updated_at = 0\<rparr>) (\<lambda>u. do {
                   _ \<leftarrow> audit_service_log (Some actor) ''user.created'' ''user'' (Some (u_id u)) None
                     (Some [(''name'', JStr (u_name u)), (''email'', JStr (u_email u)),
                            (''roleId'', opt_int_json (u_role_id u))]);
                   State_Monad.return (Inr u)
                 })))
        }))"

text \<open>The permission checks of \<open>Update\<close>, in their order.\<close>

definition check_update_permissions ::
  "perm_cache \<Rightarrow> int \<Rightarrow> update_user_input \<Rightarrow> (world, err + unit) state" where
  "check_update_permissions pc actor inp =
     try_bind (if ui_name inp \<noteq> None \<or> ui_email inp \<noteq> None \<or> ui_role_id inp \<noteq> None
       then require_permission pc actor ''users.update'' else State_Monad.return (Inr ())) (\<lambda>_.
     try_bind (if ui_password inp \<noteq> None
       then require_permission pc actor ''users.password.reset'' else State_Monad.return (Inr ())) (\<lambda>_.
       if ui_active inp \<noteq> None
       then require_permission pc actor ''users.deactivate'' else State_Monad.return (Inr ())))"

definition last_admin_guard :: "int \<Rightarrow> update_user_input \<Rightarrow> user \<Rightarrow> (world, err + unit) state" where
  "last_admin_guard uid inp u =
     (if ui_active inp = Some False \<and> u_active u then
        try_bind (user_has_permission_code uid ''*'') (\<lambda>has_star.
          if has_star then
            try_bind count_active_users_with_star (\<lambda>count.
              State_Monad.return (if count \<le> 1 then Inl ErrLastAdmin else Inr ()))
          else State_Monad.return (Inr ()))
      else State_Monad.return (Inr ()))"

text \<open>The e-mail: validated when given, and looked up when it changes.\<close>

definition update_email ::
  "policy_env \<Rightarrow> int \<Rightarrow> update_user_input \<Rightarrow> user \<Rightarrow> (world, err + user) state" where
  "update_email env uid inp u = (case ui_email inp of
     None \<Rightarrow> State_Monad.return (Inr u)
   | Some email \<Rightarrow>
       (case validate_email env email of
          Inl e \<Rightarrow> State_Monad.return (Inl e)
        | Inr _ \<Rightarrow>
            if email \<noteq> u_email u then do {
              existing \<leftarrow> user_repo_find_by_email email;
              State_Monad.return (case existing of
                 Inr v \<Rightarrow> if u_id (uv_user v) \<noteq> uid then Inl ErrEmailTaken else Inr (u\<lparr>u_email := email\<rparr>)
               | Inl e \<Rightarrow> if e \<noteq> ErrNotFound then Inl e else Inr (u\<lparr>u_email := email\<rparr>))
            }
            else State_Monad.return (Inr (u\<lparr>u_email := email\<rparr>))))"

definition update_password ::
  "user_service \<Rightarrow> update_user_input \<Rightarrow> string \<Rightarrow> string \<Rightarrow> user \<Rightarrow> (world, err + user \<times> bool) state" where
  "update_password s inp name_val email_val u = (case ui_password inp of
     None \<Rightarrow> State_Monad.return (Inr (u, False))
   | Some pw \<Rightarrow>
       (case validate_password_secure (us_policy s) pw name_val email_val of
          Inl e \<Rightarrow> State_Monad.return (Inl e)
        | Inr _ \<Rightarrow> try_bind (hash_password (us_kdf s) (us_params s) pw) (\<lambda>h.
            State_Monad.return (Inr (u\<lparr>u_password_hash := h\<rparr>, True)))))"

definition user_data :: "user \<Rightarrow> json_map" where
  "user_data u = [(''name'', JStr (u_name u)), (''email'', JStr (u_email u)),
     (''roleId'', opt_int_json (u_role_id u)), (''active'', JBool (u_active u))]"

text \<open>After the row is written: sessions and cache of a deactivated user, and the trail.\<close>

definition after_update ::
  "perm_cache \<Rightarrow> int \<Rightarrow> int \<Rightarrow> user \<Rightarrow> user \<Rightarrow> bool \<Rightarrow> (world, unit) state" where
  "after_update pc actor uid old new password_changed =
     (let deactivated = u_active old \<and> \<not> u_active new;
          activated = \<not> u_active old \<and> u_active new
      in do {
        _ \<leftarrow> (if deactivated then do {
               _ \<leftarrow> session_repo_revoke_all_by_user uid;
               invalidate_user_cache pc uid
             } else State_Monad.return ());
        _ \<leftarrow> audit_service_log (Some actor) ''user.updated'' ''user'' (Some uid) (Some (user_data old))
          (Some (user_data new @ (if password_changed then [(''passwordChanged'', JBool True)] else [])));
        _ \<leftarrow> (if deactivated then
               audit_service_log (Some actor) ''user.deactivated'' ''user'' (Some uid) (Some (user_data old))
                 (Some [(''active'', JBool False)])
             else State_Monad.return ());
        (if activated then
           audit_service_log (Some actor) ''user.activated'' ''user'' (Some uid) (Some (user_data old))
             (Some [(''active'', JBool True)])
         else State_Monad.return ())
      })"

definition opt_else :: "'a option \<Rightarrow> 'a \<Rightarrow> 'a" where
  "opt_else x d = (case x of None \<Rightarrow> d | Some a \<Rightarrow> a)"

text \<open>The answer carries the role that was loaded before the change.\<close>

definition user_service_update ::
  "user_service \<Rightarrow> int \<Rightarrow> int \<Rightarrow> update_user_input \<Rightarrow> (world, err + user_view) state" where
  "user_service_update s actor uid inp =
     (if ui_active inp = Some False \<and> actor = uid then State_Monad.return (Inl ErrCannotDeactivateSelf)
      else
        try_bind (check_update_permissions (us_perm_cache s) actor inp) (\<lambda>_.
        try_bind (user_repo_find_by_id uid) (\<lambda>view.
        let old = uv_user view in
        try_bind (last_admin_guard uid inp old) (\<lambda>_.
        let name_val = opt_else (ui_name inp) (u_name old);
            email_val = opt_else (ui_email inp) (u_email old) in
        try_bind (update_email (us_policy s) uid inp (old\<lparr>u_name := name_val\<rparr>)) (\<lambda>u.
        let u' = u\<lparr>u_role_id := (case ui_role_id inp of None \<Rightarrow> u_role_id u | Some r \<Rightarrow> Some r),
                   u_active := opt_else (ui_active inp) (u_active u)\<rparr> in
        try_bind (update_password s inp name_val email_val u') (\<lambda>(u'', password_changed).
        try_bind (user_repo_update u'') (\<lambda>new. do {
          _ \<leftarrow> after_update (us_perm_cache s) actor uid old new password_changed;
          State_Monad.return (Inr (view\<lparr>uv_user := new\<rparr>))
        })))))))"

lemma respects_prod_fun [respects]:
  "(\<And>a b. state_io_rel R (f a b)) \<Longrightarrow> state_io_rel R ((\<lambda>(a, b). f a b) p)"
  by (cases p) simp

lemma evolves_user_parts [respects]:
  "state_io_rel (on_db evolves) (hash_password k p plain)"
  "state_io_rel (on_db evolves) (require_permission pc actor code)"
  "state_io_rel (on_db evolves) (user_has_permission_code uid code)"
  "state_io_rel (on_db evolves) (check_update_permissions pc actor inp)"
  "state_io_rel (on_db evolves) (last_admin_guard uid inp u)"
  "state_io_rel (on_db evolves) (update_email env uid inp u)"
  "state_io_rel (on_db evolves) (update_password s inp n e u)"
  "state_io_rel (on_db evolves) (after_update pc actor uid old new pch)"
  unfolding hash_password_def require_permission_def user_has_permission_code_def check_update_permissions_def
    last_admin_guard_def update_email_def update_password_def after_update_def
  by (intro ev.on_rules respects)+

lemma evolves_user_service [respects]:
  "state_io_rel (on_db evolves) (list_roles collate)"
  "state_io_rel (on_db evolves) user_service_list"
  "state_io_rel (on_db evolves) (user_service_find_by_id uid)"
  "state_io_rel (on_db evolves) (user_service_create s actor ci)"
  "state_io_rel (on_db evolves) (user_service_update s actor uid inp)"
  unfolding list_roles_def user_service_list_def user_service_find_by_id_def user_service_create_def
    user_service_update_def
  by (intro ev.on_rules respects)+

end
