(* ===== verification/User_Properties.thy ===== *)
theory User_Properties
  imports User_Service Permission_Properties
begin

text \<open>The properties of the user service, each with an instance.\<close>

definition sample_users :: user_service where
  "sample_users = \<lparr>us_perm_cache = sample_cache, us_policy = sample_policy, us_kdf = sample_kdf, us_params = sample_params\<rparr>"

lemma sample_users_simps [simp]: "us_perm_cache sample_users = sample_cache"
  by (simp add: sample_users_def)

lemmas user_eval = service_eval user_service_create_def user_service_update_def check_update_permissions_def
  require_permission_def last_admin_guard_def user_has_permission_code_def update_email_def update_password_def
  after_update_def opt_else_def sample_users_def sample_policy_def validate_email_def user_data_def opt_int_json_def
  is_inr_def

section \<open>Steps that do not touch the tables\<close>

text \<open>The tables stay, and a database that works keeps working.\<close>

definition unchanged :: "world \<Rightarrow> world \<Rightarrow> bool" where
  "unchanged v w \<longleftrightarrow> db w = db v \<and> (db_faults v = [] \<longrightarrow> db_faults w = [])"

interpretation un: step_relation unchanged
  by unfold_locales (auto simp: unchanged_def)

lemma unchanged_prims [respects]:
  "state_io_rel unchanged time_now"
  "state_io_rel unchanged (rand_read n)"
  "state_io_rel unchanged (redis_call g)"
  by (rule state_io_relI, auto simp: unchanged_def run_rand_read run_redis_call)+

lemma unchanged_read:
  assumes "\<And>now d. snd (f now d) = d"
  shows "state_io_rel unchanged (db_call f)"
proof (rule state_io_relI)
  fix r w w' assume run: "run_state (db_call f) w = (r, w')"
  then show "unchanged w w'"
    using run_db_call(6,7) [OF run] assms by (auto simp: unchanged_def)
qed

lemma unchanged_reads [respects]:
  "state_io_rel unchanged (user_repo_find_by_email email)"
  "state_io_rel unchanged (user_repo_find_by_id uid)"
  "state_io_rel unchanged (permission_repo_list_codes_by_user_id uid)"
  "state_io_rel unchanged (permission_repo_count_active_users_with_code code)"
  unfolding repository_defs
  by (intro un.step_rules respects unchanged_read; simp)+

lemma unchanged_parts [respects]:
  "state_io_rel unchanged (hash_password k p plain)"
  "state_io_rel unchanged (has_permission pc uid code)"
  unfolding hash_password_def has_permission_def cache_get_def cache_set_def rdb_defs
  by (intro un.step_rules respects)+

lemma unchanged_user [respects]:
  "state_io_rel unchanged (require_permission pc actor code)"
  "state_io_rel unchanged (check_update_permissions pc actor inp)"
  "state_io_rel unchanged (last_admin_guard uid inp u)"
  "state_io_rel unchanged (update_email env uid inp u)"
  "state_io_rel unchanged (update_password s inp n e u)"
  unfolding require_permission_def check_update_permissions_def last_admin_guard_def update_email_def
    update_password_def user_has_permission_code_def list_codes_by_user_def count_active_users_with_star_def
  by (intro un.step_rules respects)+

lemmas unchangedD = run_respects [of unchanged]

lemma unchanged_db: "unchanged v w \<Longrightarrow> db w = db v"
  by (simp add: unchanged_def)

section \<open>The permissions of the actor\<close>

definition may :: "world \<Rightarrow> int \<Rightarrow> string \<Rightarrow> bool" where
  "may w actor code \<longleftrightarrow> (\<exists>g\<in>granted w actor. covers g code)"

lemma may_same_db: "db w' = db w \<Longrightarrow> may w' = may w"
  by (simp add: may_def granted_def fun_eq_iff)

lemma require_permission_ok:
  assumes "run_state (require_permission pc actor code) w = (Inr (), w')" and "coherent pc w actor"
  shows "may w actor code \<and> db w' = db w \<and> coherent pc w' actor"
proof -
  from assms(1) have run: "run_state (has_permission pc actor code) w = (Inr True, w')"
    by (auto simp: require_permission_def split: prod.splits sum.splits if_splits)
  from has_permission_answer [OF run assms(2)] has_permission_keeps [OF run] assms(2) show ?thesis
    by (simp add: may_def)
qed

lemma optional_permission_ok:
  assumes "run_state (if c then require_permission pc actor code else State_Monad.return (Inr ())) w = (Inr (), w')"
    and "coherent pc w actor"
  shows "(c \<longrightarrow> may w actor code) \<and> db w' = db w \<and> coherent pc w' actor"
  using require_permission_ok [of pc actor code w w'] assms by (cases c) simp_all

lemma check_update_permissions_ok:
  assumes "run_state (check_update_permissions pc actor inp) w = (Inr (), w')" and "coherent pc w actor"
  shows "(ui_name inp \<noteq> None \<or> ui_email inp \<noteq> None \<or> ui_role_id inp \<noteq> None \<longrightarrow> may w actor ''users.update'') \<and>
    (ui_password inp \<noteq> None \<longrightarrow> may w actor ''users.password.reset'') \<and>
    (ui_active inp \<noteq> None \<longrightarrow> may w actor ''users.deactivate'')"
proof -
  from assms(1) obtain w1 w2 where
    a: "run_state (if ui_name inp \<noteq> None \<or> ui_email inp \<noteq> None \<or> ui_role_id inp \<noteq> None
      then require_permission pc actor ''users.update'' else State_Monad.return (Inr ())) w = (Inr (), w1)"
    and b: "run_state (if ui_password inp \<noteq> None
      then require_permission pc actor ''users.password.reset'' else State_Monad.return (Inr ())) w1 = (Inr (), w2)"
    and c: "run_state (if ui_active inp \<noteq> None
      then require_permission pc actor ''users.deactivate'' else State_Monad.return (Inr ())) w2 = (Inr (), w')"
    unfolding check_update_permissions_def run_try_bind_Inr by auto
  have a': "(ui_name inp \<noteq> None \<or> ui_email inp \<noteq> None \<or> ui_role_id inp \<noteq> None \<longrightarrow> may w actor ''users.update'') \<and>
      db w1 = db w \<and> coherent pc w1 actor"
    using a assms(2) by (rule optional_permission_ok)
  then have b': "(ui_password inp \<noteq> None \<longrightarrow> may w1 actor ''users.password.reset'') \<and> db w2 = db w1 \<and> coherent pc w2 actor"
    using b by (intro optional_permission_ok) simp_all
  then have "(ui_active inp \<noteq> None \<longrightarrow> may w2 actor ''users.deactivate'')"
    using c optional_permission_ok by blast
  with a' b' may_same_db [of w1 w] may_same_db [of w2 w] show ?thesis by simp
qed

section \<open>The fields of an update\<close>

lemma update_email_fields:
  assumes "run_state (update_email env uid inp u) w = (Inr v, w')"
  shows "v = u\<lparr>u_email := opt_else (ui_email inp) (u_email u)\<rparr>"
  using assms
  by (auto simp: update_email_def opt_else_def split: option.splits sum.splits prod.splits if_splits)

lemma update_password_fields:
  assumes "run_state (update_password s inp n e u) w = (Inr (v, changed), w')"
  shows "(\<exists>h. v = u\<lparr>u_password_hash := h\<rparr>) \<and> (ui_password inp = None \<longrightarrow> v = u)"
proof (cases "ui_password inp")
  case None
  then show ?thesis using assms by (auto simp: update_password_def intro: exI [of _ "u_password_hash u"])
next
  case (Some pw)
  then show ?thesis using assms by (auto simp: update_password_def split: sum.splits prod.splits)
qed

text \<open>
  An update of a row, as \<open>Update\<close> makes it: the fields that were not asked for stay.
\<close>

definition updates :: "update_user_input \<Rightarrow> user \<Rightarrow> user \<Rightarrow> bool" where
  "updates inp old new \<longleftrightarrow> u_id new = u_id old \<and>
     u_name new = opt_else (ui_name inp) (u_name old) \<and> u_email new = opt_else (ui_email inp) (u_email old) \<and>
     u_role_id new = (case ui_role_id inp of None \<Rightarrow> u_role_id old | Some r \<Rightarrow> Some r) \<and>
     u_active new = opt_else (ui_active inp) (u_active old) \<and>
     (ui_password inp = None \<longrightarrow> u_password_hash new = u_password_hash old)"

lemma update_run:
  assumes "run_state (user_service_update s actor uid inp) w = (r, w')"
  obtains (refused) e where "r = Inl e" "db w' = db w"
  | (saved) w0 w1 w2 w3 view u changed where
      "\<not> (ui_active inp = Some False \<and> actor = uid)"
      "run_state (check_update_permissions (us_perm_cache s) actor inp) w = (Inr (), w0)"
      "find (\<lambda>u. u_id u = uid) (users (db w)) = Some (uv_user view)"
      "run_state (last_admin_guard uid inp (uv_user view)) w1 = (Inr (), w2)" "db w1 = db w"
      "updates inp (uv_user view) u" "unchanged w w3"
      "run_state (try_bind (user_repo_update u) (\<lambda>new. do {
          _ \<leftarrow> after_update (us_perm_cache s) actor uid (uv_user view) new changed;
          State_Monad.return (Inr (view\<lparr>uv_user := new\<rparr>))
        })) w3 = (r, w')"
proof (cases "ui_active inp = Some False \<and> actor = uid")
  case True
  with assms have "r = Inl ErrCannotDeactivateSelf" "db w' = db w" by (simp_all add: user_service_update_def)
  with refused show thesis by blast
next
  case False
  with assms have "run_state (try_bind (check_update_permissions (us_perm_cache s) actor inp) (\<lambda>_.
        try_bind (user_repo_find_by_id uid) (\<lambda>view.
        let old = uv_user view in
        try_bind (last_admin_guard uid inp old) (\<lambda>_.
        let name_val = opt_else (ui_name inp) (u_name old);
            email_val = opt_else (ui_email inp) (u_email old) in
        try_bind (update_email (us_policy s) uid inp (old\<lparr>u_name := name_val\<rparr>)) (\<lambda>u.
        let u' = u\<lparr>u_role_id := (case ui_role_id inp of None \<Rightarrow> u_role_id u | Some r \<Rightarrow> Some r),
                   u_active := opt_else (ui_active inp) (u_active u)\<rparr> in
        try_bind (update_password s inp name_val email_val u') (\<lambda>(u'', password_changed).
        try_bind (user_repo_update u'') (\<lambda>new. do {
          _ \<leftarrow> after_update (us_perm_cache s) actor uid old new password_changed;
          State_Monad.return (Inr (view\<lparr>uv_user := new\<rparr>))
        }))))))) w = (r, w')"
    by (simp add: user_service_update_def del: run_try_bind)
  then show thesis
  proof (cases rule: try_bindE)
    case (stop e)
    then show thesis using refused unchanged_db unchangedD [OF unchanged_user(2)] by blast
  next
    case (go x w0)
    note p1 = go(1) and d1 = unchangedD [OF unchanged_user(2) go(1)]
    from go(2) show thesis
    proof (cases rule: try_bindE)
      case (stop e)
      then show thesis using refused unchanged_db un.step_trans [OF d1] unchangedD [OF unchanged_reads(2)] by blast
    next
      case (go view w1)
      note usr = user_by_id_Inr [OF go(1)] and d2 = un.step_trans [OF d1 unchangedD [OF unchanged_reads(2) go(1)]]
      from go(2) [unfolded Let_def] show thesis
      proof (cases rule: try_bindE)
        case (stop e)
        then show thesis using refused unchanged_db un.step_trans [OF d2] unchangedD [OF unchanged_user(3)] by blast
      next
        case (go x2 w2)
        note guard = go(1) and d3 = un.step_trans [OF d2 unchangedD [OF unchanged_user(3) go(1)]]
        from go(2) show thesis
        proof (cases rule: try_bindE)
          case (stop e)
          then show thesis using refused unchanged_db un.step_trans [OF d3] unchangedD [OF unchanged_user(4)] by blast
        next
          case (go u2 w3)
          note f1 = update_email_fields [OF go(1)] and d4 = un.step_trans [OF d3 unchangedD [OF unchanged_user(4) go(1)]]
          from go(2) show thesis
          proof (cases rule: try_bindE)
            case (stop e)
            then show thesis using refused unchanged_db un.step_trans [OF d4] unchangedD [OF unchanged_user(5)] by blast
          next
            case (go uc w4)
            obtain u3 changed where uc: "uc = (u3, changed)" by (cases uc)
            note f2 = update_password_fields [OF go(1) [unfolded uc]] and d5 = un.step_trans [OF d4 unchangedD [OF unchanged_user(5) go(1)]]
            have up: "updates inp (uv_user view) u3"
              using f1 f2 by (auto simp: updates_def split: option.splits)
            from go(2) show thesis
              using saved [OF False p1 [simplified] _ guard [simplified] _ up d5] usr(1) unchanged_db [OF d1] unchanged_db [OF d2]
              by (simp add: uc del: run_try_bind)
          qed
        qed
      qed
    qed
  qed
qed

section \<open>What is written\<close>

lemma same_accounts_steps [respects]:
  "state_io_rel (on_db same_accounts) (audit_service_log a act ent eid old new)"
  "state_io_rel (on_db same_accounts) (invalidate_user_cache pc uid)"
  "state_io_rel (on_db same_accounts) (session_repo_revoke_all_by_user uid)"
  unfolding audit_service_log_def invalidate_user_cache_def invalidate_cache_def cache_invalidate_def rdb_defs
    repository_defs
  by (intro sa.on_rules respects sa.on_db_call;
      simp add: same_accounts_def q_audit_insert_def q_session_revoke_def Let_def)+

lemma same_accounts_after [respects]:
  "state_io_rel (on_db same_accounts) (after_update pc actor uid old new pch)"
  unfolding after_update_def by (intro sa.on_rules respects)

lemma same_accountsD: "state_io_rel (on_db same_accounts) m \<Longrightarrow> run_state m w = (r, w') \<Longrightarrow> same_accounts (db w) (db w')"
  using run_respects [of "on_db same_accounts"] by (auto simp: on_db_def)

lemma save_run:
  assumes "run_state (try_bind (user_repo_update u) (\<lambda>new. do {
       _ \<leftarrow> after_update pc actor uid old new changed;
       State_Monad.return (Inr (view\<lparr>uv_user := new\<rparr>))
     })) w = (r, w')"
  obtains (failed) e where "r = Inl e" "db w' = db w"
  | (lost) e stamp t where "r = Inl e" "db w' = snd (q_user_update (u\<lparr>u_updated_at := stamp\<rparr>) t (db w))"
  | (saved) stamp t w1 where "r = Inr (view\<lparr>uv_user := u\<lparr>u_updated_at := stamp\<rparr>\<rparr>)"
      "fst (q_user_update (u\<lparr>u_updated_at := stamp\<rparr>) t (db w)) = Inr ()"
      "db w1 = snd (q_user_update (u\<lparr>u_updated_at := stamp\<rparr>) t (db w))"
      "db_faults w = [] \<Longrightarrow> db_faults w1 = []"
      "run_state (after_update pc actor uid old (u\<lparr>u_updated_at := stamp\<rparr>) changed) w1 = ((), w')"
proof -
  define v where "v = u\<lparr>u_updated_at := clock (elapse w)\<rparr>"
  obtain x w1 where call: "run_state (db_call (q_user_update v)) (elapse w) = (x, w1)"
    by (cases "run_state (db_call (q_user_update v)) (elapse w)")
  then have rest: "case x of Inl e \<Rightarrow> r = Inl e \<and> w' = w1
    | Inr _ \<Rightarrow> r = Inr (view\<lparr>uv_user := v\<rparr>) \<and> run_state (after_update pc actor uid old v changed) w1 = ((), w')"
    using assms by (auto simp: user_repo_update_def v_def split: sum.splits prod.splits)
  show thesis
  proof (cases x)
    case (Inl e)
    then show thesis
      using rest run_db_call(6) [OF call] failed lost [of e "clock (elapse w)"] by (auto simp: v_def)
  next
    case (Inr y)
    then show thesis
      using rest db_call_Inr [of "q_user_update v" "elapse w" y w1] call run_db_call(7) [OF call]
        saved [of "clock (elapse w)" "clock w1" w1] by (simp add: v_def)
  qed
qed

definition write_row :: "user \<Rightarrow> user \<Rightarrow> user" where
  "write_row u x = (if u_id x = u_id u then x\<lparr>u_role_id := u_role_id u, u_name := u_name u, u_email := u_email u,
     u_password_hash := u_password_hash u, u_active := u_active u, u_updated_at := u_updated_at u\<rparr> else x)"

lemma write_row_id [simp]: "u_id (write_row u x) = u_id x"
  by (simp add: write_row_def)

lemma user_update_rows:
  "snd (q_user_update u t d) = d \<or> snd (q_user_update u t d) = d\<lparr>users := map (write_row u) (users d)\<rparr>"
  "fst (q_user_update u t d) = Inr () \<Longrightarrow> snd (q_user_update u t d) = d\<lparr>users := map (write_row u) (users d)\<rparr>"
  by (auto simp: q_user_update_def write_row_def [abs_def] split: if_splits)

lemma same_grants_after_save: "user_permissions (snd (q_user_update u t d)) = user_permissions d"
  using user_update_rows(1) [of u t d] by (elim disjE) simp_all

definition row_of :: "user \<Rightarrow> user \<Rightarrow> bool" where
  "row_of u v \<longleftrightarrow> u_id v = u_id u \<and> u_name v = u_name u \<and> u_email v = u_email u \<and>
     u_role_id v = u_role_id u \<and> u_active v = u_active u \<and> u_password_hash v = u_password_hash u"

lemma written_row:
  assumes "v \<in> set (users (snd (q_user_update u t d)))" and "v \<notin> set (users d)"
  shows "\<exists>x\<in>set (users d). u_id x = u_id u \<and> row_of u v"
proof -
  have "users (snd (q_user_update u t d)) = map (write_row u) (users d)"
    using user_update_rows(1) [of u t d] assms by (elim disjE) simp_all
  with assms obtain x where "x \<in> set (users d)" "v = write_row u x" by auto
  with assms(2) show ?thesis by (auto simp: write_row_def row_of_def split: if_splits)
qed

lemma saved_tables:
  assumes "run_state (try_bind (user_repo_update u) (\<lambda>new. do {
       _ \<leftarrow> after_update pc actor uid old new changed;
       State_Monad.return (Inr (view\<lparr>uv_user := new\<rparr>))
     })) w = (r, w')"
  shows "\<exists>d stamp t. same_accounts d (db w') \<and> (d = db w \<or> d = snd (q_user_update (u\<lparr>u_updated_at := stamp\<rparr>) t (db w)))"
  using assms by (cases rule: save_run) (use sa.Q_refl same_accountsD [OF same_accounts_after] in metis)+

lemma saved_row:
  assumes "run_state (try_bind (user_repo_update u) (\<lambda>new. do {
       _ \<leftarrow> after_update pc actor uid old new changed;
       State_Monad.return (Inr (view\<lparr>uv_user := new\<rparr>))
     })) w = (r, w')"
  shows "user_permissions (db w') = user_permissions (db w) \<and>
    (\<forall>v\<in>set (users (db w')). v \<in> set (users (db w)) \<or> (\<exists>x\<in>set (users (db w)). u_id x = u_id u \<and> row_of u v))"
proof -
  from saved_tables [OF assms] obtain d stamp t where d: "same_accounts d (db w')"
    "d = db w \<or> d = snd (q_user_update (u\<lparr>u_updated_at := stamp\<rparr>) t (db w))" by blast
  have "\<exists>x\<in>set (users (db w)). u_id x = u_id u \<and> row_of u v"
    if "v \<in> set (users (db w'))" "v \<notin> set (users (db w))" for v
  proof -
    have "v \<in> set (users (snd (q_user_update (u\<lparr>u_updated_at := stamp\<rparr>) t (db w))))"
      using that d by (auto simp: same_accounts_def)
    from written_row [OF this that(2)] show ?thesis by (simp add: row_of_def)
  qed
  then show ?thesis using d same_grants_after_save by (auto simp: same_accounts_def)
qed

section \<open>Properties\<close>

text \<open>
  C7: whoever changes a user may do so. When the cached permissions of the actor are coherent,
  whatever call fails, every row of the users table after \<open>Update\<close> was there before, or it is the row
  of the user named in the request, and then a changed name, e-mail or role needed
  \<open>users.update\<close>, a changed password hash \<open>users.password.reset\<close>, a changed active flag
  \<open>users.deactivate\<close>, each held by the actor. Nobody's grants change.
\<close>

theorem update_authorised:
  assumes run: "run_state (user_service_update s actor uid inp) w = (r, w')"
    and wf: "db_wf (db w)" and coherent: "coherent (us_perm_cache s) w actor"
  shows "user_permissions (db w') = user_permissions (db w) \<and>
    (\<forall>v\<in>set (users (db w')). v \<in> set (users (db w)) \<or>
      (\<exists>u\<in>set (users (db w)). u_id u = uid \<and> u_id v = uid \<and>
        (u_name v \<noteq> u_name u \<or> u_email v \<noteq> u_email u \<or> u_role_id v \<noteq> u_role_id u \<longrightarrow> may w actor ''users.update'') \<and>
        (u_password_hash v \<noteq> u_password_hash u \<longrightarrow> may w actor ''users.password.reset'') \<and>
        (u_active v \<noteq> u_active u \<longrightarrow> may w actor ''users.deactivate'')))"
  using run
proof (cases rule: update_run)
  case (refused e)
  then show ?thesis by simp
next
  case (saved w0 w1 w2 w3 view u changed)
  let ?old = "uv_user view"
  note perms = check_update_permissions_ok [OF saved(2) coherent]
  have old: "?old \<in> set (users (db w))" "u_id ?old = uid"
    using saved(3) by (auto dest: find_Some_member)
  have ids: "u_id u = uid" using saved(6) old(2) by (simp add: updates_def)
  have changed: "(u_name u \<noteq> u_name ?old \<or> u_email u \<noteq> u_email ?old \<or> u_role_id u \<noteq> u_role_id ?old \<longrightarrow> may w actor ''users.update'') \<and>
      (u_password_hash u \<noteq> u_password_hash ?old \<longrightarrow> may w actor ''users.password.reset'') \<and>
      (u_active u \<noteq> u_active ?old \<longrightarrow> may w actor ''users.deactivate'')"
    using saved(6) perms by (auto simp: updates_def opt_else_def split: option.splits)
  from saved_row [OF saved(8)] show ?thesis
    unfolding unchanged_db [OF saved(7)] ids row_of_def using changed old by (metis (no_types, lifting))
qed

theorem update_authorised_witness:
  "users (db (snd (run_state (user_service_update sample_users 1 2
     \<lparr>ui_name = Some ''Rob'', ui_email = None, ui_password = None, ui_role_id = None, ui_active = None\<rparr>) sample_world)))
   = [alice, bob\<lparr>u_name := ''Rob''\<rparr>, carol] \<and> may sample_world 1 ''users.update''"
proof -
  let ?inp = "\<lparr>ui_name = Some ''Rob'', ui_email = None, ui_password = None, ui_role_id = None, ui_active = None\<rparr>"
  let ?run = "run_state (user_service_update sample_users 1 2 ?inp) sample_world"
  have users: "users (db (snd ?run)) = [alice, bob\<lparr>u_name := ''Rob''\<rparr>, carol]"
    by (simp add: user_eval sample_defs)
  moreover have "may sample_world 1 ''users.update''"
    using update_authorised [of sample_users 1 2 ?inp sample_world "fst ?run" "snd ?run"] users
    by (simp add: sample_db_wf) (simp add: sample_defs)
  ultimately show ?thesis ..
qed

section \<open>The last administrator\<close>

lemma concat_at_most_one:
  assumes "distinct xs" and "\<And>x y. x \<in> set xs \<Longrightarrow> y \<in> set xs \<Longrightarrow> P x \<Longrightarrow> P y \<Longrightarrow> x = y"
  shows "concat (map (\<lambda>x. if P x then [u] else []) xs) = (if \<exists>x\<in>set xs. P x then [u] else [])"
  using assms
proof (induction xs)
  case (Cons a xs)
  then have "concat (map (\<lambda>x. if P x then [u] else []) xs) = (if \<exists>x\<in>set xs. P x then [u] else [])"
    by simp
  moreover have "P a \<Longrightarrow> \<not> (\<exists>x\<in>set xs. P x)" using Cons.prems by auto
  ultimately show ?case by auto
qed simp

lemma concat_map_filter: "concat (map (\<lambda>x. if P x then [x] else []) xs) = filter P xs"
  by (induction xs) simp_all

lemma codes_mem: "code \<in> set (codes_of d i) \<longleftrightarrow>
    (\<exists>p\<in>set (permissions d). p_code p = code \<and> (\<exists>up\<in>set (user_permissions d). up_permission_id up = p_id p \<and> up_user_id up = i))"
  by (auto simp: codes_of_def permissions_of_def)

text \<open>The query that counts administrators counts each of them once.\<close>

lemma active_users_with_code_eq:
  assumes wf: "db_wf d"
  shows "active_users_with_code d code = filter (\<lambda>u. u_active u \<and> code \<in> set (codes_of d (u_id u))) (users d)"
proof -
  have dist: "distinct (permissions d)" "distinct (user_permissions d)"
    using wf by (auto simp: wf_defs ids_ok_def distinct_map)
  have ids: "p \<in> set (permissions d) \<Longrightarrow> q \<in> set (permissions d) \<Longrightarrow> p_id p = p_id q \<Longrightarrow> p = q"
    and cds: "p \<in> set (permissions d) \<Longrightarrow> q \<in> set (permissions d) \<Longrightarrow> p_code p = p_code q \<Longrightarrow> p = q" for p q
    using wf by (auto simp: wf_defs ids_ok_def distinct_map inj_on_def)
  have "concat (map (\<lambda>up. concat (map (\<lambda>p. if up_user_id up = u_id u \<and> p_id p = up_permission_id up \<and> p_code p = code \<and> u_active u
      then [u] else []) (permissions d))) (user_permissions d)) =
      (if u_active u \<and> code \<in> set (codes_of d (u_id u)) then [u] else [])" (is "?inner = _") for u :: user
  proof -
    have "?inner = concat (map (\<lambda>up. if up_user_id up = u_id u \<and> u_active u \<and>
        (\<exists>p\<in>set (permissions d). p_id p = up_permission_id up \<and> p_code p = code) then [u] else []) (user_permissions d))"
    proof (intro arg_cong [where f = concat] map_cong refl)
      fix up
      let ?P = "\<lambda>p. up_user_id up = u_id u \<and> p_id p = up_permission_id up \<and> p_code p = code \<and> u_active u"
      have "concat (map (\<lambda>p. if ?P p then [u] else []) (permissions d)) = (if \<exists>p\<in>set (permissions d). ?P p then [u] else [])"
        by (rule concat_at_most_one [OF dist(1)]) (use ids in simp)
      also have "(\<exists>p\<in>set (permissions d). ?P p) \<longleftrightarrow> up_user_id up = u_id u \<and> u_active u \<and>
        (\<exists>p\<in>set (permissions d). p_id p = up_permission_id up \<and> p_code p = code)" by blast
      finally show "concat (map (\<lambda>p. if ?P p then [u] else []) (permissions d)) =
        (if up_user_id up = u_id u \<and> u_active u \<and>
          (\<exists>p\<in>set (permissions d). p_id p = up_permission_id up \<and> p_code p = code) then [u] else [])" .
    qed
    also have "\<dots> = (if \<exists>up\<in>set (user_permissions d). up_user_id up = u_id u \<and> u_active u \<and>
        (\<exists>p\<in>set (permissions d). p_id p = up_permission_id up \<and> p_code p = code) then [u] else [])"
    proof (rule concat_at_most_one [OF dist(2)])
      fix x y :: user_permission
      assume x: "up_user_id x = u_id u \<and> u_active u \<and> (\<exists>p\<in>set (permissions d). p_id p = up_permission_id x \<and> p_code p = code)"
        and y: "up_user_id y = u_id u \<and> u_active u \<and> (\<exists>p\<in>set (permissions d). p_id p = up_permission_id y \<and> p_code p = code)"
      then obtain p q where "p \<in> set (permissions d)" "p_id p = up_permission_id x" "p_code p = code"
        "q \<in> set (permissions d)" "p_id q = up_permission_id y" "p_code q = code" by blast
      then have "up_permission_id x = up_permission_id y" using cds [of p q] by simp
      moreover have "up_user_id x = up_user_id y" using x y by simp
      ultimately show "x = y" by (rule_tac user_permission.equality) simp_all
    qed
    also have "\<dots> = (if u_active u \<and> code \<in> set (codes_of d (u_id u)) then [u] else [])"
      by (rule if_cong, (auto simp: codes_mem; metis)[1], rule refl, rule refl)
    finally show ?thesis .
  qed
  then show ?thesis
    by (simp only: active_users_with_code_def concat_map_filter)
qed

lemma codes_after_save [simp]: "codes_of (d\<lparr>users := us\<rparr>) = codes_of d"
  by (simp add: codes_of_def permissions_of_def fun_eq_iff)

lemma same_accounts_codes: "same_accounts d e \<Longrightarrow> codes_of e = codes_of d \<and> users e = users d"
  by (simp add: same_accounts_def codes_of_def permissions_of_def fun_eq_iff)

text \<open>Bob may deactivate users; Alice is the only administrator.\<close>

definition steward_world :: world where
  "steward_world = sample_world\<lparr>db := sample_db\<lparr>
     permissions := permissions sample_db @ [\<lparr>p_id = 4, p_code = ''users.deactivate'', p_description = [], p_created_at = 0\<rparr>],
     user_permissions := user_permissions sample_db @ [\<lparr>up_user_id = 2, up_permission_id = 4\<rparr>],
     next_permission_id := 5\<rparr>\<rparr>"

text \<open>Alice may deactivate Bob, who has a session.\<close>

definition bob_session :: session where
  "bob_session = \<lparr>s_id = 1, s_user_id = 2, s_refresh_token_hash = ''b'', s_expires_at = 9, s_revoked = False,
     s_revoked_at = None, s_ip_address = None, s_user_agent = None, s_last_activity_at = None, s_created_at = 0\<rparr>"

definition bob_online :: world where
  "bob_online = sample_world\<lparr>db := sample_db\<lparr>sessions := [bob_session], next_session_id := 2\<rparr>\<rparr>"

lemma bob_online_wf: "db_wf (db bob_online)"
  by (simp add: bob_online_def bob_session_def wf_defs ids_ok_def role_exists_def sample_defs)

lemma steward_world_wf: "db_wf (db steward_world)"
  by (simp add: steward_world_def wf_defs ids_ok_def role_exists_def sample_defs)

text \<open>The guard of the last administrator, when it lets an active user be deactivated.\<close>

lemma last_admin_guard_ok:
  assumes run: "run_state (last_admin_guard uid inp u) w = (Inr (), w')" and wf: "db_wf (db w)"
    and off: "ui_active inp = Some False" and u: "u_active u" "''*'' \<in> set (codes_of (db w) uid)"
  shows "\<exists>v\<in>set (users (db w)). u_id v \<noteq> uid \<and> u_active v \<and> ''*'' \<in> set (codes_of (db w) (u_id v))"
proof (rule ccontr)
  let ?holds = "\<lambda>v. u_active v \<and> ''*'' \<in> set (codes_of (db w) (u_id v))"
  assume "\<not> ?thesis"
  then have only: "u_id ` set (filter ?holds (users (db w))) \<subseteq> {uid}" by auto
  have "distinct (map u_id (filter ?holds (users (db w))))"
    using wf by (simp add: wf_defs ids_ok_def distinct_map_filter)
  from distinct_card [OF this]
  have "length (filter ?holds (users (db w))) = card (u_id ` set (filter ?holds (users (db w))))"
    by (simp only: length_map set_map)
  also have "\<dots> \<le> card {uid}" by (rule card_mono [OF _ only]) simp
  finally have few: "length (filter ?holds (users (db w))) \<le> 1" by simp
  from run off u(1) have "run_state (try_bind (user_has_permission_code uid ''*'') (\<lambda>has_star.
          if has_star then
            try_bind count_active_users_with_star (\<lambda>count.
              State_Monad.return (if count \<le> 1 then Inl ErrLastAdmin else Inr ()))
          else State_Monad.return (Inr ()))) w = (Inr (), w')"
    by (simp add: last_admin_guard_def del: run_try_bind)
  then obtain star w1 where a0: "run_state (user_has_permission_code uid ''*'') w = (Inr star, w1)"
    and b0: "run_state (if star then
            try_bind count_active_users_with_star (\<lambda>count.
              State_Monad.return (if count \<le> 1 then Inl ErrLastAdmin else Inr ()))
          else State_Monad.return (Inr ())) w1 = (Inr (), w')"
    unfolding run_try_bind_Inr by blast
  from a0 obtain codes where a: "run_state (permission_repo_list_codes_by_user_id uid) w = (Inr codes, w1)"
    and star: "star = list_ex (\<lambda>c. c = ''*'') codes"
    by (auto simp: user_has_permission_code_def list_codes_by_user_def split: prod.splits sum.splits)
  note b = b0 [unfolded star]
  have "list_ex (\<lambda>c. c = ''*'') codes" using codes_Inr [OF a] u(2) by (auto simp: list_ex_iff)
  with b have "run_state (try_bind count_active_users_with_star (\<lambda>count.
      State_Monad.return (if count \<le> 1 then Inl ErrLastAdmin else Inr ()))) w1 = (Inr (), w')" by simp
  then obtain n w2 where "run_state (permission_repo_count_active_users_with_code ''*'') w1 = (Inr n, w2)" "\<not> n \<le> 1"
    unfolding run_try_bind_Inr count_active_users_with_star_def by (auto split: if_splits)
  moreover have "db w1 = db w" by (rule unchanged_db [OF unchangedD [OF unchanged_reads(3) a]])
  ultimately show False
    using count_active_Inr few active_users_with_code_eq [OF wf, of "''*''"] by fastforce
qed

text \<open>
  C11: \<open>Update\<close> keeps an administrator. When somebody active holds the wildcard, somebody active
  holds it afterwards, whatever is asked for, by whom, and whatever call fails.
\<close>

theorem last_admin_kept:
  assumes run: "run_state (user_service_update s actor uid inp) w = (r, w')" and wf: "db_wf (db w)"
    and admin: "h \<in> set (users (db w))" "u_active h" "''*'' \<in> set (codes_of (db w) (u_id h))"
  shows "\<exists>u\<in>set (users (db w')). u_active u \<and> ''*'' \<in> set (codes_of (db w') (u_id u))"
  using run
proof (cases rule: update_run)
  case (refused e)
  then show ?thesis using admin by auto
next
  case (saved w0 w1 w2 w3 view u changed)
  let ?old = "uv_user view"
  have ids: "u_id u = uid" using saved(3,6) by (auto simp: updates_def dest: find_Some_member)
  obtain keeper where k: "keeper \<in> set (users (db w))" "u_active keeper" "''*'' \<in> set (codes_of (db w) (u_id keeper))"
    "u_id keeper = uid \<longrightarrow> u_active u"
  proof (cases "u_id h = uid \<and> \<not> u_active u")
    case True
    then have "?old = h" using saved(3) ut.find_by_id [of "db w" h] wf admin(1) by (simp add: wf_defs)
    with True saved(6) admin(2) have "ui_active inp = Some False"
      by (auto simp: updates_def opt_else_def split: option.splits)
    with last_admin_guard_ok [OF saved(4)] saved(5) wf True admin \<open>?old = h\<close> that show thesis by auto
  qed (use admin that in blast)
  from saved_tables [OF saved(8)] obtain d stamp t where d: "same_accounts d (db w')"
    "d = db w \<or> d = snd (q_user_update (u\<lparr>u_updated_at := stamp\<rparr>) t (db w))" unfolding unchanged_db [OF saved(7)] by blast
  then have "users (db w') = users (db w) \<or> users (db w') = map (write_row (u\<lparr>u_updated_at := stamp\<rparr>)) (users (db w))"
    "codes_of (db w') = codes_of (db w)"
    using user_update_rows(1) [of "u\<lparr>u_updated_at := stamp\<rparr>" t "db w"] same_accounts_codes [OF d(1)] by auto
  then consider "users (db w') = users (db w)" "codes_of (db w') = codes_of (db w)"
    | v where "users (db w') = map (write_row v) (users (db w))" "codes_of (db w') = codes_of (db w)"
        "u_active v = u_active u" "u_id v = u_id u" by fastforce
  then show ?thesis
  proof cases
    case 2
    then have "u_active (write_row v keeper)" using k ids by (auto simp: write_row_def)
    with 2 k show ?thesis by (intro bexI [of _ "write_row v keeper"]) simp_all
  qed (use k in auto)
qed

theorem last_admin_kept_witness:
  "fst (run_state (user_service_update sample_users 2 1
     \<lparr>ui_name = None, ui_email = None, ui_password = None, ui_role_id = None, ui_active = Some False\<rparr>) steward_world)
   = Inl ErrLastAdmin \<and>
   (\<exists>u\<in>set (users (db (snd (run_state (user_service_update sample_users 2 1
     \<lparr>ui_name = None, ui_email = None, ui_password = None, ui_role_id = None, ui_active = Some False\<rparr>) steward_world)))).
      u_active u)"
proof -
  let ?inp = "\<lparr>ui_name = None, ui_email = None, ui_password = None, ui_role_id = None, ui_active = Some False\<rparr>"
  let ?run = "run_state (user_service_update sample_users 2 1 ?inp) steward_world"
  have "fst ?run = Inl ErrLastAdmin"
    by (simp add: user_eval steward_world_def sample_defs)
  moreover have "\<exists>u\<in>set (users (db (snd ?run))). u_active u"
    using last_admin_kept [of sample_users 2 1 ?inp steward_world "fst ?run" "snd ?run" alice] steward_world_wf
    by (auto simp: steward_world_def sample_defs codes_of_def permissions_of_def)
  ultimately show ?thesis ..
qed

section \<open>Deactivation\<close>

lemma after_deactivation:
  assumes run: "run_state (after_update pc actor uid old new changed) w = ((), w')" and ok: "db_faults w = []"
    and off: "u_active old" "\<not> u_active new"
  shows "\<forall>t\<in>set (sessions (db w')). s_user_id t = uid \<longrightarrow> s_revoked t"
proof -
  from run off obtain r w1 where a: "run_state (session_repo_revoke_all_by_user uid) w = (r, w1)"
    and b: "run_state (do {
        _ \<leftarrow> invalidate_user_cache pc uid;
        _ \<leftarrow> audit_service_log (Some actor) ''user.updated'' ''user'' (Some uid) (Some (user_data old))
          (Some (user_data new @ (if changed then [(''passwordChanged'', JBool True)] else [])));
        audit_service_log (Some actor) ''user.deactivated'' ''user'' (Some uid) (Some (user_data old))
          (Some [(''active'', JBool False)])
      }) w1 = ((), w')"
    by (auto simp: after_update_def Let_def split: prod.splits)
  obtain now where "db w1 = (db w)\<lparr>sessions := revoke_where (\<lambda>s. s_user_id s = uid) now (sessions (db w))\<rparr>"
    using a [unfolded session_repo_revoke_all_by_user_def] ok by (rule revoke_run_healthy)
  moreover have "only_audit (db w1) (db w')"
    by (rule only_auditD [OF _ b]) (intro oa.on_rules respects)
  ultimately have "sessions (db w') = revoke_where (\<lambda>s. s_user_id s = uid) now (sessions (db w))"
    by (simp add: only_audit_def)
  then show ?thesis using revoke_where_effect by (fastforce simp: session_later_def)
qed

text \<open>
  C24: while the database works, a deactivation that answers without an error has ended every
  session of the user: the user was active, is not any more, and no session row of the user is left
  that is not revoked.
\<close>

theorem deactivation_ends_sessions:
  assumes run: "run_state (user_service_update s actor uid inp) w = (Inr view, w')" and wf: "db_wf (db w)"
    and healthy: "db_faults w = []" and off: "ui_active inp = Some False"
    and active: "u \<in> set (users (db w))" "u_id u = uid" "u_active u"
  shows "actor \<noteq> uid \<and> \<not> u_active (uv_user view) \<and> (\<forall>v\<in>set (users (db w')). u_id v = uid \<longrightarrow> \<not> u_active v) \<and>
    (\<forall>t\<in>set (sessions (db w')). s_user_id t = uid \<longrightarrow> s_revoked t)"
  using run
proof (cases rule: update_run)
  case (saved w0 w1 w2 w3 view0 v changed)
  let ?old = "uv_user view0"
  have old: "?old = u" using saved(3) ut.find_by_id [of "db w" u] wf active by (simp add: wf_defs)
  have v: "u_id v = uid" "\<not> u_active v" using saved(6) off old active by (simp_all add: updates_def opt_else_def)
  have ok: "db_faults w3 = []" "db w3 = db w" using saved(7) healthy by (simp_all add: unchanged_def)
  from saved(8) show ?thesis
  proof (cases rule: save_run)
    case (saved stamp t w4)
    let ?v = "v\<lparr>u_updated_at := stamp\<rparr>"
    have "users (db w4) = map (write_row ?v) (users (db w))"
      using user_update_rows(2) [OF saved(2)] saved(3) ok(2) by simp
    then have rows: "users (db w') = map (write_row ?v) (users (db w))"
      using same_accountsD [OF same_accounts_after saved(5)] by (simp add: same_accounts_def)
    have "\<forall>x\<in>set (users (db w')). u_id x = uid \<longrightarrow> \<not> u_active x"
      using rows v by (auto simp: write_row_def)
    moreover have "uv_user view = ?v" using saved(1) by simp
    moreover have "\<forall>t\<in>set (sessions (db w')). s_user_id t = uid \<longrightarrow> s_revoked t"
      using after_deactivation [OF saved(5) saved(4) [OF ok(1)]] old active(3) v(2) by simp
    ultimately show ?thesis using v \<open>\<not> (ui_active inp = Some False \<and> actor = uid)\<close> off by simp
  qed simp_all
qed simp

theorem deactivation_ends_sessions_witness:
  "map s_revoked (sessions (db (snd (run_state (user_service_update sample_users 1 2
     \<lparr>ui_name = None, ui_email = None, ui_password = None, ui_role_id = None, ui_active = Some False\<rparr>) bob_online)))) = [True]"
proof -
  let ?inp = "\<lparr>ui_name = None, ui_email = None, ui_password = None, ui_role_id = None, ui_active = Some False\<rparr>"
  let ?run = "run_state (user_service_update sample_users 1 2 ?inp) bob_online"
  have "fst ?run \<in> range Inr" and rows: "\<exists>t. sessions (db (snd ?run)) = [t] \<and> s_user_id t = 2"
    by (simp_all add: user_eval session_repo_revoke_all_by_user_def bob_online_def bob_session_def sample_defs)
  then obtain view where "?run = (Inr view, snd ?run)" by (metis imageE prod.collapse)
  then have "\<forall>t\<in>set (sessions (db (snd ?run))). s_user_id t = 2 \<longrightarrow> s_revoked t"
    using deactivation_ends_sessions [of sample_users 1 2 ?inp bob_online view "snd ?run" bob] bob_online_wf
    by (simp add: bob_online_def sample_defs)
  with rows show ?thesis by auto
qed

section \<open>Creation\<close>

lemma create_user_cases:
  assumes "run_state (user_service_create s actor ci) w = (r, w')"
  obtains (refused) e where "r = Inl e" "db w' = db w"
  | (tried) w1 h w2 where "validate_email (us_policy s) (ci_email ci) = Inr ()"
      "validate_password_secure (us_policy s) (ci_password ci) (ci_name ci) (ci_email ci) = Inr ()"
      "ci_email ci \<notin> u_email ` set (users (db w))" "unchanged w w2"
      "run_state (hash_password (us_kdf s) (us_params s) (ci_password ci)) w1 = (Inr h, w2)"
      "run_state (try_bind (user_repo_create
           \<lparr>u_id = 0, u_role_id = ci_role_id ci, u_name = ci_name ci, u_email = ci_email ci,
            u_password_hash = h, u_active = True, u_created_at = 0, u_updated_at = 0\<rparr>) (\<lambda>u. do {
           _ \<leftarrow> audit_service_log (Some actor) ''user.created'' ''user'' (Some (u_id u)) None
             (Some [(''name'', JStr (u_name u)), (''email'', JStr (u_email u)), (''roleId'', opt_int_json (u_role_id u))]);
           State_Monad.return (Inr u)
         })) w2 = (r, w')"
proof (cases "validate_email (us_policy s) (ci_email ci)")
  case (Inl e)
  then show thesis using assms refused by (auto simp: user_service_create_def)
next
  case email: (Inr x)
  show thesis
  proof (cases "validate_password_secure (us_policy s) (ci_password ci) (ci_name ci) (ci_email ci)")
    case (Inl e)
    then show thesis using assms email refused by (auto simp: user_service_create_def)
  next
    case (Inr y)
    obtain found w1 where f: "run_state (user_repo_find_by_email (ci_email ci)) w = (found, w1)"
      by (cases "run_state (user_repo_find_by_email (ci_email ci)) w")
    note u1 = unchangedD [OF unchanged_reads(1) f]
    show thesis
    proof (cases "found = Inl ErrNotFound")
      case False
      then have "\<exists>e. r = Inl e \<and> w' = w1"
        using assms email Inr f by (auto simp: user_service_create_def split: sum.splits)
      then show thesis using refused unchanged_db [OF u1] by auto
    next
      case True
      note fresh = user_by_email_none [OF f [unfolded True]]
      from assms email Inr f True have "run_state (try_bind (hash_password (us_kdf s) (us_params s) (ci_password ci)) (\<lambda>h.
         try_bind (user_repo_create
           \<lparr>u_id = 0, u_role_id = ci_role_id ci, u_name = ci_name ci, u_email = ci_email ci,
            u_password_hash = h, u_active = True, u_created_at = 0, u_updated_at = 0\<rparr>) (\<lambda>u. do {
           _ \<leftarrow> audit_service_log (Some actor) ''user.created'' ''user'' (Some (u_id u)) None
             (Some [(''name'', JStr (u_name u)), (''email'', JStr (u_email u)), (''roleId'', opt_int_json (u_role_id u))]);
           State_Monad.return (Inr u)
         }))) w1 = (r, w')"
        by (simp add: user_service_create_def del: run_try_bind)
      then show thesis
      proof (cases rule: try_bindE)
        case (stop e)
        then show thesis
          using refused unchanged_db [OF un.step_trans [OF u1 unchangedD [OF unchanged_parts(1) stop(1)]]] by blast
      next
        case (go h w2)
        show thesis
          by (rule tried [OF _ _ fresh un.step_trans [OF u1 unchangedD [OF unchanged_parts(1) go(1)]] go])
            (simp_all add: email Inr)
      qed
    qed
  qed
qed

text \<open>
  C27: the users that are created. A creation that answers with a user had an e-mail that
  parses to itself and that nobody used, and a password the policy accepts; it appended exactly that
  user, active, under the next identity, with a hash that accepts the password (for a key derivation
  that gives the bytes it is asked for), and with no permission. An answer with another error
  than one of the database has added nobody.
\<close>

theorem create_user_spec:
  assumes run: "run_state (user_service_create s actor ci) w = (r, w')"
    and bounds: "pa_memory (us_params s) < 2 ^ 32" "pa_iterations (us_params s) < 2 ^ 32"
      "pa_parallelism (us_params s) < 2 ^ 8" "pa_key_length (us_params s) < 2 ^ 32"
    and key: "\<And>pw salt i m p n. length (argon2_id_key (us_kdf s) pw salt i m p n) = n"
  shows "user_permissions (db w') = user_permissions (db w) \<and>
    (case r of
       Inl e \<Rightarrow> users (db w') = users (db w) \<or> e = ErrDb
     | Inr u \<Rightarrow>
         validate_email (us_policy s) (ci_email ci) = Inr () \<and>
         validate_password_secure (us_policy s) (ci_password ci) (ci_name ci) (ci_email ci) = Inr () \<and>
         ci_email ci \<notin> u_email ` set (users (db w)) \<and> users (db w') = users (db w) @ [u] \<and>
         u_id u = next_user_id (db w) \<and> u_name u = ci_name ci \<and> u_email u = ci_email ci \<and>
         u_role_id u = ci_role_id ci \<and> u_active u \<and>
         verify (us_kdf s) (u_password_hash u) (ci_password ci) = Inr False)"
  using run
proof (cases rule: create_user_cases)
  case (refused e)
  then show ?thesis by simp
next
  case (tried w1 h w2)
  define row where "row = \<lparr>u_id = 0, u_role_id = ci_role_id ci, u_name = ci_name ci, u_email = ci_email ci,
            u_password_hash = h, u_active = True, u_created_at = 0, u_updated_at = 0\<rparr>"
  note dbw = unchanged_db [OF tried(4)]
  from tried(5) obtain salt where "h = phc_string (us_params s) salt (argon2_id_key (us_kdf s) (ci_password ci) salt
      (pa_iterations (us_params s)) (pa_memory (us_params s)) (pa_parallelism (us_params s)) (pa_key_length (us_params s)))"
    by (rule hash_password_Inr)
  then have accepts: "verify (us_kdf s) h (ci_password ci) = Inr False"
    using verify_phc [OF bounds(1-3) key bounds(4)] by simp
  from tried(6) [folded row_def] show ?thesis
  proof (cases rule: try_bindE)
    case (stop e)
    then show ?thesis
      using run_db_call(6) [of "q_user_create row" w2 "Inl e" w'] dbw
      by (auto simp: user_repo_create_def q_user_create_def Let_def split: if_splits)
  next
    case (go u w3)
    have "users (db w3) = users (db w) @ [u]" "u = row\<lparr>u_id := next_user_id (db w), u_created_at := clock w3, u_updated_at := clock w3\<rparr>"
      "user_permissions (db w3) = user_permissions (db w)"
      using db_call_Inr [OF go(1) [unfolded user_repo_create_def]] dbw
      by (auto simp: q_user_create_def Let_def split: if_splits)
    moreover obtain "r = Inr u" "only_audit (db w3) (db w')"
      using go(2) only_auditD [OF only_audit_log(1)] by (auto split: prod.splits)
    ultimately show ?thesis using tried(1-3) accepts by (simp add: only_audit_def row_def)
  qed
qed

text \<open>The leak service answers every range with no suffix in the example.\<close>

definition creating_users :: user_service where
  "creating_users = sample_users\<lparr>us_policy := sample_policy\<lparr>pe_hibp := (\<lambda>pre. Inr (200, Inr []))\<rparr>\<rparr>"

definition dave :: create_user_input where
  "dave = \<lparr>ci_name = ''Dave'', ci_email = ''dave@x.io'', ci_password = ''Tr0ub4dor-Zebra'', ci_role_id = Some 2\<rparr>"

theorem create_user_spec_witness:
  "map u_email (users (db (snd (run_state (user_service_create creating_users 1 dave) (sample_world\<lparr>entropy := [''sa'']\<rparr>)))))
   = [''alice@x.io'', ''bob@x.io'', ''carol@x.io'', ''dave@x.io'']"
proof -
  let ?w = "sample_world\<lparr>entropy := [''sa'']\<rparr>"
  let ?run = "run_state (user_service_create creating_users 1 dave) ?w"
  have "validate_password_secure (us_policy creating_users) (ci_password dave) (ci_name dave) (ci_email dave) = Inr ()"
    by code_simp
  moreover have "validate_email (us_policy creating_users) (ci_email dave) = Inr ()" by code_simp
  moreover have "pa_salt_length (us_params creating_users) = 2" by code_simp
  ultimately have "fst ?run \<in> range Inr"
    by (simp add: user_service_create_def hash_password_def rand_read_def db_eval dave_def audit_service_log_def sample_defs)
  then obtain u where "?run = (Inr u, snd ?run)" by (rule run_range_Inr)
  then show ?thesis
    using create_user_spec [of creating_users 1 dave ?w "Inr u" "snd ?run"]
    by (simp add: creating_users_def sample_users_def sample_params_def sample_kdf_def dave_def sample_defs)
qed

end
