(* ===== verification/Http.thy ===== *)
theory Http
  imports User_Service Auth_Service
begin

text \<open>
  What the handlers share: requests and responses, the JSON of the rows, the check of numeric route
  parameters (\<open>internal/httputil/params.go\<close>), the error handler of the application
  (\<open>errorHandler\<close> in \<open>internal/app/app.go\<close>), and the middleware that authenticates and authorises
  (\<open>middleware/auth.go\<close>, \<open>middleware/permission.go\<close>).

  A request is what Fiber hands to a handler: the header and cookie of a name (empty when there is
  none), the raw body and query. The context \<open>ctx\<close> is the part of \<open>fiber.Ctx\<close> that the program
  writes: the locals, the route parameters, and the cookies and headers of the response, which stay
  when a handler ends with an error.
\<close>

section \<open>Requests and responses\<close>

record request =
  rq_method :: string
  rq_path :: string
  rq_header :: "string \<Rightarrow> string"
  rq_cookie :: "string \<Rightarrow> string"
  rq_body :: string
  rq_query :: "string \<Rightarrow> string"
  rq_remote :: string

record cookie =
  ck_name :: string
  ck_value :: string
  ck_expires :: int
  ck_http_only :: bool
  ck_secure :: bool
  ck_same_site :: string
  ck_path :: string

datatype payload = Atom json | At_Time int | Arr "payload list" | Obj "(string \<times> payload) list"

text \<open>\<open>Empty\<close>: a status without a body (\<open>SendStatus\<close>).\<close>

datatype body = Empty | Json payload

record ctx =
  cx_user :: "int option"
  cx_session :: "int option"
  cx_params :: "string \<Rightarrow> string"
  cx_cookies :: "cookie list"
  cx_headers :: "(string \<times> string) list"

type_synonym handler = "request \<Rightarrow> ctx \<Rightarrow> (world, (err + nat \<times> body) \<times> ctx) state"

definition fail :: "nat \<Rightarrow> string \<Rightarrow> ctx \<Rightarrow> (world, (err + nat \<times> body) \<times> ctx) state" where
  "fail status message cx = State_Monad.return (Inl (FiberError status message), cx)"

definition pass_on :: "err \<Rightarrow> ctx \<Rightarrow> (world, (err + nat \<times> body) \<times> ctx) state" where
  "pass_on e cx = State_Monad.return (Inl e, cx)"

definition send_json :: "nat \<Rightarrow> payload \<Rightarrow> ctx \<Rightarrow> (world, (err + nat \<times> body) \<times> ctx) state" where
  "send_json status p cx = State_Monad.return (Inr (status, Json p), cx)"

definition send_status :: "nat \<Rightarrow> ctx \<Rightarrow> (world, (err + nat \<times> body) \<times> ctx) state" where
  "send_status status cx = State_Monad.return (Inr (status, Empty), cx)"

section \<open>The JSON of the rows\<close>

text \<open>The fields tagged \<open>json:"-"\<close> are left out, those tagged \<open>omitempty\<close> when there is nothing.\<close>

definition json_opt_int :: "int option \<Rightarrow> payload" where
  "json_opt_int x = (case x of None \<Rightarrow> Atom JNull | Some i \<Rightarrow> Atom (JInt i))"

definition omit_empty :: "string \<Rightarrow> ('a \<Rightarrow> payload) \<Rightarrow> 'a option \<Rightarrow> (string \<times> payload) list" where
  "omit_empty name f x = (case x of None \<Rightarrow> [] | Some v \<Rightarrow> [(name, f v)])"

definition json_role :: "role \<Rightarrow> payload" where
  "json_role r = Obj [(''id'', Atom (JInt (r_id r))), (''name'', Atom (JStr (r_name r))),
     (''description'', Atom (JStr (r_description r))), (''createdAt'', At_Time (r_created_at r))]"

definition json_permission :: "permission \<Rightarrow> payload" where
  "json_permission p = Obj [(''id'', Atom (JInt (p_id p))), (''code'', Atom (JStr (p_code p))),
     (''description'', Atom (JStr (p_description p))), (''createdAt'', At_Time (p_created_at p))]"

definition json_user :: "user_view \<Rightarrow> payload" where
  "json_user v = (let u = uv_user v in Obj
     ([(''id'', Atom (JInt (u_id u))), (''roleId'', json_opt_int (u_role_id u)),
       (''name'', Atom (JStr (u_name u))), (''email'', Atom (JStr (u_email u))),
       (''active'', Atom (JBool (u_active u))), (''createdAt'', At_Time (u_created_at u)),
       (''updatedAt'', At_Time (u_updated_at u))] @
      omit_empty ''role'' json_role (uv_role v) @
      (if uv_permissions v = [] then [] else [(''permissions'', Arr (map json_permission (uv_permissions v)))])))"

text \<open>A session with the flag \<open>isCurrent\<close> of \<open>ListSessions\<close>.\<close>

definition json_session :: "bool \<Rightarrow> session \<Rightarrow> payload" where
  "json_session is_current s = Obj
     ([(''id'', Atom (JInt (s_id s))), (''userId'', Atom (JInt (s_user_id s))),
       (''expiresAt'', At_Time (s_expires_at s)), (''revoked'', Atom (JBool (s_revoked s)))] @
      omit_empty ''revokedAt'' At_Time (s_revoked_at s) @
      omit_empty ''ipAddress'' (Atom \<circ> JStr) (s_ip_address s) @
      omit_empty ''userAgent'' (Atom \<circ> JStr) (s_user_agent s) @
      omit_empty ''lastActivityAt'' At_Time (s_last_activity_at s) @
      [(''createdAt'', At_Time (s_created_at s)), (''isCurrent'', Atom (JBool is_current))])"

definition json_data :: "json_map option \<Rightarrow> payload" where
  "json_data m = (case m of None \<Rightarrow> Atom JNull | Some kvs \<Rightarrow> Obj (map (\<lambda>(k, v). (k, Atom v)) kvs))"

definition json_audit_log :: "audit_log \<Rightarrow> payload" where
  "json_audit_log a = Obj
     [(''id'', Atom (JInt (al_id a))), (''userId'', json_opt_int (al_user_id a)),
      (''action'', Atom (JStr (al_action a))), (''entity'', Atom (JStr (al_entity a))),
      (''entityId'', json_opt_int (al_entity_id a)), (''oldData'', json_data (al_old_data a)),
      (''newData'', json_data (al_new_data a)), (''createdAt'', At_Time (al_created_at a))]"

section \<open>Route parameters and errors\<close>

definition parse_positive_int64 :: "string \<Rightarrow> string \<Rightarrow> err + int" where
  "parse_positive_int64 raw field_label = (case parse_int64 raw of
     None \<Rightarrow> Inl (FiberError 400 (''invalid '' @ field_label))
   | Some i \<Rightarrow> if i \<le> 0 then Inl (FiberError 400 (''invalid '' @ field_label)) else Inr i)"

definition error_handler :: "err \<Rightarrow> nat \<times> body" where
  "error_handler e = (case e of
     FiberError code message \<Rightarrow> (code, Json (Obj [(''error'', Atom (JStr message))]))
   | _ \<Rightarrow> (500, Json (Obj [(''error'', Atom (JStr ''internal server error''))])))"

section \<open>Middleware\<close>

text \<open>\<open>UserID\<close> and \<open>SessionID\<close>: zero when the middleware did not run.\<close>

definition ctx_user_id :: "ctx \<Rightarrow> int" where
  "ctx_user_id cx = (case cx_user cx of None \<Rightarrow> 0 | Some i \<Rightarrow> i)"

definition ctx_session_id :: "ctx \<Rightarrow> int" where
  "ctx_session_id cx = (case cx_session cx of None \<Rightarrow> 0 | Some i \<Rightarrow> i)"

definition bearer :: string where
  "bearer = ''Bearer ''"

definition auth_mw :: "auth_service \<Rightarrow> handler \<Rightarrow> handler" where
  "auth_mw s nxt rq cx =
     (let header = rq_header rq ''Authorization'' in
      if \<not> has_prefix header bearer then fail 401 ''missing bearer token'' cx
      else do {
        validated \<leftarrow> validate_access_token (as_jwt s) (trim_prefix header bearer);
        (case validated of
           Inl _ \<Rightarrow> fail 401 ''invalid or expired token'' cx
         | Inr claims \<Rightarrow> do {
             found \<leftarrow> user_repo_find_by_id (tc_user_id claims);
             (case found of
                Inl _ \<Rightarrow> fail 401 ''user not found or inactive'' cx
              | Inr view \<Rightarrow>
                  if \<not> u_active (uv_user view) then fail 401 ''user not found or inactive'' cx
                  else do {
                    touched \<leftarrow> touch_session (tc_session_id claims);
                    (case touched of
                       Inl _ \<Rightarrow> fail 401 ''session is revoked or expired'' cx
                     | Inr active \<Rightarrow>
                         if \<not> active then fail 401 ''session is revoked or expired'' cx
                         else nxt rq (cx\<lparr>cx_user := Some (tc_user_id claims), cx_session := Some (tc_session_id claims)\<rparr>))
                  })
           })
      })"

definition require_permission_mw :: "perm_cache \<Rightarrow> string \<Rightarrow> handler \<Rightarrow> handler" where
  "require_permission_mw pc code nxt rq cx =
     (if ctx_user_id cx = 0 then fail 401 ''not authenticated'' cx
      else do {
        allowed \<leftarrow> has_permission pc (ctx_user_id cx) code;
        (case allowed of
           Inl _ \<Rightarrow> fail 500 ''permission check failed'' cx
         | Inr b \<Rightarrow> if \<not> b then fail 403 (''missing permission: '' @ code) cx else nxt rq cx)
      })"

text \<open>The loop over the codes of \<open>RequireAnyPermission\<close>.\<close>

primrec try_codes :: "perm_cache \<Rightarrow> string list \<Rightarrow> handler \<Rightarrow> handler" where
  "try_codes pc [] nxt rq cx = fail 403 ''missing permission'' cx"
| "try_codes pc (code # codes) nxt rq cx = do {
     allowed \<leftarrow> has_permission pc (ctx_user_id cx) code;
     (case allowed of
        Inl _ \<Rightarrow> fail 500 ''permission check failed'' cx
      | Inr b \<Rightarrow> if b then nxt rq cx else try_codes pc codes nxt rq cx)
   }"

definition require_any_permission_mw :: "perm_cache \<Rightarrow> string list \<Rightarrow> handler \<Rightarrow> handler" where
  "require_any_permission_mw pc codes nxt rq cx =
     (if ctx_user_id cx = 0 then fail 401 ''not authenticated'' cx else try_codes pc codes nxt rq cx)"

end
