(* ===== verification/Handlers.thy ===== *)
theory Handlers
  imports Http
begin

text \<open>
  The HTTP handlers (\<open>internal/auth/handler.go\<close>, \<open>internal/users/handler.go\<close>,
  \<open>internal/permissions/handler.go\<close>, \<open>internal/audit/handler.go\<close>): what each reads from the request,
  the operation of the service it calls, and the status each error becomes. The functions of Fiber
  they use are the fields of \<open>fiber_lib\<close>: the parsers of the bodies (\<open>None\<close> for an error), the
  client's address, a number of the query with its default.
\<close>

section \<open>Bodies of requests\<close>

record login_request =
  lr_email :: string
  lr_password :: string

record create_request =
  cr_name :: string
  cr_email :: string
  cr_password :: string
  cr_role_id :: "int option"

record update_request =
  ur_name :: "string option"
  ur_email :: "string option"
  ur_password :: "string option"
  ur_role_id :: "int option"
  ur_active :: "bool option"

record create_permission_request =
  cpr_code :: string
  cpr_description :: string

record update_permission_request =
  upr_description :: string

record grant_request =
  gr_permission_id :: int

record fiber_lib =
  fb_ip :: "request \<Rightarrow> string"
  fb_query_int :: "request \<Rightarrow> string \<Rightarrow> int \<Rightarrow> int"
  fb_login_body :: "request \<Rightarrow> login_request option"
  fb_create_body :: "request \<Rightarrow> create_request option"
  fb_update_body :: "request \<Rightarrow> update_request option"
  fb_create_permission_body :: "request \<Rightarrow> create_permission_request option"
  fb_update_permission_body :: "request \<Rightarrow> update_permission_request option"
  fb_grant_body :: "request \<Rightarrow> grant_request option"

section \<open>Authentication\<close>

definition refresh_cookie_name :: string where
  "refresh_cookie_name = ''refresh_token''"

record auth_handler =
  ah_auth :: auth_service
  ah_cookie_secure :: bool
  ah_rate_window :: int

definition refresh_cookie :: "auth_handler \<Rightarrow> string \<Rightarrow> int \<Rightarrow> cookie" where
  "refresh_cookie h token expires = \<lparr>ck_name = refresh_cookie_name, ck_value = token, ck_expires = expires,
     ck_http_only = True, ck_secure = ah_cookie_secure h, ck_same_site = ''Strict'', ck_path = ''/''\<rparr>"

definition set_refresh_cookie :: "auth_handler \<Rightarrow> string \<Rightarrow> int \<Rightarrow> ctx \<Rightarrow> ctx" where
  "set_refresh_cookie h token expires cx = cx\<lparr>cx_cookies := cx_cookies cx @ [refresh_cookie h token expires]\<rparr>"

definition clear_refresh_cookie :: "auth_handler \<Rightarrow> ctx \<Rightarrow> (world, ctx) state" where
  "clear_refresh_cookie h cx = do {
     now \<leftarrow> time_now;
     State_Monad.return (cx\<lparr>cx_cookies := cx_cookies cx @ [refresh_cookie h [] (now - hour)]\<rparr>)
   }"

definition access_token_json :: "token_pair \<Rightarrow> payload" where
  "access_token_json pair = Obj [(''accessToken'', Atom (JStr (tp_access_token pair)))]"

definition login_handler :: "fiber_lib \<Rightarrow> auth_handler \<Rightarrow> handler" where
  "login_handler F h rq cx = (case fb_login_body F rq of
     None \<Rightarrow> fail 400 ''email and password are required'' cx
   | Some req \<Rightarrow>
       if lr_email req = [] \<or> lr_password req = [] then fail 400 ''email and password are required'' cx
       else do {
         result \<leftarrow> login (ah_auth h) (lr_email req) (lr_password req) (fb_ip F rq) (rq_header rq ''User-Agent'');
         (case result of
            Inl e \<Rightarrow>
              (if e = ErrRateLimited then
                 fail 429 ''too many login attempts''
                   (cx\<lparr>cx_headers := cx_headers cx @ [(''Retry-After'', dec (ah_rate_window h div second))]\<rparr>)
               else if e = ErrRateLimitDown then fail 503 ''login temporarily unavailable'' cx
               else if e = ErrInvalidCredentials then fail 401 ''invalid credentials'' cx
               else pass_on e cx)
          | Inr pair \<Rightarrow> send_json 200 (access_token_json pair)
              (set_refresh_cookie h (tp_refresh_token pair) (tp_refresh_expires_at pair) cx))
       })"

definition refresh_handler :: "fiber_lib \<Rightarrow> auth_handler \<Rightarrow> handler" where
  "refresh_handler F h rq cx =
     (let refresh_token = rq_cookie rq refresh_cookie_name in
      if refresh_token = [] then fail 401 ''missing refresh token'' cx
      else do {
        result \<leftarrow> refresh (ah_auth h) refresh_token (fb_ip F rq) (rq_header rq ''User-Agent'');
        (case result of
           Inl e \<Rightarrow>
             (if e = ErrInvalidSession \<or> e = ErrTokenReuse then do {
                cx' \<leftarrow> clear_refresh_cookie h cx;
                fail 401 ''invalid session'' cx'
              }
              else pass_on e cx)
         | Inr pair \<Rightarrow> send_json 200 (access_token_json pair)
             (set_refresh_cookie h (tp_refresh_token pair) (tp_refresh_expires_at pair) cx))
      })"

definition logout_handler :: "auth_handler \<Rightarrow> handler" where
  "logout_handler h rq cx =
     (let refresh_token = rq_cookie rq refresh_cookie_name in do {
        result \<leftarrow> (if refresh_token \<noteq> [] then logout (ah_auth h) refresh_token else State_Monad.return (Inr ()));
        (case result of
           Inl e \<Rightarrow> pass_on e cx
         | Inr _ \<Rightarrow> do {
             cx' \<leftarrow> clear_refresh_cookie h cx;
             send_status 204 cx'
           })
      })"

definition list_sessions_handler :: handler where
  "list_sessions_handler rq cx = do {
     result \<leftarrow> list_active_sessions (ctx_user_id cx);
     (case result of
        Inl e \<Rightarrow> pass_on e cx
      | Inr ss \<Rightarrow> send_json 200 (Arr (map (\<lambda>s. json_session (s_id s = ctx_session_id cx) s) ss)) cx)
   }"

definition revoke_session_handler :: handler where
  "revoke_session_handler rq cx = (case parse_int64 (cx_params cx ''id'') of
     None \<Rightarrow> fail 400 ''invalid session id'' cx
   | Some sid \<Rightarrow>
       if sid = ctx_session_id cx then fail 409 ''cannot revoke your current session'' cx
       else do {
         result \<leftarrow> revoke_session sid (ctx_user_id cx);
         (case result of Inl e \<Rightarrow> pass_on e cx | Inr _ \<Rightarrow> send_status 204 cx)
       })"

definition revoke_all_sessions_handler :: handler where
  "revoke_all_sessions_handler rq cx = do {
     result \<leftarrow> revoke_other_sessions (ctx_user_id cx) (ctx_session_id cx);
     (case result of Inl e \<Rightarrow> pass_on e cx | Inr _ \<Rightarrow> send_status 204 cx)
   }"

section \<open>Users\<close>

text \<open>The messages in Portuguese; the bytes of their letters outside ASCII are written out.\<close>

definition password_message :: "err \<Rightarrow> string option" where
  "password_message e =
     (if e = ErrPasswordTooShort then Some ''A senha deve possuir pelo menos 12 caracteres.''
      else if e = ErrPasswordTooLong then
        Some (''A senha deve possuir no m'' @ [CHR 0xC3, CHR 0xA1] @ ''ximo 128 caracteres.'')
      else if e = ErrPasswordComplexity then
        Some (''A senha deve conter ao menos uma letra mai'' @ [CHR 0xC3, CHR 0xBA] @ ''scula, uma min'' @
          [CHR 0xC3, CHR 0xBA] @ ''scula e um n'' @ [CHR 0xC3, CHR 0xBA] @ ''mero.'')
      else if e = ErrPasswordWeak then
        Some (''A senha '' @ [CHR 0xC3, CHR 0xA9] @ '' considerada fraca. Escolha uma senha mais forte.'')
      else if e = ErrPasswordPwned then
        Some (''Esta senha j'' @ [CHR 0xC3, CHR 0xA1] @ '' apareceu em vazamentos p'' @ [CHR 0xC3, CHR 0xBA] @
          ''blicos e n'' @ [CHR 0xC3, CHR 0xA3] @ ''o pode ser utilizada.'')
      else None)"

definition valid_email :: "policy_env \<Rightarrow> string \<Rightarrow> bool" where
  "valid_email env email = (case pe_parse_address env email of None \<Rightarrow> False | Some addr \<Rightarrow> addr = email)"

definition list_users_handler :: handler where
  "list_users_handler rq cx = do {
     result \<leftarrow> user_service_list;
     (case result of Inl e \<Rightarrow> pass_on e cx | Inr us \<Rightarrow> send_json 200 (Arr (map json_user us)) cx)
   }"

definition get_user_handler :: handler where
  "get_user_handler rq cx = (case parse_positive_int64 (cx_params cx ''id'') ''id'' of
     Inl e \<Rightarrow> pass_on e cx
   | Inr uid \<Rightarrow> do {
       result \<leftarrow> user_service_find_by_id uid;
       (case result of
          Inl e \<Rightarrow> if e = ErrNotFound then fail 404 ''user not found'' cx else pass_on e cx
        | Inr v \<Rightarrow> send_json 200 (json_user v) cx)
     })"

definition me_handler :: handler where
  "me_handler rq cx = do {
     result \<leftarrow> user_service_find_by_id (ctx_user_id cx);
     (case result of
        Inl e \<Rightarrow> if e = ErrNotFound then fail 401 ''invalid or expired session'' cx else pass_on e cx
      | Inr v \<Rightarrow>
          if \<not> u_active (uv_user v) then fail 401 ''invalid or expired session'' cx
          else do {
            codes \<leftarrow> list_codes_by_user (ctx_user_id cx);
            (case codes of
               Inl e \<Rightarrow> pass_on e cx
             | Inr cs \<Rightarrow> send_json 200 (Obj [(''user'', json_user v),
                 (''permissions'', Arr (map (Atom \<circ> JStr) cs))]) cx)
          })
   }"

definition create_user_error :: "err \<Rightarrow> err" where
  "create_user_error e =
     (if e = ErrEmailTaken then FiberError 409 ''email already in use''
      else if e = ErrInvalidEmail then FiberError 400 ''invalid email format''
      else (case password_message e of Some m \<Rightarrow> FiberError 400 m | None \<Rightarrow> e))"

text \<open>The new user as it is answered: no relation is loaded.\<close>

definition create_user_handler :: "fiber_lib \<Rightarrow> user_service \<Rightarrow> handler" where
  "create_user_handler F s rq cx = (case fb_create_body F rq of
     None \<Rightarrow> fail 400 ''invalid body'' cx
   | Some req \<Rightarrow>
       if cr_name req = [] \<or> cr_email req = [] \<or> cr_password req = []
       then fail 400 ''name, email and password are required'' cx
       else if \<not> valid_email (us_policy s) (cr_email req) then fail 400 ''invalid email format'' cx
       else do {
         result \<leftarrow> user_service_create s (ctx_user_id cx)
           \<lparr>ci_name = cr_name req, ci_email = cr_email req, ci_password = cr_password req, ci_role_id = cr_role_id req\<rparr>;
         (case result of
            Inl e \<Rightarrow> pass_on (create_user_error e) cx
          | Inr u \<Rightarrow> send_json 201 (json_user \<lparr>uv_user = u, uv_role = None, uv_permissions = []\<rparr>) cx)
       })"

definition update_user_error :: "err \<Rightarrow> err" where
  "update_user_error e =
     (if e = ErrNotFound then FiberError 404 ''user not found''
      else if e = ErrCannotDeactivateSelf then FiberError 409 ''cannot deactivate your own account''
      else if e = ErrLastAdmin then FiberError 409 ''cannot deactivate the last admin''
      else if e = ErrEmailTaken then FiberError 409 ''email already in use''
      else if e = ErrForbidden then FiberError 403 ''missing permission for this update''
      else if e = ErrInvalidEmail then FiberError 400 ''invalid email format''
      else (case password_message e of Some m \<Rightarrow> FiberError 400 m | None \<Rightarrow> e))"

definition update_user_handler :: "fiber_lib \<Rightarrow> user_service \<Rightarrow> handler" where
  "update_user_handler F s rq cx = (case parse_positive_int64 (cx_params cx ''id'') ''id'' of
     Inl e \<Rightarrow> pass_on e cx
   | Inr uid \<Rightarrow>
       (case fb_update_body F rq of
          None \<Rightarrow> fail 400 ''invalid body'' cx
        | Some req \<Rightarrow>
            if ur_password req = Some [] then fail 400 ''password cannot be empty'' cx
            else if (case ur_email req of None \<Rightarrow> False | Some email \<Rightarrow> \<not> valid_email (us_policy s) email)
            then fail 400 ''invalid email format'' cx
            else do {
              result \<leftarrow> user_service_update s (ctx_user_id cx) uid
                \<lparr>ui_name = ur_name req, ui_email = ur_email req, ui_password = ur_password req,
                 ui_role_id = ur_role_id req, ui_active = ur_active req\<rparr>;
              (case result of
                 Inl e \<Rightarrow> pass_on (update_user_error e) cx
               | Inr v \<Rightarrow> send_json 200 (json_user v) cx)
            }))"

section \<open>Permissions\<close>

definition list_permissions_handler :: "(string \<Rightarrow> string) \<Rightarrow> handler" where
  "list_permissions_handler collate rq cx = do {
     result \<leftarrow> list_all_permissions collate;
     (case result of Inl e \<Rightarrow> pass_on e cx | Inr ps \<Rightarrow> send_json 200 (Arr (map json_permission ps)) cx)
   }"

definition create_permission_handler :: "fiber_lib \<Rightarrow> handler" where
  "create_permission_handler F rq cx = (case fb_create_permission_body F rq of
     None \<Rightarrow> fail 400 ''invalid body'' cx
   | Some req \<Rightarrow>
       if trim_space (cpr_code req) = [] then fail 400 ''code is required'' cx
       else do {
         result \<leftarrow> create_permission (ctx_user_id cx) (cpr_code req) (cpr_description req);
         (case result of
            Inl e \<Rightarrow>
              (if e = ErrInvalidPermissionCode then fail 400 ''invalid permission code'' cx
               else if e = ErrPermissionCodeTaken then fail 409 ''permission code already exists'' cx
               else pass_on e cx)
          | Inr p \<Rightarrow> send_json 201 (json_permission p) cx)
       })"

definition update_permission_handler :: "fiber_lib \<Rightarrow> handler" where
  "update_permission_handler F rq cx = (case parse_positive_int64 (cx_params cx ''id'') ''id'' of
     Inl e \<Rightarrow> pass_on e cx
   | Inr pid \<Rightarrow>
       (case fb_update_permission_body F rq of
          None \<Rightarrow> fail 400 ''invalid body'' cx
        | Some req \<Rightarrow> do {
            result \<leftarrow> update_description (ctx_user_id cx) pid (upr_description req);
            (case result of
               Inl e \<Rightarrow> if e = ErrNotFound then fail 404 ''permission not found'' cx else pass_on e cx
             | Inr p \<Rightarrow> send_json 200 (json_permission p) cx)
          }))"

definition delete_permission_handler :: handler where
  "delete_permission_handler rq cx = (case parse_positive_int64 (cx_params cx ''id'') ''id'' of
     Inl e \<Rightarrow> pass_on e cx
   | Inr pid \<Rightarrow> do {
       result \<leftarrow> delete_permission (ctx_user_id cx) pid;
       (case result of
          Inl e \<Rightarrow>
            (if e = ErrNotFound then fail 404 ''permission not found'' cx
             else if e = ErrProtectedPermission then fail 409 ''protected permission'' cx
             else if e = ErrPermissionInUse then fail 409 ''permission in use'' cx
             else pass_on e cx)
        | Inr _ \<Rightarrow> send_status 204 cx)
     })"

definition grant_handler :: "fiber_lib \<Rightarrow> perm_cache \<Rightarrow> handler" where
  "grant_handler F pc rq cx = (case parse_positive_int64 (cx_params cx ''id'') ''user id'' of
     Inl e \<Rightarrow> pass_on e cx
   | Inr uid \<Rightarrow>
       (case fb_grant_body F rq of
          None \<Rightarrow> fail 400 ''permissionId is required'' cx
        | Some req \<Rightarrow>
            if gr_permission_id req \<le> 0 then fail 400 ''permissionId is required'' cx
            else do {
              result \<leftarrow> grant pc (ctx_user_id cx) uid (gr_permission_id req);
              (case result of
                 Inl e \<Rightarrow>
                   (if e = ErrNotFound then fail 404 ''user or permission not found'' cx
                    else if e = ErrForbidden then fail 403 ''cannot grant permission you do not have'' cx
                    else pass_on e cx)
               | Inr _ \<Rightarrow> send_status 204 cx)
            }))"

definition revoke_handler :: "perm_cache \<Rightarrow> handler" where
  "revoke_handler pc rq cx = (case parse_positive_int64 (cx_params cx ''id'') ''user id'' of
     Inl e \<Rightarrow> pass_on e cx
   | Inr uid \<Rightarrow>
       (case parse_positive_int64 (cx_params cx ''permissionId'') ''permissionId'' of
          Inl e \<Rightarrow> pass_on e cx
        | Inr pid \<Rightarrow> do {
            result \<leftarrow> revoke pc (ctx_user_id cx) uid pid;
            (case result of
               Inl e \<Rightarrow> if e = ErrNotFound then fail 404 ''user or permission not found'' cx else pass_on e cx
             | Inr _ \<Rightarrow> send_status 204 cx)
          }))"

definition list_roles_handler :: "(string \<Rightarrow> string) \<Rightarrow> handler" where
  "list_roles_handler collate rq cx = do {
     result \<leftarrow> list_roles collate;
     (case result of Inl e \<Rightarrow> pass_on e cx | Inr rs \<Rightarrow> send_json 200 (Arr (map json_role rs)) cx)
   }"

section \<open>The audit log\<close>

definition audit_list_handler :: "fiber_lib \<Rightarrow> handler" where
  "audit_list_handler F rq cx =
     (let limit0 = fb_query_int F rq ''limit'' 50;
          limit = (if limit0 \<le> 0 \<or> 200 < limit0 then 50 else limit0);
          offset0 = fb_query_int F rq ''offset'' 0;
          offset = (if offset0 < 0 then 0 else offset0)
      in do {
        result \<leftarrow> audit_service_list (nat limit) (nat offset);
        (case result of Inl e \<Rightarrow> pass_on e cx | Inr ls \<Rightarrow> send_json 200 (Arr (map json_audit_log ls)) cx)
      })"

lemmas handler_defs = login_handler_def refresh_handler_def logout_handler_def list_sessions_handler_def
  revoke_session_handler_def revoke_all_sessions_handler_def list_users_handler_def get_user_handler_def
  me_handler_def create_user_handler_def update_user_handler_def list_permissions_handler_def
  create_permission_handler_def update_permission_handler_def delete_permission_handler_def
  grant_handler_def revoke_handler_def list_roles_handler_def audit_list_handler_def

lemmas reply_defs = fail_def pass_on_def send_json_def send_status_def clear_refresh_cookie_def

lemma evolves_handlers [respects]:
  "state_io_rel (on_db evolves) (login_handler F h rq cx)"
  "state_io_rel (on_db evolves) (refresh_handler F h rq cx)"
  "state_io_rel (on_db evolves) (logout_handler h rq cx)"
  "state_io_rel (on_db evolves) (list_sessions_handler rq cx)"
  "state_io_rel (on_db evolves) (revoke_session_handler rq cx)"
  "state_io_rel (on_db evolves) (revoke_all_sessions_handler rq cx)"
  "state_io_rel (on_db evolves) (list_users_handler rq cx)"
  "state_io_rel (on_db evolves) (get_user_handler rq cx)"
  "state_io_rel (on_db evolves) (me_handler rq cx)"
  "state_io_rel (on_db evolves) (create_user_handler F s rq cx)"
  "state_io_rel (on_db evolves) (update_user_handler F s rq cx)"
  "state_io_rel (on_db evolves) (list_permissions_handler collate rq cx)"
  "state_io_rel (on_db evolves) (create_permission_handler F rq cx)"
  "state_io_rel (on_db evolves) (update_permission_handler F rq cx)"
  "state_io_rel (on_db evolves) (delete_permission_handler rq cx)"
  "state_io_rel (on_db evolves) (grant_handler F pc rq cx)"
  "state_io_rel (on_db evolves) (revoke_handler pc rq cx)"
  "state_io_rel (on_db evolves) (list_roles_handler collate rq cx)"
  "state_io_rel (on_db evolves) (audit_list_handler F rq cx)"
  unfolding handler_defs reply_defs
  by (intro ev.on_rules respects)+

end
