(* ===== verification/Routes.thy ===== *)
theory Routes
  imports Handlers Auth_Lemmas
begin

text \<open>
  The routing table (\<open>backend/routes/routes.go\<close>, and \<open>/health\<close> of \<open>internal/app/app.go\<close>) and how a
  request is served: the row Fiber's router picks, the chain of middleware and handler registered
  for it, and the error handler. The choice of the row and of the route parameters is Fiber's
  (\<open>rl_match\<close>, which gets the registered methods and paths in their order), so is the error for a
  request that matches none.
\<close>

section \<open>The table\<close>

record app =
  ap_fiber :: fiber_lib
  ap_auth :: auth_handler
  ap_users :: user_service
  ap_perms :: perm_cache
  ap_collate :: "string \<Rightarrow> string"

text \<open>The middleware before a handler: none, \<open>authMW\<close>, or \<open>authMW\<close> and one of the two checks.\<close>

datatype guard = Public | Authenticated | Needs string | Needs_Any "string list"

record route =
  rt_method :: string
  rt_path :: string
  rt_guard :: guard
  rt_handler :: handler

definition route_of :: "string \<Rightarrow> string \<Rightarrow> guard \<Rightarrow> handler \<Rightarrow> route" where
  "route_of m p g h = \<lparr>rt_method = m, rt_path = p, rt_guard = g, rt_handler = h\<rparr>"

definition db_ping :: "(world, err + unit) state" where
  "db_ping = db_call (\<lambda>now d. (Inr (), d))"

definition redis_ping :: "(world, err + unit) state" where
  "redis_ping = redis_call (\<lambda>now st. (Inr (), st))"

definition health_handler :: handler where
  "health_handler rq cx = do {
     pg \<leftarrow> db_ping;
     (case pg of
        Inl _ \<Rightarrow> fail 503 ''postgres unavailable'' cx
      | Inr _ \<Rightarrow> do {
          rd \<leftarrow> redis_ping;
          (case rd of
             Inl _ \<Rightarrow> fail 503 ''redis unavailable'' cx
           | Inr _ \<Rightarrow> send_json 200 (Obj [(''status'', Atom (JStr ''ok''))]) cx)
        })
   }"

definition setup_routes :: "app \<Rightarrow> route list" where
  "setup_routes A = (let F = ap_fiber A; h = ap_auth A; us = ap_users A; pc = ap_perms A in
    [route_of ''POST'' ''/auth/login'' Public (login_handler F h),
     route_of ''POST'' ''/auth/refresh'' Public (refresh_handler F h),
     route_of ''POST'' ''/auth/logout'' Public (logout_handler h),
     route_of ''GET'' ''/me'' Authenticated me_handler,
     route_of ''GET'' ''/auth/sessions'' Authenticated list_sessions_handler,
     route_of ''DELETE'' ''/auth/sessions'' Authenticated revoke_all_sessions_handler,
     route_of ''DELETE'' ''/auth/sessions/:id'' Authenticated revoke_session_handler,
     route_of ''GET'' ''/users'' (Needs ''users.read'') list_users_handler,
     route_of ''POST'' ''/users'' (Needs ''users.create'') (create_user_handler F us),
     route_of ''GET'' ''/users/:id'' (Needs ''users.read'') get_user_handler,
     route_of ''PATCH'' ''/users/:id'' (Needs_Any [''users.update'', ''users.password.reset'', ''users.deactivate''])
       (update_user_handler F us),
     route_of ''GET'' ''/roles'' (Needs ''users.read'') (list_roles_handler (ap_collate A)),
     route_of ''GET'' ''/permissions'' (Needs ''permissions.read'') (list_permissions_handler (ap_collate A)),
     route_of ''POST'' ''/permissions'' (Needs ''permissions.create'') (create_permission_handler F),
     route_of ''PATCH'' ''/permissions/:id'' (Needs ''permissions.update'') (update_permission_handler F),
     route_of ''DELETE'' ''/permissions/:id'' (Needs ''permissions.delete'') delete_permission_handler,
     route_of ''POST'' ''/users/:id/permissions'' (Needs ''permissions.grant'') (grant_handler F pc),
     route_of ''DELETE'' ''/users/:id/permissions/:permissionId'' (Needs ''permissions.revoke'') (revoke_handler pc),
     route_of ''GET'' ''/audit-logs'' (Needs ''audit_logs.read'') (audit_list_handler F)])"

definition registered :: "app \<Rightarrow> route list" where
  "registered A = route_of ''GET'' ''/health'' Public health_handler # setup_routes A"

section \<open>Serving a request\<close>

definition chain :: "app \<Rightarrow> guard \<Rightarrow> handler \<Rightarrow> handler" where
  "chain A g h = (case g of
     Public \<Rightarrow> h
   | Authenticated \<Rightarrow> auth_mw (ah_auth (ap_auth A)) h
   | Needs code \<Rightarrow> auth_mw (ah_auth (ap_auth A)) (require_permission_mw (ap_perms A) code h)
   | Needs_Any codes \<Rightarrow> auth_mw (ah_auth (ap_auth A)) (require_any_permission_mw (ap_perms A) codes h))"

record response =
  rs_status :: nat
  rs_body :: body
  rs_cookies :: "cookie list"
  rs_headers :: "(string \<times> string) list"

definition respond :: "(err + nat \<times> body) \<times> ctx \<Rightarrow> response" where
  "respond out = (case out of (r, cx) \<Rightarrow>
     (case (case r of Inl e \<Rightarrow> error_handler e | Inr ok \<Rightarrow> ok) of (status, b) \<Rightarrow>
        \<lparr>rs_status = status, rs_body = b, rs_cookies = cx_cookies cx, rs_headers = cx_headers cx\<rparr>))"

record router =
  rl_match :: "(string \<times> string) list \<Rightarrow> request \<Rightarrow> (nat \<times> (string \<Rightarrow> string)) option"
  rl_no_route :: "request \<Rightarrow> err"

definition new_ctx :: "(string \<Rightarrow> string) \<Rightarrow> ctx" where
  "new_ctx ps = \<lparr>cx_user = None, cx_session = None, cx_params = ps, cx_cookies = [], cx_headers = []\<rparr>"

definition picked :: "router \<Rightarrow> app \<Rightarrow> request \<Rightarrow> (route \<times> (string \<Rightarrow> string)) option" where
  "picked R A rq =
     (case rl_match R (map (\<lambda>r. (rt_method r, rt_path r)) (registered A)) rq of
        None \<Rightarrow> None
      | Some (i, ps) \<Rightarrow> if i < length (registered A) then Some (registered A ! i, ps) else None)"

definition serve :: "router \<Rightarrow> app \<Rightarrow> request \<Rightarrow> (world, response) state" where
  "serve R A rq = do {
     out \<leftarrow> (case picked R A rq of
       None \<Rightarrow> pass_on (rl_no_route R rq) (new_ctx (\<lambda>_. []))
     | Some (rt, ps) \<Rightarrow> chain A (rt_guard rt) (rt_handler rt) rq (new_ctx ps));
     State_Monad.return (respond out)
   }"

lemma picked_registered: "picked R A rq = Some (rt, ps) \<Longrightarrow> rt \<in> set (registered A)"
  by (auto simp: picked_def split: option.splits if_splits)

section \<open>Relations that every handler respects\<close>

text \<open>A relation that the middleware and every handler respect is respected by the server.\<close>

lemma chain_respects:
  assumes "\<And>cx. state_io_rel Q (h rq cx)"
    and "\<And>nxt cx. (\<And>cx. state_io_rel Q (nxt rq cx)) \<Longrightarrow> state_io_rel Q (auth_mw (ah_auth (ap_auth A)) nxt rq cx)"
    and "\<And>nxt cx code. (\<And>cx. state_io_rel Q (nxt rq cx)) \<Longrightarrow> state_io_rel Q (require_permission_mw (ap_perms A) code nxt rq cx)"
    and "\<And>nxt cx codes. (\<And>cx. state_io_rel Q (nxt rq cx)) \<Longrightarrow>
      state_io_rel Q (require_any_permission_mw (ap_perms A) codes nxt rq cx)"
  shows "state_io_rel Q (chain A g h rq cx)"
  by (cases g) (simp_all add: chain_def assms)

lemma evolves_try_codes:
  assumes "\<And>cx. state_io_rel (on_db evolves) (nxt rq cx)"
  shows "state_io_rel (on_db evolves) (try_codes pc codes nxt rq cx)"
proof (induction codes)
  case (Cons code codes)
  show ?case unfolding try_codes.simps fail_def by (intro ev.on_rules respects assms Cons.IH)
qed (simp add: fail_def ev.on_rules)

lemma evolves_auth_mw:
  "(\<And>cx. state_io_rel (on_db evolves) (nxt rq cx)) \<Longrightarrow> state_io_rel (on_db evolves) (auth_mw s nxt rq cx)"
  unfolding auth_mw_def fail_def by (intro ev.on_rules respects | assumption)+

lemma evolves_require:
  "(\<And>cx. state_io_rel (on_db evolves) (nxt rq cx)) \<Longrightarrow>
     state_io_rel (on_db evolves) (require_permission_mw pc code nxt rq cx)"
  "(\<And>cx. state_io_rel (on_db evolves) (nxt rq cx)) \<Longrightarrow>
     state_io_rel (on_db evolves) (require_any_permission_mw pc codes nxt rq cx)"
  unfolding require_permission_mw_def require_any_permission_mw_def fail_def
  by (intro ev.on_rules respects evolves_try_codes | assumption)+

lemma evolves_health [respects]: "state_io_rel (on_db evolves) (health_handler rq cx)"
  unfolding health_handler_def db_ping_def redis_ping_def reply_defs
  by (intro ev.on_rules respects ev.on_db_call; simp)

lemma evolves_registered: "rt \<in> set (registered A) \<Longrightarrow> state_io_rel (on_db evolves) (rt_handler rt rq cx)"
  by (auto simp: registered_def setup_routes_def route_of_def Let_def intro: respects)

lemma serve_evolves [respects]: "state_io_rel (on_db evolves) (serve R A rq)"
proof -
  have "state_io_rel (on_db evolves) (chain A (rt_guard rt) (rt_handler rt) rq cx)" if "rt \<in> set (registered A)" for rt cx
    by (rule chain_respects) (simp_all add: evolves_registered [OF that] evolves_auth_mw evolves_require)
  then show ?thesis
    unfolding serve_def pass_on_def
    by (intro ev.on_rules respects) (auto dest: picked_registered)
qed

end
