(* ===== verification/Route_Properties.thy ===== *)
theory Route_Properties
  imports Routes User_Properties Auth_Properties
begin

text \<open>What stands between a request and a handler: authentication and authorisation.\<close>

section \<open>Authentication\<close>

text \<open>Only the times of last activity have changed.\<close>

definition touched :: "database \<Rightarrow> database \<Rightarrow> bool" where
  "touched d e \<longleftrightarrow> (\<exists>f. e = d\<lparr>sessions := map (\<lambda>s. s\<lparr>s_last_activity_at := f s\<rparr>) (sessions d)\<rparr>)"

lemma touched_refl [simp]: "touched d d"
  unfolding touched_def by (rule exI [of _ s_last_activity_at]) (simp add: map_idI)

lemma touched_accounts: "touched d e \<Longrightarrow> same_accounts d e \<and> codes_of e = codes_of d"
  by (auto simp: touched_def same_accounts_def codes_of_def permissions_of_def fun_eq_iff)

text \<open>A token that names a user and a session at a time, as \<open>ValidateAccessToken\<close> reads it.\<close>

definition token_accepted :: "jwt_lib \<Rightarrow> int \<Rightarrow> string \<Rightarrow> token_claims \<Rightarrow> bool" where
  "token_accepted L t token c \<longleftrightarrow> (\<exists>cs. jwt_parse L t token = Some cs \<and>
     (\<exists>sub sid. map_of cs ''sub'' = Some (CNum sub) \<and> map_of cs ''sid'' = Some (CNum sid) \<and>
       c = \<lparr>tc_user_id = to_int64 sub, tc_session_id = to_int64 sid\<rparr>))"

lemma validate_Inr:
  assumes "run_state (validate_access_token L token) w = (Inr c, w')"
  shows "token_accepted L (clock w') token c" "quiet w w'"
  using assms elapse_clock [of w]
  by (auto simp: validate_access_token_def token_accepted_def quiet_def split: option.splits claim.splits)

lemma validate_quiet: "run_state (validate_access_token L token) w = (r, w') \<Longrightarrow> quiet w w'"
  using elapse_clock [of w] by (auto simp: validate_access_token_def quiet_def)

lemma redis_kept_validate: "state_io_rel redis_kept (validate_access_token L token)"
  unfolding validate_access_token_def by (intro rk.step_rules respects)

lemma touch_effect:
  assumes "run_state (touch_session sid) w = (r, w')"
  shows "touched (db w) (db w')" and "redis_kept w w'"
    and "r = Inr True \<Longrightarrow> \<exists>s\<in>set (sessions (db w)). s_id s = sid \<and> \<not> s_revoked s"
proof -
  from assms obtain q where run: "run_state (session_repo_touch_activity sid) w = (q, w')"
    and r: "r = (case q of Inl e \<Rightarrow> Inl e | Inr n \<Rightarrow> Inr (0 < n))"
    by (auto simp: touch_session_def split: prod.splits sum.splits)
  from run have call: "run_state (db_call (q_session_touch sid (clock (elapse w)))) (elapse w) = (q, w')"
    by (simp add: session_repo_touch_activity_def)
  have "touched d (snd (q_session_touch sid stamp now d))" for stamp now d
    unfolding touched_def q_session_touch_def
    by (rule exI [of _ "\<lambda>s. if s_id s = sid \<and> \<not> s_revoked s then Some stamp else s_last_activity_at s"]) simp
  then show "touched (db w) (db w')" using run_db_call(6) [OF call] by auto
  show "redis_kept w w'" by (rule run_respects [OF redis_kept_repository(28) run])
  assume "r = Inr True"
  with r obtain n where "q = Inr n" "0 < n" by (auto split: sum.splits)
  with db_call_Inr [of "q_session_touch sid (clock (elapse w))" "elapse w" n w'] call
  have "filter (\<lambda>s. s_id s = sid \<and> \<not> s_revoked s) (sessions (db w)) \<noteq> []" by (auto simp: q_session_touch_def)
  then show "\<exists>s\<in>set (sessions (db w)). s_id s = sid \<and> \<not> s_revoked s"
    by (auto simp: filter_empty_conv)
qed

text \<open>Whom a request acts for: a token in force, an active user, a session that is not revoked.\<close>

definition acts_for :: "auth_service \<Rightarrow> request \<Rightarrow> world \<Rightarrow> int \<Rightarrow> token_claims \<Rightarrow> bool" where
  "acts_for s rq w t c \<longleftrightarrow> clock w \<le> t \<and> has_prefix (rq_header rq ''Authorization'') bearer \<and>
     token_accepted (as_jwt s) t (trim_prefix (rq_header rq ''Authorization'') bearer) c \<and>
     (\<exists>u\<in>set (users (db w)). u_id u = tc_user_id c \<and> u_active u) \<and>
     (\<exists>x\<in>set (sessions (db w)). s_id x = tc_session_id c \<and> \<not> s_revoked x)"

lemma auth_mw_run:
  assumes "run_state (auth_mw s nxt rq cx) w = (out, w')"
  obtains (refused) msg where "out = (Inl (FiberError 401 msg), cx)" "touched (db w) (db w')"
  | (entered) t c w1 where "acts_for s rq w t c" "touched (db w) (db w1)" "redis_kept w w1"
      "run_state (nxt rq (cx\<lparr>cx_user := Some (tc_user_id c), cx_session := Some (tc_session_id c)\<rparr>)) w1 = (out, w')"
proof (cases "has_prefix (rq_header rq ''Authorization'') bearer")
  case False
  then show thesis using assms refused by (auto simp: auth_mw_def fail_def)
next
  case pre: True
  let ?token = "trim_prefix (rq_header rq ''Authorization'') bearer"
  obtain v w1 where v: "run_state (validate_access_token (as_jwt s) ?token) w = (v, w1)"
    by (cases "run_state (validate_access_token (as_jwt s) ?token) w")
  note q1 = validate_quiet [OF v]
  show thesis
  proof (cases v)
    case (Inl e)
    then show thesis using assms pre v q1 refused by (auto simp: auth_mw_def fail_def quiet_def)
  next
    case (Inr c)
    obtain f w2 where f: "run_state (user_repo_find_by_id (tc_user_id c)) w1 = (f, w2)"
      by (cases "run_state (user_repo_find_by_id (tc_user_id c)) w1")
    have q2: "quiet w w2" using q1 quietD [OF quiet_repository(2) f] quiet.step_trans by blast
    show thesis
    proof (cases "\<exists>view. f = Inr view \<and> u_active (uv_user view)")
      case False
      then show thesis using assms pre v f Inr q2 refused
        by (auto simp: auth_mw_def fail_def quiet_def split: sum.splits)
    next
      case True
      then obtain view where view: "f = Inr view" "u_active (uv_user view)" by blast
      have user: "\<exists>u\<in>set (users (db w)). u_id u = tc_user_id c \<and> u_active u"
        using user_by_id_Inr(1) [OF f [unfolded view(1)]] view(2) q1 by (auto simp: quiet_def dest: find_Some_member)
      obtain t w3 where t: "run_state (touch_session (tc_session_id c)) w2 = (t, w3)"
        by (cases "run_state (touch_session (tc_session_id c)) w2")
      note touch = touch_effect [OF t]
      show thesis
      proof (cases "t = Inr True")
        case False
        then show thesis using assms pre v f Inr view t q2 touch(1) refused
          by (auto simp: auth_mw_def fail_def quiet_def split: sum.splits)
      next
        case True
        have "redis_kept w w3"
        proof (rule rk.step_trans)
          show "redis_kept w w1" by (rule run_respects [OF redis_kept_validate v])
          show "redis_kept w1 w3" using rk.step_trans [OF run_respects [OF redis_kept_repository(2) f] touch(2)] .
        qed
        moreover have "acts_for s rq w (clock w1) c"
          using validate_Inr [OF v [unfolded Inr]] pre user touch(3) [OF True] q1 q2
          by (simp add: acts_for_def quiet_def)
        ultimately show thesis
          using entered [of "clock w1" c w3] assms pre v f Inr view t True touch(1) q2
          by (simp add: auth_mw_def quiet_def)
      qed
    qed
  qed
qed

section \<open>Authorisation\<close>

definition guard_met :: "guard \<Rightarrow> world \<Rightarrow> int \<Rightarrow> bool" where
  "guard_met g w uid = (case g of
     Public \<Rightarrow> True
   | Authenticated \<Rightarrow> True
   | Needs code \<Rightarrow> may w uid code
   | Needs_Any codes \<Rightarrow> \<exists>code\<in>set codes. may w uid code)"

lemma require_permission_mw_run:
  assumes "run_state (require_permission_mw pc code nxt rq cx) w = (out, w')" and "coherent pc w (ctx_user_id cx)"
  obtains (refused) n msg where "out = (Inl (FiberError n msg), cx)" "n \<in> {401, 403, 500}" "db w' = db w"
  | (entered) w1 where "may w (ctx_user_id cx) code" "db w1 = db w" "run_state (nxt rq cx) w1 = (out, w')"
proof (cases "ctx_user_id cx = 0")
  case True
  then show thesis using assms refused by (auto simp: require_permission_mw_def fail_def)
next
  case False
  obtain r w1 where r: "run_state (has_permission pc (ctx_user_id cx) code) w = (r, w1)"
    by (cases "run_state (has_permission pc (ctx_user_id cx) code) w")
  note keeps = has_permission_keeps(1) [OF r]
  show thesis
  proof (cases "r = Inr True")
    case True
    then show thesis
      using entered [of w1] assms False r keeps has_permission_answer [of pc "ctx_user_id cx" code w True w1]
      by (simp add: require_permission_mw_def may_def)
  next
    case no: False
    then show thesis using assms False r keeps refused
      by (auto simp: require_permission_mw_def fail_def split: sum.splits)
  qed
qed

lemma try_codes_run:
  assumes "run_state (try_codes pc codes nxt rq cx) w = (out, w')" and "coherent pc w (ctx_user_id cx)"
  shows "(\<exists>n msg. out = (Inl (FiberError n msg), cx) \<and> n \<in> {403, 500} \<and> db w' = db w) \<or>
    (\<exists>w1. (\<exists>code\<in>set codes. may w (ctx_user_id cx) code) \<and> db w1 = db w \<and> run_state (nxt rq cx) w1 = (out, w'))"
  using assms
proof (induction codes arbitrary: w)
  case Nil
  then show ?case by (auto simp: fail_def)
next
  case (Cons code codes)
  obtain r w1 where r: "run_state (has_permission pc (ctx_user_id cx) code) w = (r, w1)"
    by (cases "run_state (has_permission pc (ctx_user_id cx) code) w")
  note keeps = has_permission_keeps [OF r]
  show ?case
  proof (cases r)
    case (Inl e)
    then show ?thesis using Cons.prems(1) r keeps(1) by (auto simp: fail_def)
  next
    case (Inr b)
    show ?thesis
    proof (cases b)
      case True
      then have "may w (ctx_user_id cx) code"
        using has_permission_answer [of pc "ctx_user_id cx" code w True w1] r Inr Cons.prems(2) by (simp add: may_def)
      then show ?thesis using Cons.prems(1) r Inr True keeps(1) by auto
    next
      case False
      then have "run_state (try_codes pc codes nxt rq cx) w1 = (out, w')" using Cons.prems(1) r Inr by simp
      from Cons.IH [OF this keeps(2) [OF Cons.prems(2)]] show ?thesis
        using keeps(1) may_same_db [OF keeps(1)] by auto
    qed
  qed
qed

lemma chain_run:
  assumes run: "run_state (chain A g h rq (new_ctx ps)) w = (out, w')" and g: "g \<noteq> Public"
    and coherent: "\<And>u. coherent (ap_perms A) w u"
  obtains (refused) n msg where "out = (Inl (FiberError n msg), snd out)" "n \<in> {401, 403, 500}" "touched (db w) (db w')"
  | (entered) t c w1 where "acts_for (ah_auth (ap_auth A)) rq w t c" "guard_met g w (tc_user_id c)" "touched (db w) (db w1)"
      "run_state (h rq ((new_ctx ps)\<lparr>cx_user := Some (tc_user_id c), cx_session := Some (tc_session_id c)\<rparr>)) w1 = (out, w')"
proof -
  define nxt where "nxt = (case g of Needs code \<Rightarrow> require_permission_mw (ap_perms A) code h
    | Needs_Any codes \<Rightarrow> require_any_permission_mw (ap_perms A) codes h | _ \<Rightarrow> h)"
  have "run_state (auth_mw (ah_auth (ap_auth A)) nxt rq (new_ctx ps)) w = (out, w')"
    using run g by (simp add: chain_def nxt_def split: guard.splits)
  then show thesis
  proof (cases rule: auth_mw_run)
    case (refused msg)
    then show thesis using that(1) by simp
  next
    case (entered t c w1)
    let ?cx = "(new_ctx ps)\<lparr>cx_user := Some (tc_user_id c), cx_session := Some (tc_session_id c)\<rparr>"
    have uid: "ctx_user_id ?cx = tc_user_id c" by (simp add: ctx_user_id_def)
    have gr: "granted w1 = granted w" using touched_accounts [OF entered(2)] by (simp add: granted_def fun_eq_iff)
    have coh: "coherent (ap_perms A) w1 (ctx_user_id ?cx)"
      by (rule coherent_later [OF coherent]) (simp_all add: cached_redis_kept [OF entered(3), simplified] gr)
    have mays: "may w1 = may w" using gr by (simp add: may_def fun_eq_iff)
    show thesis
    proof (cases g)
      case Public
      with g show thesis by simp
    next
      case Authenticated
      then show thesis using that(2) [OF entered(1) _ entered(2)] entered(4) by (simp add: nxt_def guard_met_def)
    next
      case (Needs code)
      then have "run_state (require_permission_mw (ap_perms A) code h rq ?cx) w1 = (out, w')"
        using entered(4) by (simp add: nxt_def)
      then show thesis using coh
      proof (cases rule: require_permission_mw_run)
        case (refused n msg)
        then show thesis using that(1) [of n msg] entered(2) by simp
      next
        case (entered w2)
        then show thesis using that(2) [OF \<open>acts_for _ _ _ _ _\<close> _ _ entered(3)] \<open>touched _ _\<close> Needs uid mays
          by (simp add: guard_met_def)
      qed
    next
      case (Needs_Any codes)
      then have run1: "run_state (require_any_permission_mw (ap_perms A) codes h rq ?cx) w1 = (out, w')"
        using entered(4) by (simp add: nxt_def)
      show thesis
      proof (cases "ctx_user_id ?cx = 0")
        case True
        then show thesis using run1 that(1) entered(2) by (auto simp: require_any_permission_mw_def fail_def)
      next
        case False
        with run1 have "run_state (try_codes (ap_perms A) codes h rq ?cx) w1 = (out, w')"
          by (simp add: require_any_permission_mw_def)
        from try_codes_run [OF this coh] consider
            n msg where "out = (Inl (FiberError n msg), ?cx)" "n \<in> {403, 500}" "db w' = db w1"
          | w2 where "guard_met g w (tc_user_id c)" "db w2 = db w1" "run_state (h rq ?cx) w2 = (out, w')"
          unfolding uid mays by (auto simp: guard_met_def Needs_Any)
        then show thesis
        proof cases
          case 1
          then show thesis using that(1) entered(2) by auto
        next
          case 2
          show thesis by (rule that(2) [OF entered(1) 2(1) _ 2(3)]) (simp add: 2(2) entered(2))
        qed
      qed
    qed
  qed
qed

section \<open>Properties\<close>

lemma serve_guarded:
  assumes run: "run_state (serve R A rq) w = (resp, w')" and route: "picked R A rq = Some (rt, ps)"
    and guarded: "rt_guard rt \<noteq> Public" and coherent: "\<And>u. coherent (ap_perms A) w u"
  shows "rs_status resp \<in> {401, 403, 500} \<and> touched (db w) (db w') \<or>
    (\<exists>t c w1 out. acts_for (ah_auth (ap_auth A)) rq w t c \<and> guard_met (rt_guard rt) w (tc_user_id c) \<and>
       touched (db w) (db w1) \<and>
       run_state (rt_handler rt rq ((new_ctx ps)\<lparr>cx_user := Some (tc_user_id c), cx_session := Some (tc_session_id c)\<rparr>)) w1
         = (out, w') \<and> resp = respond out)"
proof -
  from run route obtain out where out: "run_state (chain A (rt_guard rt) (rt_handler rt) rq (new_ctx ps)) w = (out, w')"
    "resp = respond out"
    by (auto simp: serve_def split: prod.splits)
  from out(1) guarded coherent show ?thesis
  proof (cases rule: chain_run)
    case (refused n msg)
    then have "rs_status resp = n"
      by (cases out) (simp add: out(2) respond_def error_handler_def)
    with refused show ?thesis by blast
  next
    case (entered t c w1)
    then show ?thesis using out(2) by blast
  qed
qed

text \<open>
  C2: every route that is not public is guarded. While the cached permissions are coherent, a
  request for such a route ends in one of two ways. Either it is refused with 401, 403 or 500, and
  the tables are as before but for times of last activity; or it carried a bearer token in force
  for an active user and a session that is not revoked, the user held a permission the route
  asks for, and the answer is that of the route's handler run for that user and that session.
\<close>

theorem request_authorised:
  assumes run: "run_state (serve R A rq) w = (resp, w')" and route: "picked R A rq = Some (rt, ps)"
    and guarded: "rt_guard rt \<noteq> Public" and coherent: "\<And>u. coherent (ap_perms A) w u"
  shows "rs_status resp \<in> {401, 403, 500} \<and> touched (db w) (db w') \<or>
    (\<exists>t c w1 out. acts_for (ah_auth (ap_auth A)) rq w t c \<and> guard_met (rt_guard rt) w (tc_user_id c) \<and>
       touched (db w) (db w1) \<and>
       run_state (rt_handler rt rq ((new_ctx ps)\<lparr>cx_user := Some (tc_user_id c), cx_session := Some (tc_session_id c)\<rparr>)) w1
         = (out, w') \<and> resp = respond out)"
  using serve_guarded [OF run route guarded coherent] .

subsection \<open>A server to try it on\<close>

definition sample_fiber :: fiber_lib where
  "sample_fiber = \<lparr>fb_ip = rq_remote, fb_query_int = (\<lambda>rq k d. d), fb_login_body = (\<lambda>_. None), fb_create_body = (\<lambda>_. None),
     fb_update_body = (\<lambda>_. None), fb_create_permission_body = (\<lambda>_. None), fb_update_permission_body = (\<lambda>_. None),
     fb_grant_body = (\<lambda>_. None)\<rparr>"

definition sample_app :: app where
  "sample_app = \<lparr>ap_fiber = sample_fiber,
     ap_auth = \<lparr>ah_auth = sample_service, ah_cookie_secure = True, ah_rate_window = 15 * minute\<rparr>,
     ap_users = sample_users, ap_perms = sample_cache, ap_collate = id\<rparr>"

text \<open>A router for paths without parameters.\<close>

definition sample_router :: router where
  "sample_router = \<lparr>rl_match = (\<lambda>table rq. map_option (\<lambda>i. (i, \<lambda>_. []))
       (find (\<lambda>i. table ! i = (rq_method rq, rq_path rq)) [0..<length table])),
     rl_no_route = (\<lambda>rq. FiberError 404 ''Not Found'')\<rparr>"

definition sample_request :: "string \<Rightarrow> string \<Rightarrow> string \<Rightarrow> request" where
  "sample_request m p token = \<lparr>rq_method = m, rq_path = p,
     rq_header = (\<lambda>k. if k = ''Authorization'' then bearer @ token else []), rq_cookie = (\<lambda>_. []), rq_body = [],
     rq_query = (\<lambda>_. []), rq_remote = ''ip''\<rparr>"

lemma sample_token_parts:
  "split_on blank ''1 1 m 0 900'' = [''1'', ''1'', ''m'', ''0'', ''900'']"
  "parse_int64 ''1'' = Some 1" "parse_int64 ''0'' = Some 0" "parse_int64 ''900'' = Some 900"
  "float64 1 = 1" "float64 0 = 0" "float64 900 = 900"
  by code_simp+

lemma sample_token_subject: "sample_verify t ''1 1 m 0 900'' = Some cs \<Longrightarrow> map_of cs ''sub'' = Some (CNum 1)"
  by (auto simp: sample_verify_def sample_token_parts split: if_splits)

lemma sample_token_accepted:
  "sample_verify 0 ''1 1 m 0 900'' =
     Some [(''sub'', CNum 1), (''sid'', CNum 1), (''email'', CStr ''m''), (''iat'', CNum 0), (''exp'', CNum 900)]"
  by code_simp

lemma roles_picked:
  "picked sample_router sample_app (sample_request ''GET'' ''/roles'' token) =
     Some (route_of ''GET'' ''/roles'' (Needs ''users.read'') (list_roles_handler id), \<lambda>_. [])"
  by (simp add: picked_def sample_router_def sample_request_def registered_def setup_routes_def route_of_def Let_def sample_app_def
      upt_rec numeral_nat)

lemmas route_eval = sample_app_def sample_request_def chain_def auth_mw_def require_permission_mw_def bearer_def trim_prefix_def
  has_prefix_def validate_access_token_def jwt_parse_def rsa_algorithms_def sample_token_accepted fail_def pass_on_def
  send_json_def touch_session_def ctx_user_id_def new_ctx_def respond_def error_handler_def

lemma sample_token_owner:
  "acts_for (ah_auth (ap_auth sample_app)) (sample_request m p ''1 1 m 0 900'') w t c \<Longrightarrow> tc_user_id c = 1"
  by (auto simp: acts_for_def token_accepted_def route_eval sample_service_def sample_jwt_def
      dest: sample_token_subject split: if_splits)

theorem request_authorised_witness:
  "rs_status (fst (run_state (serve sample_router sample_app (sample_request ''GET'' ''/roles'' ''1 1 m 0 900'')) session_world)) = 200 \<and>
   may session_world 1 ''users.read''"
proof -
  let ?rq = "sample_request ''GET'' ''/roles'' ''1 1 m 0 900''"
  let ?run = "run_state (serve sample_router sample_app ?rq) session_world"
  have ok: "rs_status (fst ?run) = 200"
    unfolding serve_def roles_picked
    by (simp add: route_eval auth_eval service_eval user_eval list_roles_handler_def list_roles_def route_of_def sample_defs)
  have coherent: "coherent (ap_perms sample_app) session_world u" for u
    by (simp add: session_world_def)
  from request_authorised [of sample_router sample_app ?rq session_world "fst ?run" "snd ?run", OF _ roles_picked _ coherent] ok
  have "\<exists>t c. acts_for (ah_auth (ap_auth sample_app)) ?rq session_world t c \<and> guard_met (Needs ''users.read'') session_world (tc_user_id c)"
    by (auto simp: route_of_def)
  with ok show ?thesis by (auto simp: guard_met_def dest: sample_token_owner)
qed

end
