(* ===== verification/Startup.thy ===== *)
theory Startup
  imports Routes
begin

text \<open>
  How the application is put together and what it does outside requests
  (\<open>internal/app/app.go\<close>, \<open>cmd/api/main.go\<close>, \<open>internal/service/jwt_keys.go\<close>,
  \<open>cache/permissions.go\<close>: \<open>FlushAll\<close>): the configuration from the environment, the keys, the wiring
  of the services, the flush of the permission cache, the first administrator, the clean-up of
  sessions. The migration library, the drivers and the parsers of keys and URLs are the fields of
  \<open>startup_lib\<close>; \<open>time.ParseDuration\<close>, which computes with floating-point fractions, is the
  parameter \<open>parse_duration\<close> (its result cut to microseconds).
\<close>

section \<open>The configuration\<close>

record config =
  cf_database_url :: string
  cf_migrations_path :: string
  cf_redis_url :: string
  cf_redis_key_prefix :: string
  cf_jwt_private_key_path :: string
  cf_jwt_public_key_path :: string
  cf_jwt_key_pair :: "(string \<times> string) option"
  cf_access_ttl :: int
  cf_refresh_ttl :: int
  cf_perm_cache_ttl :: int
  cf_login_rate_tiers :: "rate_tier list"
  cf_login_counter_ttl :: int
  cf_admin_email :: string
  cf_admin_password :: string
  cf_cookie_secure :: bool
  cf_geoip_db_path :: string
  cf_geoip_lookup :: "geo_lookup option"
  cf_impossible_travel_window :: int
  cf_argon2_memory :: nat

type_synonym environment = "string \<Rightarrow> string"

definition env :: "environment \<Rightarrow> string \<Rightarrow> string \<Rightarrow> string" where
  "env E key fallback = (if E key \<noteq> [] then E key else fallback)"

text \<open>\<open>None\<close>: the process exits.\<close>

definition must_env :: "environment \<Rightarrow> string \<Rightarrow> string option" where
  "must_env E key = (if E key = [] then None else Some (E key))"

definition env_duration :: "(string \<Rightarrow> int option) \<Rightarrow> environment \<Rightarrow> string \<Rightarrow> int \<Rightarrow> int" where
  "env_duration parse_duration E key fallback =
     (if E key \<noteq> [] then (case parse_duration (E key) of Some d \<Rightarrow> d | None \<Rightarrow> fallback) else fallback)"

text \<open>\<open>strconv.ParseUint(v, 10, 32)\<close>\<close>

definition parse_uint32 :: "string \<Rightarrow> nat option" where
  "parse_uint32 s = (case parse_digits s of None \<Rightarrow> None | Some n \<Rightarrow> if n < 2 ^ 32 then Some n else None)"

definition env_uint32 :: "environment \<Rightarrow> string \<Rightarrow> nat \<Rightarrow> nat" where
  "env_uint32 E key fallback =
     (if E key \<noteq> [] then (case parse_uint32 (E key) of Some n \<Rightarrow> n | None \<Rightarrow> fallback) else fallback)"

text \<open>
  A duration is a number of nanoseconds in 64 bits: the product of \<open>envMinutes\<close> wraps around. The
  model's durations are in microseconds.
\<close>

definition minutes_duration :: "int \<Rightarrow> int" where
  "minutes_duration n = (let ns = n * 60000000000 in (ns + 2 ^ 63) mod 2 ^ 64 - 2 ^ 63) div 1000"

definition env_minutes :: "environment \<Rightarrow> string \<Rightarrow> int \<Rightarrow> int" where
  "env_minutes E key fallback =
     (if E key \<noteq> [] then
        (case parse_int64 (E key) of
           Some n \<Rightarrow> if 0 < n then minutes_duration n else minutes_duration fallback
         | None \<Rightarrow> minutes_duration fallback)
      else minutes_duration fallback)"

definition main_config :: "(string \<Rightarrow> int option) \<Rightarrow> environment \<Rightarrow> config option" where
  "main_config parse_duration E = (case must_env E ''DATABASE_URL'' of
     None \<Rightarrow> None
   | Some url \<Rightarrow> Some
       \<lparr>cf_database_url = url,
        cf_migrations_path = env E ''MIGRATIONS_PATH'' ''migrations'',
        cf_redis_url = env E ''REDIS_URL'' ''redis://localhost:6379/0'',
        cf_redis_key_prefix = env E ''REDIS_KEY_PREFIX'' ''auth:'',
        cf_jwt_private_key_path = env E ''JWT_PRIVATE_KEY_PATH'' ''keys/private.pem'',
        cf_jwt_public_key_path = env E ''JWT_PUBLIC_KEY_PATH'' ''keys/public.pem'',
        cf_jwt_key_pair = None,
        cf_access_ttl = env_duration parse_duration E ''ACCESS_TOKEN_TTL'' (15 * minute),
        cf_refresh_ttl = env_duration parse_duration E ''REFRESH_TOKEN_TTL'' (30 * 24 * hour),
        cf_perm_cache_ttl = env_duration parse_duration E ''PERMISSIONS_CACHE_TTL'' (5 * minute),
        cf_login_rate_tiers = default_login_rate_tiers,
        cf_login_counter_ttl = 24 * hour,
        cf_admin_email = env E ''ADMIN_EMAIL'' ''admin@local.dev'',
        cf_admin_password = E ''ADMIN_PASSWORD'',
        cf_cookie_secure = (env E ''COOKIE_SECURE'' ''false'' = ''true''),
        cf_geoip_db_path = env E ''GEOIP_DB_PATH'' [],
        cf_geoip_lookup = None,
        cf_impossible_travel_window = env_minutes E ''IMPOSSIBLE_TRAVEL_WINDOW_MINUTES'' 30,
        cf_argon2_memory = env_uint32 E ''ARGON2_MEMORY'' 0\<rparr>)"

section \<open>The keys\<close>

text \<open>A parsed key: an RSA key, or one of another kind.\<close>

datatype parsed_key = RSA string | Other_Key

record key_lib =
  kl_read_file :: "string \<Rightarrow> err + string"
  kl_pem_decode :: "string \<Rightarrow> (string \<times> string) option"
  kl_parse_pkcs1 :: "string \<Rightarrow> err + string"
  kl_parse_pkcs8 :: "string \<Rightarrow> err + parsed_key"
  kl_parse_pkix :: "string \<Rightarrow> err + parsed_key"
  kl_generate :: "nat \<Rightarrow> err + string"
  kl_public :: "string \<Rightarrow> string"

definition load_private_key :: "key_lib \<Rightarrow> string \<Rightarrow> err + string" where
  "load_private_key K path = (case kl_read_file K path of
     Inl e \<Rightarrow> Inl e
   | Inr data \<Rightarrow>
       (case kl_pem_decode K data of
          None \<Rightarrow> Inl (ErrText ''invalid private key PEM'')
        | Some (typ, bytes) \<Rightarrow>
            if typ = ''RSA PRIVATE KEY'' then kl_parse_pkcs1 K bytes
            else if typ = ''PRIVATE KEY'' then
              (case kl_parse_pkcs8 K bytes of
                 Inl e \<Rightarrow> Inl e
               | Inr (RSA k) \<Rightarrow> Inr k
               | Inr Other_Key \<Rightarrow> Inl (ErrText ''not an RSA private key''))
            else Inl (ErrText (''unsupported private key type: '' @ typ))))"

definition load_public_key :: "key_lib \<Rightarrow> string \<Rightarrow> err + string" where
  "load_public_key K path = (case kl_read_file K path of
     Inl e \<Rightarrow> Inl e
   | Inr data \<Rightarrow>
       (case kl_pem_decode K data of
          None \<Rightarrow> Inl (ErrText ''invalid public key PEM'')
        | Some (typ, bytes) \<Rightarrow>
            (case kl_parse_pkix K bytes of
               Inl e \<Rightarrow> Inl e
             | Inr (RSA k) \<Rightarrow> Inr k
             | Inr Other_Key \<Rightarrow> Inl (ErrText ''not an RSA public key''))))"

definition load_jwt_keys :: "key_lib \<Rightarrow> string \<Rightarrow> string \<Rightarrow> err + string \<times> string" where
  "load_jwt_keys K private_path public_path =
     (if private_path = [] \<or> public_path = []
      then Inl (ErrText ''JWT_PRIVATE_KEY_PATH and JWT_PUBLIC_KEY_PATH are required'')
      else (case load_private_key K private_path of
          Inl e \<Rightarrow> Inl (ErrLib ''load private key'')
        | Inr priv \<Rightarrow>
            (case load_public_key K public_path of
               Inl e \<Rightarrow> Inl (ErrLib ''load public key'')
             | Inr pub \<Rightarrow> Inr (priv, pub))))"

text \<open>A fresh pair, for the tests.\<close>

definition generate_test_rsa_key_pair :: "key_lib \<Rightarrow> err + string \<times> string" where
  "generate_test_rsa_key_pair K = (case kl_generate K 2048 of
     Inl e \<Rightarrow> Inl e
   | Inr priv \<Rightarrow> Inr (priv, kl_public K priv))"

section \<open>The flush of the permission cache\<close>

text \<open>
  The answer of \<open>SCAN\<close> to a cursor: keys that match the pattern and the next cursor, zero at the end.
  The loop gets fuel; \<open>None\<close> when it runs out.
\<close>

type_synonym scanner = "string \<Rightarrow> int \<Rightarrow> redis_store \<Rightarrow> nat \<Rightarrow> string list \<times> nat"

definition rdb_scan :: "scanner \<Rightarrow> string \<Rightarrow> nat \<Rightarrow> (world, err + string list \<times> nat) state" where
  "rdb_scan sc pattern cursor = redis_call (\<lambda>now st. (Inr (sc pattern now st cursor), st))"

text \<open>One turn of the loop: a page is asked for and its keys are deleted; the next cursor.\<close>

definition flush_page :: "scanner \<Rightarrow> string \<Rightarrow> nat \<Rightarrow> (world, err + nat) state" where
  "flush_page sc pattern cursor =
     try_bind (rdb_scan sc pattern cursor) (\<lambda>(keys, nxt).
     try_bind (if 0 < length keys then rdb_del keys else State_Monad.return (Inr ())) (\<lambda>_.
       State_Monad.return (Inr nxt)))"

primrec flush_from :: "scanner \<Rightarrow> string \<Rightarrow> nat \<Rightarrow> nat \<Rightarrow> (world, (err + unit) option) state" where
  "flush_from sc pattern cursor 0 = State_Monad.return None"
| "flush_from sc pattern cursor (Suc fuel) = do {
     page \<leftarrow> flush_page sc pattern cursor;
     (case page of
        Inl e \<Rightarrow> State_Monad.return (Some (Inl e))
      | Inr nxt \<Rightarrow>
          if nxt = 0 then State_Monad.return (Some (Inr ()))
          else flush_from sc pattern nxt fuel)
   }"

definition flush_all :: "scanner \<Rightarrow> nat \<Rightarrow> perm_cache \<Rightarrow> (world, (err + unit) option) state" where
  "flush_all sc fuel pc = flush_from sc (client_key (pc_prefix pc) ''permissions:user:*'') 0 fuel"

section \<open>Wiring\<close>

text \<open>What \<open>m.Up()\<close> of the migration library answers: done, \<open>ErrNoChange\<close>, or another error.\<close>

datatype migrate_result = Migrated | No_Change | Migration_Failed

record startup_lib =
  sl_migrate_new :: "string \<Rightarrow> string \<Rightarrow> err + unit"
  sl_migrate_up :: "string \<Rightarrow> string \<Rightarrow> (world, migrate_result) state"
  sl_redis_parse_url :: "string \<Rightarrow> err + unit"
  sl_keys :: key_lib
  sl_open_maxmind :: "string \<Rightarrow> err + unit"
  sl_jwt :: "string \<times> string \<Rightarrow> jwt_lib"
  sl_scan :: scanner
  sl_ttl_reply :: "int \<Rightarrow> int"
  sl_geo :: geo_lib
  sl_kdf :: kdf
  sl_sha256 :: "string \<Rightarrow> string"
  sl_policy :: policy_env
  sl_fiber :: fiber_lib
  sl_collate :: "string \<Rightarrow> string"

definition run_migrations :: "startup_lib \<Rightarrow> string \<Rightarrow> string \<Rightarrow> (world, err + unit) state" where
  "run_migrations SL dsn migrations_path =
     (case sl_migrate_new SL (''file://'' @ migrations_path) dsn of
        Inl e \<Rightarrow> State_Monad.return (Inl (ErrLib ''create migrate instance''))
      | Inr _ \<Rightarrow> do {
          up \<leftarrow> sl_migrate_up SL (''file://'' @ migrations_path) dsn;
          State_Monad.return (if up = Migration_Failed then Inl (ErrLib ''apply migrations'') else Inr ())
        })"

definition connect :: "(world, err + unit) state" where
  "connect = do {
     ping \<leftarrow> db_ping;
     State_Monad.return (case ping of Inl e \<Rightarrow> Inl (ErrLib ''ping postgres'') | Inr _ \<Rightarrow> Inr ())
   }"

definition new_client :: "startup_lib \<Rightarrow> string \<Rightarrow> err + unit" where
  "new_client SL url = (case sl_redis_parse_url SL url of
     Inl e \<Rightarrow> Inl (ErrLib ''parse redis url'') | Inr _ \<Rightarrow> Inr ())"

definition new_permission_cache :: "string \<Rightarrow> int \<Rightarrow> perm_cache" where
  "new_permission_cache key_prefix ttl = \<lparr>pc_prefix = key_prefix, pc_ttl = ttl\<rparr>"

definition new_tiered_rate_limiter :: "string \<Rightarrow> rate_tier list \<Rightarrow> int \<Rightarrow> tiered_limiter" where
  "new_tiered_rate_limiter key_prefix tiers counter_ttl =
     \<lparr>tl_prefix = key_prefix, tl_tiers = tiers, tl_counter_ttl = counter_ttl\<rparr>"

definition new_last_login_store :: "string \<Rightarrow> int \<Rightarrow> last_login_store" where
  "new_last_login_store key_prefix ttl = \<lparr>lls_prefix = key_prefix, lls_ttl = (if ttl = 0 then 30 * 24 * hour else ttl)\<rparr>"

definition open_maxmind :: "startup_lib \<Rightarrow> string \<Rightarrow> err + geo_lookup" where
  "open_maxmind SL path = (case sl_open_maxmind SL path of
     Inl e \<Rightarrow> Inl (ErrLib ''open geoip database'') | Inr _ \<Rightarrow> Inr MaxMind)"

definition resolve_geo_ip :: "startup_lib \<Rightarrow> config \<Rightarrow> err + geo_lookup" where
  "resolve_geo_ip SL cfg = (case cf_geoip_lookup cfg of
     Some g \<Rightarrow> Inr g
   | None \<Rightarrow> if cf_geoip_db_path cfg = [] then Inr Nop else open_maxmind SL (cf_geoip_db_path cfg))"

definition wire :: "startup_lib \<Rightarrow> config \<Rightarrow> string \<Rightarrow> string \<times> string \<Rightarrow> geo_lookup \<Rightarrow> app" where
  "wire SL cfg dummy_hash keys geo =
     (let key_prefix = cf_redis_key_prefix cfg;
          p = (if 0 < cf_argon2_memory cfg then default_params\<lparr>pa_memory := cf_argon2_memory cfg\<rparr> else default_params);
          tiers = (if cf_login_rate_tiers cfg = [] then default_login_rate_tiers else cf_login_rate_tiers cfg);
          counter_ttl = (if cf_login_counter_ttl cfg = 0 then 24 * hour else cf_login_counter_ttl cfg);
          pc = new_permission_cache key_prefix (cf_perm_cache_ttl cfg);
          auth = new_auth_service (Some geo) (cf_impossible_travel_window cfg)
            \<lparr>as_limiter = new_tiered_rate_limiter key_prefix tiers counter_ttl, as_ttl_reply = sl_ttl_reply SL,
             as_perm_cache = pc, as_last_login = Some (new_last_login_store key_prefix 0), as_geo = geo,
             as_geo_lib = sl_geo SL, as_kdf = sl_kdf SL, as_params = p, as_dummy_hash = dummy_hash,
             as_jwt = sl_jwt SL keys, as_sha256 = sl_sha256 SL, as_access_ttl = cf_access_ttl cfg,
             as_refresh_ttl = cf_refresh_ttl cfg, as_travel_window = cf_impossible_travel_window cfg\<rparr>
      in \<lparr>ap_fiber = sl_fiber SL,
          ap_auth = \<lparr>ah_auth = auth, ah_cookie_secure = cf_cookie_secure cfg, ah_rate_window = 15 * minute\<rparr>,
          ap_users = \<lparr>us_perm_cache = pc, us_policy = sl_policy SL, us_kdf = sl_kdf SL, us_params = p\<rparr>,
          ap_perms = pc, ap_collate = sl_collate SL\<rparr>)"

text \<open>
  \<open>New\<close>: the errors end the start, an error of the flush is only logged. \<open>dummy_hash\<close> is the value
  that the package \<open>password\<close> made when it was initialised. \<open>Inr None\<close>: the flush has not ended
  within the fuel.
\<close>

definition new_app :: "startup_lib \<Rightarrow> nat \<Rightarrow> config \<Rightarrow> string \<Rightarrow> (world, err + app option) state" where
  "new_app SL fuel cfg dummy_hash =
     try_bind (run_migrations SL (cf_database_url cfg) (cf_migrations_path cfg)) (\<lambda>_.
     try_bind connect (\<lambda>_.
     case new_client SL (cf_redis_url cfg) of Inl e \<Rightarrow> State_Monad.return (Inl e) | Inr _ \<Rightarrow>
     try_bind redis_ping (\<lambda>_.
     case (case cf_jwt_key_pair cfg of
         Some ks \<Rightarrow> Inr ks
       | None \<Rightarrow> load_jwt_keys (sl_keys SL) (cf_jwt_private_key_path cfg) (cf_jwt_public_key_path cfg)) of
       Inl e \<Rightarrow> State_Monad.return (Inl e) | Inr keys \<Rightarrow>
     (case resolve_geo_ip SL cfg of Inl e \<Rightarrow> State_Monad.return (Inl e) | Inr geo \<Rightarrow>
       (let A = wire SL cfg dummy_hash keys geo in do {
          flushed \<leftarrow> flush_all (sl_scan SL) fuel (ap_perms A);
          State_Monad.return (Inr (case flushed of None \<Rightarrow> None | Some _ \<Rightarrow> Some A))
        })))))"

text \<open>\<open>resolveGeoIP\<close> also answers what has to be closed in the end: the database it opened, if it did.\<close>

definition geo_closer :: "config \<Rightarrow> bool" where
  "geo_closer cfg \<longleftrightarrow> cf_geoip_lookup cfg = None \<and> cf_geoip_db_path cfg \<noteq> []"

section \<open>The first administrator\<close>

definition q_role_by_name :: "string \<Rightarrow> int \<Rightarrow> database \<Rightarrow> (err + role) \<times> database" where
  "q_role_by_name name now d =
     ((case find (\<lambda>r. r_name r = name) (roles d) of None \<Rightarrow> Inl ErrNotFound | Some r \<Rightarrow> Inr r), d)"

definition seed_admin :: "kdf \<Rightarrow> params \<Rightarrow> config \<Rightarrow> (world, err + unit) state" where
  "seed_admin k p cfg =
     try_bind user_repo_count (\<lambda>count.
       if 0 < count then State_Monad.return (Inr ())
       else if cf_admin_password cfg = []
       then State_Monad.return (Inl (ErrText ''ADMIN_PASSWORD is required to seed the first admin user''))
       else try_bind (hash_password k p (cf_admin_password cfg)) (\<lambda>h. do {
         found \<leftarrow> db_call (q_role_by_name ''Admin'');
         (let admin_role = (case found of Inl _ \<Rightarrow> None | Inr r \<Rightarrow> Some (r_id r)) in
          try_bind (user_repo_create
            \<lparr>u_id = 0, u_role_id = admin_role, u_name = ''Administrador'', u_email = cf_admin_email cfg,
             u_password_hash = h, u_active = True, u_created_at = 0, u_updated_at = 0\<rparr>) (\<lambda>admin.
            permission_repo_grant_all (u_id admin)))
       }))"

section \<open>The clean-up of sessions\<close>

abbreviation session_retention :: int where "session_retention \<equiv> 7 * 24 * hour"

primrec log_expired :: "session list \<Rightarrow> (world, unit) state" where
  "log_expired [] = State_Monad.return ()"
| "log_expired (x # xs) = do {
     _ \<leftarrow> audit_service_log (Some (s_user_id x)) ''session.expired'' ''session'' (Some (s_id x)) None
       (Some [(''sessionId'', JInt (s_id x)), (''reason'', JStr ''cleanup'')]);
     log_expired xs
   }"

definition cleanup_sessions :: "(world, unit) state" where
  "cleanup_sessions = do {
     result \<leftarrow> session_repo_delete_expired session_retention;
     (case result of Inl _ \<Rightarrow> State_Monad.return () | Inr (deleted, expired) \<Rightarrow> log_expired expired)
   }"

text \<open>
  The loop of the clean-up, with one entry for each tick: what goes on while the loop waits for it.
  The last wait is ended by the stop signal.
\<close>

primrec run_session_cleanup :: "(world, unit) state list \<Rightarrow> (world, unit) state" where
  "run_session_cleanup [] = cleanup_sessions"
| "run_session_cleanup (wait # waits) = do {
     _ \<leftarrow> cleanup_sessions;
     _ \<leftarrow> wait;
     run_session_cleanup waits
   }"

section \<open>The program\<close>

text \<open>
  \<open>main\<close> up to the point where it listens: the server and its port, or the error it exits with.
  \<open>Inr None\<close> as for \<open>new_app\<close>.
\<close>

definition start_program ::
  "(string \<Rightarrow> int option) \<Rightarrow> environment \<Rightarrow> startup_lib \<Rightarrow> nat \<Rightarrow> string \<Rightarrow> (world, err + (app \<times> string) option) state" where
  "start_program parse_duration E SL fuel dummy_hash = (case main_config parse_duration E of
     None \<Rightarrow> State_Monad.return (Inl (ErrText ''missing required env var''))
   | Some cfg \<Rightarrow>
       try_bind (new_app SL fuel cfg dummy_hash) (\<lambda>started. case started of
         None \<Rightarrow> State_Monad.return (Inr None)
       | Some A \<Rightarrow> try_bind (seed_admin (sl_kdf SL) (us_params (ap_users A)) cfg) (\<lambda>_.
           State_Monad.return (Inr (Some (A, env E ''PORT'' ''8080''))))))"

section \<open>What they do to the tables\<close>

lemma evolves_log_expired [respects]: "state_io_rel (on_db evolves) (log_expired xs)"
proof (induction xs)
  case (Cons x xs)
  show ?case unfolding log_expired.simps by (intro ev.on_rules respects Cons.IH)
qed (simp add: ev.on_rules)

lemma evolves_startup [respects]:
  "state_io_rel (on_db evolves) cleanup_sessions"
  "state_io_rel (on_db evolves) (db_call (q_role_by_name name))"
  "state_io_rel (on_db evolves) (seed_admin k p cfg)"
proof -
  show role: "state_io_rel (on_db evolves) (db_call (q_role_by_name name))" for name
    by (rule ev.on_db_call) (simp add: q_role_by_name_def)
  show "state_io_rel (on_db evolves) cleanup_sessions"
    unfolding cleanup_sessions_def by (intro ev.on_rules respects)
  show "state_io_rel (on_db evolves) (seed_admin k p cfg)"
    unfolding seed_admin_def by (intro ev.on_rules respects role)
qed

end
