(* ===== verification/Startup_Properties.thy ===== *)
theory Startup_Properties
  imports Startup User_Properties Auth_Properties
begin

text \<open>The properties of the start of the application and of the clean-up, each with an instance.\<close>

section \<open>The flush of the permission cache\<close>

text \<open>
  What Redis documents of \<open>SCAN\<close>, for stores whose keys are among \<open>K\<close>: the keys of an answer match
  the pattern (they are in \<open>M\<close>); an iteration comes to an end (\<open>rank\<close> goes down until the cursor
  is zero again); and a matching key that is present all along is answered: of the keys an
  iteration at a cursor has still to visit (\<open>todo\<close>), each that is present is answered now or is
  still to be visited at the next cursor.
\<close>

definition scan_documented ::
  "scanner \<Rightarrow> string \<Rightarrow> string set \<Rightarrow> string set \<Rightarrow> (nat \<Rightarrow> nat) \<Rightarrow> (nat \<Rightarrow> string set) \<Rightarrow> bool" where
  "scan_documented sc pattern K M rank todo \<longleftrightarrow> M \<subseteq> todo 0 \<and>
     (\<forall>now st c ks nxt. dom st \<subseteq> K \<longrightarrow> sc pattern now st c = (ks, nxt) \<longrightarrow>
        set ks \<subseteq> M \<and> (nxt \<noteq> 0 \<longrightarrow> rank nxt < rank c) \<and>
        (\<forall>k\<in>todo c. lookup now st k \<noteq> None \<longrightarrow> k \<in> set ks \<or> nxt \<noteq> 0 \<and> k \<in> todo nxt))"

definition gone :: "string set \<Rightarrow> world \<Rightarrow> bool" where
  "gone X w \<longleftrightarrow> (\<forall>k\<in>X. lookup (clock w) (redis w) k = None)"

text \<open>What a step of the flush leaves: fewer keys, and only keys that match are missing.\<close>

definition thinned :: "string set \<Rightarrow> world \<Rightarrow> world \<Rightarrow> bool" where
  "thinned M v w \<longleftrightarrow> db w = db v \<and> clock v \<le> clock w \<and>
     (\<forall>k. redis w k = redis v k \<or> k \<in> M \<and> redis w k = None)"

interpretation th: step_relation "thinned M" for M
  by unfold_locales (auto simp: thinned_def, metis order_trans, metis)

lemma thinned_dom: "thinned M v w \<Longrightarrow> dom (redis w) \<subseteq> dom (redis v)"
  by (auto simp: thinned_def dom_def) (metis option.distinct(1))

lemma thinned_gone:
  assumes "thinned M v w" and "lookup (clock v) (redis v) k = None"
  shows "lookup (clock w) (redis w) k = None"
proof -
  have "lookup (clock w) (redis v) k = None"
    using assms rs.look_absent_later by (auto simp: thinned_def)
  moreover have "redis w k = redis v k \<or> redis w k = None" using assms(1) by (auto simp: thinned_def)
  ultimately show ?thesis by (elim disjE) (simp_all add: lookup_def)
qed

lemma scan_run:
  assumes "run_state (rdb_scan sc pattern c) w = (r, w')"
  shows "db w' = db w" "clock w \<le> clock w'" "redis w' = redis w"
    and "r = Inr (ks, nxt) \<Longrightarrow> sc pattern (clock w') (redis w) c = (ks, nxt)"
    and "redis_faults w = [] \<Longrightarrow> (\<exists>ks nxt. r = Inr (ks, nxt)) \<and> redis_faults w' = []"
  using run_redis_call [OF assms [unfolded rdb_scan_def]] run_redis_call_clock [OF assms [unfolded rdb_scan_def]]
  by auto

lemma del_run:
  assumes "run_state (if 0 < length ks then rdb_del ks else State_Monad.return (Inr ())) w = (r, w')"
  shows "db w' = db w" "clock w \<le> clock w'" "redis w' = redis w \<or> redis w' = (\<lambda>k. if k \<in> set ks then None else redis w k)"
    and "r = Inr () \<Longrightarrow> redis w' = (\<lambda>k. if k \<in> set ks then None else redis w k)"
    and "redis_faults w = [] \<Longrightarrow> r = Inr () \<and> redis_faults w' = []"
proof -
  have all: "db w' = db w \<and> clock w \<le> clock w' \<and> (redis w' = redis w \<or> redis w' = (\<lambda>k. if k \<in> set ks then None else redis w k)) \<and>
    (r = Inr () \<longrightarrow> redis w' = (\<lambda>k. if k \<in> set ks then None else redis w k)) \<and>
    (redis_faults w = [] \<longrightarrow> r = Inr () \<and> redis_faults w' = [])"
  proof (cases "ks = []")
    case True
    then show ?thesis using assms by simp
  next
    case False
    then have run: "run_state (redis_call (del_cmd ks)) w = (r, w')" using assms by (simp add: rdb_del_def)
    show ?thesis
      using run_redis_call [OF run] run_redis_call_clock [OF run] by (auto simp: del_cmd_def)
  qed
  then show "db w' = db w" "clock w \<le> clock w'" "redis w' = redis w \<or> redis w' = (\<lambda>k. if k \<in> set ks then None else redis w k)"
    "r = Inr () \<Longrightarrow> redis w' = (\<lambda>k. if k \<in> set ks then None else redis w k)"
    "redis_faults w = [] \<Longrightarrow> r = Inr () \<and> redis_faults w' = []" by blast+
qed

lemma flush_page_run:
  assumes run: "run_state (flush_page sc pattern c) w = (r, w')"
    and doc: "scan_documented sc pattern K M rank todo" and dom: "dom (redis w) \<subseteq> K"
  shows "thinned M w w'"
    and "r = Inr nxt \<Longrightarrow> nxt \<noteq> 0 \<Longrightarrow> rank nxt < rank c"
    and "r = Inr nxt \<Longrightarrow> k \<in> todo c \<Longrightarrow> lookup (clock w') (redis w') k = None \<or> nxt \<noteq> 0 \<and> k \<in> todo nxt"
    and "redis_faults w = [] \<Longrightarrow> (\<exists>nxt. r = Inr nxt) \<and> redis_faults w' = []"
proof -
  obtain q w1 where scan: "run_state (rdb_scan sc pattern c) w = (q, w1)" by (cases "run_state (rdb_scan sc pattern c) w")
  note s = scan_run [OF scan]
  have all: "thinned M w w' \<and> (r = Inr nxt \<longrightarrow> nxt \<noteq> 0 \<longrightarrow> rank nxt < rank c) \<and>
    (r = Inr nxt \<longrightarrow> k \<in> todo c \<longrightarrow> lookup (clock w') (redis w') k = None \<or> nxt \<noteq> 0 \<and> k \<in> todo nxt) \<and>
    (redis_faults w = [] \<longrightarrow> (\<exists>nxt. r = Inr nxt) \<and> redis_faults w' = [])"
  proof (cases q)
    case (Inl e)
    then show ?thesis using run scan s(1-3,5) by (auto simp: flush_page_def thinned_def)
  next
    case (Inr page)
    then obtain ks n where q: "q = Inr (ks, n)" by (cases page) auto
    obtain d w2 where del: "run_state (if 0 < length ks then rdb_del ks else State_Monad.return (Inr ())) w1 = (d, w2)"
      by (cases "run_state (if 0 < length ks then rdb_del ks else State_Monad.return (Inr ())) w1")
    note D = del_run [OF del]
    have r: "r = (case d of Inl e \<Rightarrow> Inl e | Inr _ \<Rightarrow> Inr n)" "w' = w2"
      using run scan q del by (auto simp: flush_page_def split: sum.splits prod.splits)
    have page: "set ks \<subseteq> M" "n \<noteq> 0 \<longrightarrow> rank n < rank c"
      "\<And>k. k \<in> todo c \<Longrightarrow> lookup (clock w1) (redis w) k \<noteq> None \<Longrightarrow> k \<in> set ks \<or> n \<noteq> 0 \<and> k \<in> todo n"
      using doc dom s(4) [OF q] unfolding scan_documented_def by blast+
    have thin: "thinned M w w2" unfolding thinned_def
      using D(1,2,3) s(1,2,3) page(1) by (auto split: if_splits)
    have left: "lookup (clock w2) (redis w2) k = None \<or> n \<noteq> 0 \<and> k \<in> todo n" if "k \<in> todo c" "d = Inr ()" for k
    proof (cases "lookup (clock w1) (redis w) k = None")
      case True
      then have "lookup (clock w2) (redis w) k = None" using rs.look_absent_later D(2) by blast
      then show ?thesis using D(4) [OF that(2)] s(3) by simp
    next
      case False
      then show ?thesis using page(3) [OF that(1)] D(4) [OF that(2)] by auto
    qed
    show ?thesis
    proof (cases d)
      case (Inl e)
      then show ?thesis using r thin D(5) s(5) by auto
    next
      case (Inr x)
      then show ?thesis using r thin left [of k] page(2) D(5) s(5) by simp blast
    qed
  qed
  then show "thinned M w w'" "r = Inr nxt \<Longrightarrow> nxt \<noteq> 0 \<Longrightarrow> rank nxt < rank c"
    "r = Inr nxt \<Longrightarrow> k \<in> todo c \<Longrightarrow> lookup (clock w') (redis w') k = None \<or> nxt \<noteq> 0 \<and> k \<in> todo nxt"
    "redis_faults w = [] \<Longrightarrow> (\<exists>nxt. r = Inr nxt) \<and> redis_faults w' = []" by blast+
qed

lemma flush_from_run:
  assumes "run_state (flush_from sc pattern c fuel) w = (out, w')"
    and doc: "scan_documented sc pattern K M rank todo" and "dom (redis w) \<subseteq> K" and "rank c < fuel"
  shows "thinned M w w' \<and> out \<noteq> None \<and> (out = Some (Inr ()) \<longrightarrow> gone (todo c) w') \<and>
    (redis_faults w = [] \<longrightarrow> out = Some (Inr ()))"
  using assms(1,3,4)
proof (induction fuel arbitrary: c w)
  case (Suc fuel)
  obtain r w1 where page: "run_state (flush_page sc pattern c) w = (r, w1)" by (cases "run_state (flush_page sc pattern c) w")
  note P = flush_page_run [OF page doc Suc.prems(2)]
  show ?case
  proof (cases "\<exists>nxt. r = Inr nxt \<and> nxt \<noteq> 0")
    case False
    then show ?thesis using Suc.prems(1) page P(1,3,4) by (cases r) (auto simp: gone_def)
  next
    case True
    then obtain nxt where r: "r = Inr nxt" "nxt \<noteq> 0" by blast
    then have "run_state (flush_from sc pattern nxt fuel) w1 = (out, w')" using Suc.prems(1) page by simp
    moreover have "dom (redis w1) \<subseteq> K" using thinned_dom [OF P(1)] Suc.prems(2) by blast
    moreover have "rank nxt < fuel" using P(2) [OF r] Suc.prems(3) by simp
    ultimately have IH: "thinned M w1 w' \<and> out \<noteq> None \<and> (out = Some (Inr ()) \<longrightarrow> gone (todo nxt) w') \<and>
      (redis_faults w1 = [] \<longrightarrow> out = Some (Inr ()))" by (rule Suc.IH)
    have "gone (todo c) w'" if "gone (todo nxt) w'"
      unfolding gone_def
    proof
      fix k assume "k \<in> todo c"
      from P(3) [OF r(1) this] that IH show "lookup (clock w') (redis w') k = None"
        using thinned_gone by (auto simp: gone_def)
    qed
    with IH show ?thesis using th.step_trans [OF P(1)] P(4) r(1) by blast
  qed
qed simp

lemma flush_all_run:
  assumes "run_state (flush_all sc fuel pc) w = (out, w')"
    and doc: "scan_documented sc (client_key (pc_prefix pc) ''permissions:user:*'') K M rank todo"
    and "dom (redis w) \<subseteq> K" and "rank 0 < fuel"
  shows "thinned M w w'" and "out \<noteq> None" and "redis_faults w = [] \<Longrightarrow> out = Some (Inr ()) \<and> gone M w'"
proof -
  note all = flush_from_run [OF assms(1) [unfolded flush_all_def] doc assms(3,4)]
  have "M \<subseteq> todo 0" using doc by (simp add: scan_documented_def)
  with all show "thinned M w w'" "out \<noteq> None" "redis_faults w = [] \<Longrightarrow> out = Some (Inr ()) \<and> gone M w'"
    by (auto simp: gone_def)
qed

lemma gone_coherent: "gone M w \<Longrightarrow> range (cache_key pc) \<subseteq> M \<Longrightarrow> coherent pc w u"
  by (simp add: gone_def coherent_def cached_def image_subset_iff)

text \<open>
  The flush at the start ends and empties the cache. For a \<open>SCAN\<close> as documented and fuel
  above the rank of the first cursor the loop ends, whatever calls fail, and only keys that match
  the pattern disappear. While Redis works it ends without an error, no key that matches is left,
  and so the cached permissions of every user are coherent with the grants, as the check of
  permissions assumes.
\<close>

theorem flush_all_coherent:
  assumes run: "run_state (flush_all sc fuel pc) w = (out, w')"
    and doc: "scan_documented sc (client_key (pc_prefix pc) ''permissions:user:*'') (dom (redis w)) M rank todo"
    and keys: "range (cache_key pc) \<subseteq> M" and fuel: "rank 0 < fuel"
  shows "out \<noteq> None \<and> db w' = db w \<and> (\<forall>k. k \<notin> M \<longrightarrow> redis w' k = redis w k) \<and>
    (redis_faults w = [] \<longrightarrow> out = Some (Inr ()) \<and> (\<forall>k\<in>M. lookup (clock w') (redis w') k = None) \<and>
       (\<forall>u. coherent pc w' u))"
  using flush_all_run [OF run doc order_refl fuel] gone_coherent [OF _ keys, of w']
  by (auto simp: thinned_def gone_def)

text \<open>A store with one cached user and another key, and an iteration of two pages.\<close>

definition cached_world :: world where
  "cached_world = sample_world\<lparr>redis := [cache_key sample_cache 1 \<mapsto> \<lparr>re_value = RSet [''*''], re_expires = None\<rparr>,
     ''other'' \<mapsto> \<lparr>re_value = RInt 1, re_expires = None\<rparr>]\<rparr>"

definition two_pages :: scanner where
  "two_pages pattern now st c = (if c = 0 then ([], 5)
     else if c = 5 then (if lookup now st (cache_key sample_cache 1) = None then [] else [cache_key sample_cache 1], 0)
     else ([], 0))"

abbreviation cached_keys :: "string set" where
  "cached_keys \<equiv> range (cache_key sample_cache)"

abbreviation pages_left :: "nat \<Rightarrow> nat" where
  "pages_left c \<equiv> if c = 0 then 1 else 0"

abbreviation keys_left :: "nat \<Rightarrow> string set" where
  "keys_left c \<equiv> if c = 0 \<or> c = 5 then cached_keys else {}"

lemma other_key: "''other'' \<noteq> cache_key sample_cache u"
  by (simp add: cache_key_def client_key_def sample_cache_def)

lemma two_pages_documented:
  "scan_documented two_pages (client_key (pc_prefix sample_cache) ''permissions:user:*'')
     {cache_key sample_cache 1, ''other''} cached_keys pages_left keys_left"
  unfolding scan_documented_def
proof (intro conjI allI impI ballI)
  fix now st c ks nxt k
  assume st: "dom st \<subseteq> {cache_key sample_cache 1, ''other''}"
    and page: "two_pages (client_key (pc_prefix sample_cache) ''permissions:user:*'') now st c = (ks, nxt)"
  then show "set ks \<subseteq> cached_keys" "nxt \<noteq> 0 \<Longrightarrow> pages_left nxt < pages_left c"
    by (auto simp: two_pages_def split: if_splits)
  assume k: "k \<in> keys_left c" "lookup now st k \<noteq> None"
  then have "k \<in> dom st" by (auto simp: lookup_def split: option.splits)
  then have "k = cache_key sample_cache 1 \<or> k = ''other''" using st by blast
  then show "k \<in> set ks \<or> nxt \<noteq> 0 \<and> k \<in> keys_left nxt"
    using page k other_key other_key [THEN not_sym] by (auto simp: two_pages_def split: if_splits)
qed simp

lemma cached_world_keys: "dom (redis cached_world) = {cache_key sample_cache 1, ''other''}"
  by (auto simp: cached_world_def)

theorem flush_all_coherent_witness:
  "fst (run_state (flush_all two_pages 2 sample_cache) cached_world) = Some (Inr ()) \<and>
   coherent sample_cache (snd (run_state (flush_all two_pages 2 sample_cache) cached_world)) 1 \<and>
   redis (snd (run_state (flush_all two_pages 2 sample_cache) cached_world)) ''other'' = Some \<lparr>re_value = RInt 1, re_expires = None\<rparr>"
proof -
  let ?run = "run_state (flush_all two_pages 2 sample_cache) cached_world"
  from flush_all_coherent [of two_pages 2 sample_cache cached_world "fst ?run" "snd ?run",
      OF _ two_pages_documented [folded cached_world_keys]]
  have "fst ?run = Some (Inr ())" "coherent sample_cache (snd ?run) 1"
    "''other'' \<notin> cached_keys \<longrightarrow> redis (snd ?run) ''other'' = redis cached_world ''other''"
    by (simp_all add: cached_world_def)
  moreover have "''other'' \<notin> cached_keys" using other_key by blast
  ultimately show ?thesis by (simp add: cached_world_def)
qed

section \<open>The first administrator\<close>

text \<open>
  The tables after the migrations (\<open>backend/migrations\<close>) on an empty server: five roles, the
  catalogue of permissions without the two that migration 8 removes, and nobody.
\<close>

definition catalogue :: "(int \<times> string) list" where
  "catalogue = [(3, ''audit_logs.read''), (4, ''*''), (5, ''users.*''), (6, ''users.read''), (7, ''users.create''),
     (8, ''users.update''), (9, ''users.password.reset''), (10, ''users.deactivate''), (11, ''permissions.read''),
     (12, ''permissions.create''), (13, ''permissions.update''), (14, ''permissions.delete''),
     (15, ''permissions.grant''), (16, ''permissions.revoke'')]"

definition fresh_db :: "(string \<Rightarrow> string) \<Rightarrow> database" where
  "fresh_db describe = empty_db\<lparr>
     roles := map (\<lambda>(i, n). \<lparr>r_id = i, r_name = n, r_description = describe n, r_created_at = 0\<rparr>)
       [(1, ''Admin''), (2, ''Supervisor''), (3, ''Operador''), (4, ''Financeiro''), (5, ''Vendedor'')],
     permissions := map (\<lambda>(i, c). \<lparr>p_id = i, p_code = c, p_description = describe c, p_created_at = 0\<rparr>) catalogue,
     next_permission_id := 17\<rparr>"

lemma fresh_db_wf: "db_wf (fresh_db describe)"
  by (simp add: fresh_db_def catalogue_def wf_defs ids_ok_def empty_db_def)

lemma seed_run:
  assumes run: "run_state (seed_admin k p cfg) w = (r, w')" and ok: "db_faults w = []"
  obtains (seeded) "users (db w) \<noteq> []" "r = Inr ()" "db w' = db w"
  | (refused) e where "users (db w) = []" "r = Inl e" "users (db w') = []" "user_permissions (db w') = user_permissions (db w)"
  | (made) h w1 w2 w3 role where "users (db w) = []" "cf_admin_password cfg \<noteq> []"
      "run_state (hash_password k p (cf_admin_password cfg)) w1 = (Inr h, w2)" "db w3 = db w" "db_faults w3 = []"
      "role_exists (db w) role" "run_state (try_bind (user_repo_create
            \<lparr>u_id = 0, u_role_id = role, u_name = ''Administrador'', u_email = cf_admin_email cfg,
             u_password_hash = h, u_active = True, u_created_at = 0, u_updated_at = 0\<rparr>) (\<lambda>admin.
            permission_repo_grant_all (u_id admin))) w3 = (r, w')"
proof -
  obtain w0 where count: "run_state user_repo_count w = (Inr (int (length (users (db w)))), w0)" "unchanged w w0"
    using ok by (auto simp: user_repo_count_def run_db_call_ok unchanged_def)
  show thesis
  proof (cases "users (db w) = []")
    case False
    then show thesis using run count seeded by (auto simp: seed_admin_def unchanged_def)
  next
    case none: True
    show thesis
    proof (cases "cf_admin_password cfg = []")
      case True
      then show thesis using run count none refused by (auto simp: seed_admin_def unchanged_def)
    next
      case False
      from run [unfolded seed_admin_def] have "run_state (try_bind (hash_password k p (cf_admin_password cfg)) (\<lambda>h. do {
         found \<leftarrow> db_call (q_role_by_name ''Admin'');
         (let admin_role = (case found of Inl _ \<Rightarrow> None | Inr r \<Rightarrow> Some (r_id r)) in
          try_bind (user_repo_create
            \<lparr>u_id = 0, u_role_id = admin_role, u_name = ''Administrador'', u_email = cf_admin_email cfg,
             u_password_hash = h, u_active = True, u_created_at = 0, u_updated_at = 0\<rparr>) (\<lambda>admin.
            permission_repo_grant_all (u_id admin)))
       })) w0 = (r, w')"
        by (rule try_bindE) (use count(1) none False in \<open>auto simp del: run_try_bind\<close>)
      then show thesis
      proof (cases rule: try_bindE)
        case (stop e)
        then show thesis using refused none un.step_trans [OF count(2) unchangedD [OF unchanged_parts(1) stop(1)]]
          by (auto simp: unchanged_def)
      next
        case (go h w2)
        note u2 = un.step_trans [OF count(2) unchangedD [OF unchanged_parts(1) go(1)]]
        obtain found w3 where f: "run_state (db_call (q_role_by_name ''Admin'')) w2 = (found, w3)"
          by (cases "run_state (db_call (q_role_by_name ''Admin'')) w2")
        have u3: "unchanged w w3"
          using un.step_trans [OF u2 unchangedD [OF unchanged_read f]] by (simp add: q_role_by_name_def)
        have "role_exists (db w) (case found of Inl _ \<Rightarrow> None | Inr r \<Rightarrow> Some (r_id r))"
          using run_db_call(7) [OF f] u2 ok
          by (auto simp: q_role_by_name_def role_exists_def unchanged_def dest: find_Some_member split: option.splits sum.splits)
        then show thesis
          using made [OF none False go(1), of w3] go(2) f u3 ok by (simp add: unchanged_def Let_def del: run_try_bind)
      qed
    qed
  qed
qed

text \<open>
  C30: the first administrator. With a working database, \<open>SeedAdmin\<close> does nothing when there is a
  user. Otherwise it either answers with an error and nobody is added, or one active user with the
  configured e-mail is added, whose hash was made from the configured password and who holds every
  permission of the catalogue; so a second start changes nothing.
\<close>

theorem seed_admin_spec:
  assumes run: "run_state (seed_admin k p cfg) w = (r, w')" and ok: "db_faults w = []" and wf: "db_wf (db w)"
  shows "(users (db w) \<noteq> [] \<longrightarrow> r = Inr () \<and> db w' = db w) \<and>
    (users (db w) = [] \<longrightarrow>
      (\<exists>e. r = Inl e) \<and> users (db w') = [] \<or>
      r = Inr () \<and> cf_admin_password cfg \<noteq> [] \<and>
      (\<exists>u w1 w2. users (db w') = [u] \<and> u_active u \<and> u_email u = cf_admin_email cfg \<and>
        run_state (hash_password k p (cf_admin_password cfg)) w1 = (Inr (u_password_hash u), w2) \<and>
        granted w' (u_id u) = p_code ` set (permissions (db w))))"
  using run ok
proof (cases rule: seed_run)
  case (made h w1 w2 w3 role)
  define row where "row = \<lparr>u_id = next_user_id (db w), u_role_id = role, u_name = ''Administrador'', u_email = cf_admin_email cfg,
             u_password_hash = h, u_active = True, u_created_at = clock (elapse w3), u_updated_at = clock (elapse w3)\<rparr>"
  let ?d = "(db w)\<lparr>next_user_id := next_user_id (db w) + 1, users := [row]\<rparr>"
  obtain w4 where create: "run_state (user_repo_create
            \<lparr>u_id = 0, u_role_id = role, u_name = ''Administrador'', u_email = cf_admin_email cfg,
             u_password_hash = h, u_active = True, u_created_at = 0, u_updated_at = 0\<rparr>) w3 = (Inr row, w4)"
      "db w4 = ?d" "db_faults w4 = []"
    using made(1,4-6) by (simp add: user_repo_create_def run_db_call_ok q_user_create_def Let_def row_def)
  have grant: "run_state (permission_repo_grant_all (u_id row)) w4 = (r, w')"
    using made(7) create(1) by simp
  have none: "user_permissions (db w) = []"
  proof (rule ccontr)
    assume "user_permissions (db w) \<noteq> []"
    then obtain g where "g \<in> set (user_permissions (db w))" by (cases "user_permissions (db w)") auto
    then show False using wf made(1) by (auto simp: wf_defs)
  qed
  have r: "r = Inr ()" and d: "db w' = ?d\<lparr>user_permissions :=
      fold (\<lambda>p. add_grant \<lparr>up_user_id = u_id row, up_permission_id = p_id p\<rparr>) (permissions (db w)) []\<rparr>"
    using grant create(2,3) none by (auto simp: permission_repo_grant_all_def run_db_call_ok q_grant_all_def row_def)
  have "granted w' (u_id row) = p_code ` set (permissions (db w))"
    by (auto simp: granted_def codes_set d fold_add_grant)
  then show ?thesis using made(1-3) r d by (auto simp: row_def intro!: exI [of _ row])
qed auto

definition sample_config :: config where
  "sample_config = \<lparr>cf_database_url = ''postgres'', cf_migrations_path = ''migrations'', cf_redis_url = ''redis'',
     cf_redis_key_prefix = ''auth:'', cf_jwt_private_key_path = [], cf_jwt_public_key_path = [], cf_jwt_key_pair = None,
     cf_access_ttl = 15 * minute, cf_refresh_ttl = 30 * 24 * hour, cf_perm_cache_ttl = 5 * minute,
     cf_login_rate_tiers = [], cf_login_counter_ttl = 0, cf_admin_email = ''admin@local.dev'', cf_admin_password = ''Adm1n'',
     cf_cookie_secure = True, cf_geoip_db_path = [], cf_geoip_lookup = None, cf_impossible_travel_window = 0, cf_argon2_memory = 0\<rparr>"

definition fresh_world :: world where
  "fresh_world = empty_world\<lparr>db := fresh_db id, entropy := [''sa'', ''sb'']\<rparr>"

lemmas seed_eval = seed_admin_def fresh_world_def fresh_db_def catalogue_def sample_config_def q_role_by_name_def
  hash_password_def rand_read_def sample_params_def sample_kdf_def empty_world_def empty_db_def db_eval

theorem seed_admin_spec_witness:
  "map u_email (users (db (snd (run_state (seed_admin sample_kdf sample_params sample_config) fresh_world)))) = [''admin@local.dev''] \<and>
   ''*'' \<in> granted (snd (run_state (seed_admin sample_kdf sample_params sample_config) fresh_world)) 1"
proof -
  let ?run = "run_state (seed_admin sample_kdf sample_params sample_config) fresh_world"
  have ok: "fst ?run = Inr ()" and id: "map u_id (users (db (snd ?run))) = [1]" by (simp_all add: seed_eval)
  have fresh: "users (db fresh_world) = []" "db_faults fresh_world = []" and star: "''*'' \<in> p_code ` set (permissions (db fresh_world))"
    by (simp_all add: fresh_world_def fresh_db_def catalogue_def empty_world_def empty_db_def)
  have run: "run_state (seed_admin sample_kdf sample_params sample_config) fresh_world = (Inr (), snd ?run)"
    using ok by (metis prod.collapse)
  have wf: "db_wf (db fresh_world)" using fresh_db_wf by (simp add: fresh_world_def)
  obtain u :: user where u: "users (db (snd ?run)) = [u]" "u_email u = cf_admin_email sample_config"
      "granted (snd ?run) (u_id u) = p_code ` set (permissions (db fresh_world))"
    using seed_admin_spec [OF run fresh(2) wf] fresh(1) by auto
  then have "u_id u = 1" using id by simp
  with u(3) star have "''*'' \<in> granted (snd ?run) 1" by simp
  with u show ?thesis by (simp add: sample_config_def)
qed

text \<open>
  The user and the grants are written by two statements: when the second fails the start fails,
  and the next start finds a user and leaves it without a permission, for good.
\<close>

lemma seed_admin_half_done:
  "let first = run_state (seed_admin sample_kdf sample_params sample_config)
         (fresh_world\<lparr>db_faults := [Works, Works, Works, Fails]\<rparr>);
       second = run_state (seed_admin sample_kdf sample_params sample_config) (snd first)
   in fst first = Inl ErrDb \<and> fst second = Inr () \<and> map u_email (users (db (snd second))) = [''admin@local.dev''] \<and>
      user_permissions (db (snd second)) = []"
  by (simp add: seed_eval db_call_def)

section \<open>The clean-up of sessions\<close>

lemma log_expired_run:
  assumes "run_state (log_expired xs) w = (r, w')"
  shows "only_audit (db w) (db w') \<and> clock w \<le> clock w' \<and>
    (db_faults w = [] \<longrightarrow> (\<forall>x\<in>set xs. s_user_id x \<in> user_ids (db w)) \<longrightarrow>
      (\<exists>more. audit_logs (db w') = audit_logs (db w) @ more \<and>
        map (\<lambda>a. (al_action a, al_user_id a, al_entity_id a)) more =
        map (\<lambda>x. (''session.expired'', Some (s_user_id x), Some (s_id x))) xs))"
  using assms
proof (induction xs arbitrary: w)
  case Nil
  then show ?case by (simp add: oa.Q_refl)
next
  case (Cons x xs)
  let ?log = "audit_service_log (Some (s_user_id x)) ''session.expired'' ''session'' (Some (s_id x)) None
       (Some [(''sessionId'', JInt (s_id x)), (''reason'', JStr ''cleanup'')])"
  obtain w1 where log: "run_state ?log w = ((), w1)" by (cases "run_state ?log w") auto
  with Cons.prems have rest: "run_state (log_expired xs) w1 = (r, w')" by simp
  note oa1 = only_auditD [OF only_audit_log(1) log] and c1 = clock_monoD [OF clock_mono_auth(1) log]
  have ids: "user_ids (db w1) = user_ids (db w)" using oa1 by (simp add: only_audit_def user_ids_def)
  note IH = Cons.IH [OF rest]
  have "\<exists>more. audit_logs (db w') = audit_logs (db w) @ more \<and>
        map (\<lambda>a. (al_action a, al_user_id a, al_entity_id a)) more =
        map (\<lambda>x. (''session.expired'', Some (s_user_id x), Some (s_id x))) (x # xs)"
    if ok: "db_faults w = []" "\<forall>y\<in>set (x # xs). s_user_id y \<in> user_ids (db w)"
  proof -
    note written = audit_log_written [OF log ok(1)]
    obtain a where a: "audit_logs (db w1) = audit_logs (db w) @ [a]" "al_action a = ''session.expired''"
      "al_user_id a = Some (s_user_id x)" "al_entity_id a = Some (s_id x)"
      using written(1) ok(2) by auto
    obtain more where "audit_logs (db w') = audit_logs (db w1) @ more"
        "map (\<lambda>a. (al_action a, al_user_id a, al_entity_id a)) more =
        map (\<lambda>x. (''session.expired'', Some (s_user_id x), Some (s_id x))) xs"
      using IH written(2) ok(2) ids by auto
    with a show ?thesis by (intro exI [of _ "a # more"]) simp
  qed
  then show ?case using IH oa1 c1 oa.Q_trans by auto
qed

text \<open>
  C29: the clean-up deletes what is stale and nothing else. Users and grants stay; the sessions are
  as before, or exactly those are gone that expired, or were revoked, more than seven days
  before, so that no session that can still be used is lost. With a working database they are
  gone, and each has its entry in the audit log.
\<close>

theorem cleanup_spec:
  assumes run: "run_state cleanup_sessions w = ((), w')" and wf: "db_wf (db w)"
  shows "same_accounts (db w) (db w') \<and>
    (\<forall>x\<in>set (sessions (db w)). active_at (clock w') x \<longrightarrow> x \<in> set (sessions (db w'))) \<and>
    (\<exists>cutoff. clock w - session_retention \<le> cutoff \<and> cutoff \<le> clock w' - session_retention \<and>
       (sessions (db w') = sessions (db w) \<or> sessions (db w') = filter (\<lambda>x. \<not> stale cutoff x) (sessions (db w))) \<and>
       (db_faults w = [] \<longrightarrow> sessions (db w') = filter (\<lambda>x. \<not> stale cutoff x) (sessions (db w)) \<and>
          (\<exists>more. audit_logs (db w') = audit_logs (db w) @ more \<and>
             map (\<lambda>a. (al_action a, al_user_id a, al_entity_id a)) more =
             map (\<lambda>x. (''session.expired'', Some (s_user_id x), Some (s_id x))) (filter (stale cutoff) (sessions (db w))))))"
proof -
  define cutoff where "cutoff = clock (elapse w) - session_retention"
  let ?left = "filter (\<lambda>x. \<not> stale cutoff x) (sessions (db w))" and ?gone = "filter (stale cutoff) (sessions (db w))"
  obtain q w1 where sel: "run_state (db_call (\<lambda>_ d. (Inr (filter (stale cutoff) (sessions d)), d))) (elapse w) = (q, w1)"
    by (cases "run_state (db_call (\<lambda>_ d. (Inr (filter (stale cutoff) (sessions d)), d))) (elapse w)")
  obtain n w2 where del: "run_state (db_call (q_session_delete (stale cutoff))) w1 = (n, w2)"
    by (cases "run_state (db_call (q_session_delete (stale cutoff))) w1")
  have w1: "db w1 = db w" using run_db_call(6) [OF sel] by auto
  have time: "clock w \<le> clock w1" "clock w1 \<le> clock w2" "clock (elapse w) \<le> clock w1"
    using run_db_call_clock [OF sel] run_db_call_clock [OF del] elapse_clock [of w] by auto
  have result: "run_state (case (case q of Inl e \<Rightarrow> Inl e | Inr expired \<Rightarrow> (case n of Inl e \<Rightarrow> Inl e | Inr k \<Rightarrow> Inr (k, expired))) of
      Inl _ \<Rightarrow> State_Monad.return () | Inr (deleted, expired) \<Rightarrow> log_expired expired) (case q of Inl _ \<Rightarrow> w1 | Inr _ \<Rightarrow> w2) = ((), w')"
    using run sel del unfolding cleanup_sessions_def session_repo_delete_expired_def
    by (auto simp: Let_def cutoff_def split: sum.splits prod.splits)
  have del_eff: "db w2 = db w \<or> db w2 = (db w)\<lparr>sessions := ?left\<rparr>" using run_db_call(6) [OF del] w1 by (auto simp: q_session_delete_def)
  have healthy: "q = Inr ?gone \<and> (\<exists>k. n = Inr k) \<and> db w2 = (db w)\<lparr>sessions := ?left\<rparr> \<and> db_faults w2 = []" if "db_faults w = []"
    using run_db_call(7) [OF sel] run_db_call(7) [OF del] that w1 by (auto simp: q_session_delete_def)
  obtain d c where w': "only_audit d (db w')" "c \<le> clock w'" "clock (elapse w) \<le> c" "d = db w \<or> d = (db w)\<lparr>sessions := ?left\<rparr>"
    "db_faults w = [] \<longrightarrow> d = db w2"
    "db_faults w = [] \<longrightarrow> (\<exists>more. audit_logs (db w') = audit_logs d @ more \<and>
        map (\<lambda>a. (al_action a, al_user_id a, al_entity_id a)) more =
        map (\<lambda>x. (''session.expired'', Some (s_user_id x), Some (s_id x))) ?gone)"
  proof (cases "\<exists>xs k. q = Inr xs \<and> n = Inr k")
    case True
    then obtain xs k where "q = Inr xs" "n = Inr k" by blast
    with result have "run_state (log_expired xs) w2 = ((), w')" by simp
    note L = log_expired_run [OF this]
    have owners: "\<forall>x\<in>set ?gone. s_user_id x \<in> user_ids (db w)" using wf by (auto simp: wf_defs)
    have logged: "db_faults w = [] \<longrightarrow> (\<exists>more. audit_logs (db w') = audit_logs (db w2) @ more \<and>
        map (\<lambda>a. (al_action a, al_user_id a, al_entity_id a)) more =
        map (\<lambda>x. (''session.expired'', Some (s_user_id x), Some (s_id x))) ?gone)"
    proof
      assume "db_faults w = []"
      with healthy \<open>q = Inr xs\<close> have "xs = ?gone" "db_faults w2 = []" "user_ids (db w2) = user_ids (db w)"
        by (auto simp: user_ids_def)
      then show "\<exists>more. audit_logs (db w') = audit_logs (db w2) @ more \<and>
        map (\<lambda>a. (al_action a, al_user_id a, al_entity_id a)) more =
        map (\<lambda>x. (''session.expired'', Some (s_user_id x), Some (s_id x))) ?gone"
        using L owners by blast
    qed
    show thesis
      using that [of "db w2" "clock w2"] conjunct1 [OF L] conjunct1 [OF conjunct2 [OF L]] del_eff time logged by simp
  next
    case False
    then have stopped: "w' = w1 \<or> w' = w2" using result by (cases q; cases n) auto
    have broken: "db_faults w \<noteq> []" using False healthy by auto
    have "db w' = db w \<or> db w' = (db w)\<lparr>sessions := ?left\<rparr>" using stopped w1 del_eff by auto
    moreover have "clock (elapse w) \<le> clock w'" using stopped time by auto
    ultimately show thesis
      using that [of "db w'" "clock w'"] broken oa.Q_refl by simp
  qed
  have rows: "sessions (db w') = sessions d" "same_accounts d (db w')" "audit_logs d = audit_logs (db w)"
    using w'(1,4) by (auto simp: only_audit_def same_accounts_def)
  have "same_accounts (db w) d" using w'(4) by (auto simp: same_accounts_def)
  then have acc: "same_accounts (db w) (db w')" using rows(2) same_accounts_trans by blast
  have cut: "clock w - session_retention \<le> cutoff" "cutoff \<le> clock w' - session_retention"
    using elapse_clock [of w] w'(2,3) by (simp_all add: cutoff_def)
  have "\<not> stale cutoff x" if "active_at (clock w') x" for x
    using that cut by (auto simp: active_at_def stale_def)
  then have "\<forall>x\<in>set (sessions (db w)). active_at (clock w') x \<longrightarrow> x \<in> set (sessions (db w'))"
    using rows(1) w'(4) by auto
  moreover have "sessions (db w') = sessions (db w) \<or> sessions (db w') = ?left" using rows(1) w'(4) by auto
  moreover have "db_faults w = [] \<longrightarrow> sessions (db w') = ?left" using healthy w'(5) rows(1) by simp
  ultimately show ?thesis using acc cut w'(6) rows(3) by (intro conjI exI [of _ cutoff]) simp_all
qed

text \<open>A session of Bob that expired long ago goes, and the audit log says so.\<close>

definition stale_world :: world where
  "stale_world = bob_online\<lparr>clock := session_retention + 10\<rparr>"

theorem cleanup_spec_witness:
  "sessions (db (snd (run_state cleanup_sessions stale_world))) = [] \<and>
   map al_action (audit_logs (db (snd (run_state cleanup_sessions stale_world)))) = [''session.expired'']"
proof -
  have run: "run_state cleanup_sessions stale_world = ((), snd (run_state cleanup_sessions stale_world))"
    by (cases "run_state cleanup_sessions stale_world") simp
  have wf: "db_wf (db stale_world)" using bob_online_wf by (simp add: stale_world_def)
  have start: "db_faults stale_world = []" "sessions (db stale_world) = [bob_session]" "audit_logs (db stale_world) = []"
      "clock stale_world = session_retention + 10"
    by (simp_all add: stale_world_def bob_online_def sample_defs)
  obtain cutoff more where cut: "clock stale_world - session_retention \<le> cutoff"
      and left: "sessions (db (snd (run_state cleanup_sessions stale_world))) =
        filter (\<lambda>x. \<not> stale cutoff x) (sessions (db stale_world))"
      and logs: "audit_logs (db (snd (run_state cleanup_sessions stale_world))) = audit_logs (db stale_world) @ more"
        "map (\<lambda>a. (al_action a, al_user_id a, al_entity_id a)) more =
         map (\<lambda>x. (''session.expired'', Some (s_user_id x), Some (s_id x))) (filter (stale cutoff) (sessions (db stale_world)))"
    using cleanup_spec [OF run wf] start(1) by blast
  have "stale cutoff bob_session" using cut start(4) by (simp add: stale_def bob_session_def)
  with left logs start show ?thesis by (auto simp: comp_def)
qed

end
