(* ===== verification/Session_Properties.thy ===== *)
theory Session_Properties
  imports Auth_Properties
begin

text \<open>
  What a user does to the own sessions (\<open>Logout\<close>, \<open>RevokeSession\<close>, \<open>RevokeOtherSessions\<close> in
  \<open>service/auth.go\<close>): each ends exactly the sessions it names and leaves the other rows alone.
\<close>

section \<open>Rows a revocation does not name\<close>

lemma filter_revoke_where:
  assumes "\<And>x. x \<in> set ss \<Longrightarrow> P x \<Longrightarrow> \<not> Q x" and "\<And>x. Q (revoke_row now x) = Q x"
  shows "filter Q (revoke_where P now ss) = filter Q ss"
  using assms(1) by (induction ss) (auto simp: revoke_where_def assms(2))

lemma revoke_where_named:
  "y \<in> set (revoke_where P now ss) \<Longrightarrow> (\<And>x. P (revoke_row now x) = P x) \<Longrightarrow> P y \<Longrightarrow> s_revoked y"
  by (auto simp: revoke_where_def revoke_row_def split: if_splits)

lemma revoke_row_keys [simp]:
  "s_id (revoke_row now x) = s_id x" "s_user_id (revoke_row now x) = s_user_id x"
  "s_refresh_token_hash (revoke_row now x) = s_refresh_token_hash x" "s_revoked (revoke_row now x)"
  by (simp_all add: revoke_row_def)

text \<open>
  The effect of a revocation followed by entries in the trail, whatever calls fail: the rows \<open>P\<close>
  names are revoked, or nothing happened and the call did not answer.
\<close>

definition revokes :: "(session \<Rightarrow> bool) \<Rightarrow> bool \<Rightarrow> database \<Rightarrow> database \<Rightarrow> bool" where
  "revokes P answered d e \<longleftrightarrow> same_accounts d e \<and>
     (\<not> answered \<and> sessions e = sessions d \<or> (\<exists>now. sessions e = revoke_where P now (sessions d)))"

lemma revokes_trail: "revokes P b d e \<Longrightarrow> only_audit e f \<Longrightarrow> revokes P b d f"
  using only_audit_accounts [of e f] same_accounts_trans [of d e f] by (auto simp: revokes_def)

lemma revokes_less: "revokes P True d e \<Longrightarrow> revokes P b d e"
  by (auto simp: revokes_def)

lemma try_revokes:
  assumes run: "run_state (try_bind (do { now \<leftarrow> time_now; db_call (q_session_revoke P now) }) f) w = (r, w')"
    and trail: "\<And>a. state_io_rel (on_db only_audit) (f a)"
  shows "revokes P (r = Inr ()) (db w) (db w')"
  using run
proof (cases rule: try_bindE)
  case (stop e)
  from stop(1) show ?thesis
    by (cases rule: revoke_run) (auto simp: revokes_def same_accounts_def stop(2))
next
  case (go a v)
  have "run_state (do { now \<leftarrow> time_now; db_call (q_session_revoke P now) }) w = (Inr (), v)" using go(1) by simp
  then obtain now where "db v = (db w)\<lparr>sessions := revoke_where P now (sessions (db w))\<rparr>"
    by (rule revoke_run_Inr)
  then have "revokes P True (db w) (db v)" by (auto simp: revokes_def same_accounts_def)
  then show ?thesis using revokes_trail [OF _ only_auditD [OF trail go(2)]] revokes_less by blast
qed

text \<open>What is left of that once the rows are those of a property that a revocation does not change.\<close>

lemma revokes_filter:
  assumes "revokes P b d e" and "\<And>x. x \<in> set (sessions d) \<Longrightarrow> P x \<Longrightarrow> \<not> Q x" and "\<And>now x. Q (revoke_row now x) = Q x"
  shows "filter Q (sessions e) = filter Q (sessions d)"
  using assms(1) filter_revoke_where [of "sessions d" P Q, OF assms(2,3)] by (auto simp: revokes_def)

lemma revokes_ended:
  assumes "revokes P True d e" and "x \<in> set (sessions e)" and "P x" and "\<And>now x. P (revoke_row now x) = P x"
  shows "s_revoked x"
  using assms revoke_where_named [of x P] by (auto simp: revokes_def)

section \<open>Logout\<close>

lemma find_active_none:
  assumes "run_state (session_repo_find_active_by_token_hash h) w = (Inl ErrNotFound, w1)"
  shows "\<forall>x\<in>set (sessions (db w)). s_refresh_token_hash x = h \<longrightarrow> \<not> active_at (clock w1) x"
proof -
  have call: "run_state (db_call (q_session_by (\<lambda>s. s_refresh_token_hash s = h \<and> active_at (clock (elapse w)) s)))
      (elapse w) = (Inl ErrNotFound, w1)"
    using assms by (simp add: session_repo_find_active_by_token_hash_def)
  have "clock (elapse w) \<le> clock w1" using run_db_call_clock [OF call] .
  then show ?thesis using session_by_none [OF call] by (auto simp: active_at_def)
qed

text \<open>
  C22: a logout that answers without an error ends the session of its refresh token. Where no two
  sessions share the hash of the token, no session with that hash can be used any more; every
  session with another hash, every user and every grant is as before, also when a call fails.
\<close>

theorem logout_ends_session:
  assumes run: "run_state (logout s token) w = (r, w')" and wf: "db_wf (db w)"
    and one: "\<And>x y. x \<in> set (sessions (db w)) \<Longrightarrow> y \<in> set (sessions (db w)) \<Longrightarrow>
      s_refresh_token_hash x = hash_token s token \<Longrightarrow> s_refresh_token_hash y = hash_token s token \<Longrightarrow> x = y"
  shows "same_accounts (db w) (db w') \<and>
    filter (\<lambda>x. s_refresh_token_hash x \<noteq> hash_token s token) (sessions (db w')) =
      filter (\<lambda>x. s_refresh_token_hash x \<noteq> hash_token s token) (sessions (db w)) \<and>
    (r = Inr () \<longrightarrow> (\<forall>x\<in>set (sessions (db w')). s_refresh_token_hash x = hash_token s token \<longrightarrow> \<not> active_at (clock w') x))"
proof -
  let ?h = "hash_token s token"
  obtain found w1 where f: "run_state (session_repo_find_active_by_token_hash ?h) w = (found, w1)"
    by (cases "run_state (session_repo_find_active_by_token_hash ?h) w")
  have q: "db w1 = db w" using quietD [OF quiet_repository(12) f] by (simp add: quiet_def)
  show ?thesis
  proof (cases found)
    case (Inl e)
    then have r: "r = (if e = ErrNotFound then Inr () else Inl e)" "w' = w1" using run f by (auto simp: logout_def)
    then show ?thesis using q find_active_none [of ?h w w1] f Inl by (auto simp: sa.Q_refl)
  next
    case (Inr x)
    note x = find_active_Inr [OF f [unfolded Inr]]
    have att: "run_state (try_bind (do { now \<leftarrow> time_now; db_call (q_session_revoke (\<lambda>y. s_id y = s_id x) now) }) (\<lambda>_. do {
            _ \<leftarrow> audit_service_log (Some (s_user_id x)) ''logout'' ''auth'' (Some (s_user_id x)) None
              (Some [(''sessionId'', JInt (s_id x))]);
            _ \<leftarrow> audit_service_log (Some (s_user_id x)) ''session.revoked'' ''session'' (Some (s_id x)) None
              (Some [(''reason'', JStr ''logout'')]);
            State_Monad.return (Inr ())
          })) w1 = (r, w')"
      using run f Inr by (simp add: logout_def session_repo_revoke_with_timestamp_def del: run_try_bind)
    have rev: "revokes (\<lambda>y. s_id y = s_id x) (r = Inr ()) (db w) (db w')"
      unfolding q [symmetric]
      by (rule try_revokes [OF att]) (intro oa.on_rules respects)
    have ids: "y = x" if "y \<in> set (sessions (db w))" "s_id y = s_id x" for y
      using wf x(1) that by (auto simp: wf_defs ids_ok_def distinct_map inj_on_def)
    have other: "filter (\<lambda>y. s_refresh_token_hash y \<noteq> ?h) (sessions (db w')) =
        filter (\<lambda>y. s_refresh_token_hash y \<noteq> ?h) (sessions (db w))"
      by (rule revokes_filter [OF rev]) (use ids x q in auto)
    have "s_revoked y" if y: "y \<in> set (sessions (db w'))" "s_refresh_token_hash y = ?h" and "r = Inr ()" for y
    proof -
      obtain now where ss: "sessions (db w') = revoke_where (\<lambda>y. s_id y = s_id x) now (sessions (db w))"
        using rev \<open>r = Inr ()\<close> by (auto simp: revokes_def)
      then obtain z where "z \<in> set (sessions (db w))" "y = z \<or> y = revoke_row now z"
          "s_id z = s_id x \<longrightarrow> s_revoked y"
        using y(1) by (auto simp: revoke_where_def)
      with one [of z x] x q y(2) show ?thesis by auto
    qed
    with rev other show ?thesis by (auto simp: revokes_def active_at_def)
  qed
qed

text \<open>Alice logs out of the first of her two sessions.\<close>

lemmas session_eval = logout_def revoke_session_def revoke_other_sessions_def auth_eval

theorem logout_ends_session_witness:
  "filter (\<lambda>x. s_refresh_token_hash x = hash_token sample_service ''a'' \<and>
       active_at (clock (snd (run_state (logout sample_service ''a'') session_world))) x)
     (sessions (db (snd (run_state (logout sample_service ''a'') session_world)))) = []"
proof -
  let ?run = "run_state (logout sample_service ''a'') session_world"
  have "fst ?run \<in> range Inr" by (simp add: session_eval sample_defs)
  then obtain w' where run: "?run = (Inr (), w')" by (cases ?run) auto
  have only: "x = sample_session 1 1 ''a''"
    if "x \<in> set (sessions (db session_world))" "s_refresh_token_hash x = hash_token sample_service ''a''" for x
    using that by (auto simp: auth_eval)
  have one: "x = y" if "x \<in> set (sessions (db session_world))" "y \<in> set (sessions (db session_world))"
      "s_refresh_token_hash x = hash_token sample_service ''a''" "s_refresh_token_hash y = hash_token sample_service ''a''" for x y
    using only [OF that(1,3)] only [OF that(2,4)] by simp
  show ?thesis using logout_ends_session [OF run session_world_wf one] unfolding run snd_conv filter_empty_conv by blast
qed

section \<open>The sessions of a user\<close>

text \<open>
  C25: a user ends only the own sessions. Whatever \<open>RevokeSession\<close> answers, sessions of other users,
  and all others of the user, stay as they are; when it answers without an error, the session named
  belongs to the user and is revoked.
\<close>

theorem revoke_session_own:
  assumes run: "run_state (revoke_session sid uid) w = (r, w')" and wf: "db_wf (db w)"
  shows "same_accounts (db w) (db w') \<and>
    filter (\<lambda>x. s_user_id x \<noteq> uid \<or> s_id x \<noteq> sid) (sessions (db w')) =
      filter (\<lambda>x. s_user_id x \<noteq> uid \<or> s_id x \<noteq> sid) (sessions (db w)) \<and>
    (r = Inr () \<longrightarrow> (\<exists>x\<in>set (sessions (db w)). s_id x = sid \<and> s_user_id x = uid) \<and>
       (\<forall>x\<in>set (sessions (db w')). s_id x = sid \<longrightarrow> s_revoked x))"
  using run unfolding revoke_session_def
proof (cases rule: try_bindE)
  case (stop e)
  then have "db w' = db w" using quietD [OF quiet_repository(14) stop(1)] by (simp add: quiet_def)
  then show ?thesis using stop(2) by (simp add: sa.Q_refl)
next
  case (go x v)
  have v: "db v = db w" using quietD [OF quiet_repository(14) go(1)] by (simp add: quiet_def)
  have x: "x \<in> set (sessions (db w))" "s_id x = sid"
    using session_by_Inr [OF go(1) [unfolded session_repo_find_by_id_def]] by auto
  show ?thesis
  proof (cases "s_user_id x = uid")
    case False
    then show ?thesis using go(2) v by (auto simp: sa.Q_refl)
  next
    case True
    have att: "run_state (try_bind (do { now \<leftarrow> time_now; db_call (q_session_revoke (\<lambda>y. s_id y = sid) now) }) (\<lambda>_. do {
         _ \<leftarrow> audit_service_log (Some uid) ''session.revoked_manually'' ''sessions'' (Some sid)
           (Some [(''userAgent'', opt_json (s_user_agent x)), (''ip'', opt_json (s_ip_address x))]) None;
         State_Monad.return (Inr ())
       })) v = (r, w')"
      using go(2) True by (simp add: session_repo_revoke_with_timestamp_def del: run_try_bind)
    have rev: "revokes (\<lambda>y. s_id y = sid) (r = Inr ()) (db w) (db w')"
      unfolding v [symmetric]
      by (rule try_revokes [OF att]) (intro oa.on_rules respects)
    have ids: "y = x" if "y \<in> set (sessions (db w))" "s_id y = sid" for y
      using wf x that by (auto simp: wf_defs ids_ok_def distinct_map inj_on_def)
    have "filter (\<lambda>x. s_user_id x \<noteq> uid \<or> s_id x \<noteq> sid) (sessions (db w')) =
        filter (\<lambda>x. s_user_id x \<noteq> uid \<or> s_id x \<noteq> sid) (sessions (db w))"
      by (rule revokes_filter [OF rev]) (use ids True in auto)
    then show ?thesis using rev x True revokes_ended [of "\<lambda>y. s_id y = sid"] by (auto simp: revokes_def)
  qed
qed

theorem revoke_session_own_witness:
  "filter (\<lambda>x. s_id x = 1 \<and> \<not> s_revoked x) (sessions (db (snd (run_state (revoke_session 1 1) session_world)))) = []"
proof -
  let ?run = "run_state (revoke_session 1 1) session_world"
  have "fst ?run \<in> range Inr" by (simp add: session_eval sample_defs)
  then obtain w' where run: "?run = (Inr (), w')" by (cases ?run) auto
  show ?thesis using revoke_session_own [OF run session_world_wf] unfolding run snd_conv filter_empty_conv by blast
qed

text \<open>
  C26: \<open>RevokeOtherSessions\<close> keeps the session it is called from and those of other users as they
  are; when it answers without an error every other session of the user is revoked.
\<close>

theorem revoke_others_keeps_current:
  assumes run: "run_state (revoke_other_sessions uid current) w = (r, w')"
  shows "same_accounts (db w) (db w') \<and>
    filter (\<lambda>x. s_user_id x \<noteq> uid \<or> s_id x = current) (sessions (db w')) =
      filter (\<lambda>x. s_user_id x \<noteq> uid \<or> s_id x = current) (sessions (db w)) \<and>
    (r = Inr () \<longrightarrow> (\<forall>x\<in>set (sessions (db w')). s_user_id x = uid \<longrightarrow> s_id x \<noteq> current \<longrightarrow> s_revoked x))"
proof -
  have att: "run_state (try_bind (do { now \<leftarrow> time_now;
        db_call (q_session_revoke (\<lambda>s. s_user_id s = uid \<and> s_id s \<noteq> current) now) }) (\<lambda>_. do {
       _ \<leftarrow> audit_service_log (Some uid) ''sessions.revoked_others'' ''users'' (Some uid) None None;
       State_Monad.return (Inr ())
     })) w = (r, w')"
    using run by (simp add: revoke_other_sessions_def session_repo_revoke_all_by_user_except_current_def del: run_try_bind)
  have rev: "revokes (\<lambda>s. s_user_id s = uid \<and> s_id s \<noteq> current) (r = Inr ()) (db w) (db w')"
    by (rule try_revokes [OF att]) (intro oa.on_rules respects)
  have "filter (\<lambda>x. s_user_id x \<noteq> uid \<or> s_id x = current) (sessions (db w')) =
      filter (\<lambda>x. s_user_id x \<noteq> uid \<or> s_id x = current) (sessions (db w))"
    by (rule revokes_filter [OF rev]) auto
  then show ?thesis using rev revokes_ended [of "\<lambda>s. s_user_id s = uid \<and> s_id s \<noteq> current"] by (auto simp: revokes_def)
qed

theorem revoke_others_keeps_current_witness:
  "filter (\<lambda>x. s_user_id x = 1 \<and> s_id x \<noteq> 2 \<and> \<not> s_revoked x)
     (sessions (db (snd (run_state (revoke_other_sessions 1 2) session_world)))) = []"
proof -
  let ?run = "run_state (revoke_other_sessions 1 2) session_world"
  have "fst ?run \<in> range Inr" by (simp add: session_eval sample_defs)
  then obtain w' where run: "?run = (Inr (), w')" by (cases ?run) auto
  show ?thesis using revoke_others_keeps_current [OF run] unfolding run snd_conv filter_empty_conv by blast
qed

end
