(* ===== verification/Lifecycle.thy ===== *)
theory Lifecycle
  imports Route_Properties Startup Session_Properties
begin

text \<open>
  The server at work: one request after the other, the hourly clean-up of sessions, and what goes on
  outside (\<open>internal/app/app.go\<close>, \<open>runSessionCleanup\<close>, with the routes of \<open>routes/routes.go\<close>).
  The properties here hold along every such run, whatever is asked and whatever fails.
\<close>

section \<open>Runs\<close>

text \<open>
  Between two events of the program the clock goes on, Redis expires, loses or changes entries, and
  which calls will fail next is anybody's guess; the tables belong to the program.
\<close>

datatype event = Request request response | Cleanup | Outside

inductive step :: "router \<Rightarrow> app \<Rightarrow> world \<Rightarrow> event \<Rightarrow> world \<Rightarrow> bool" for R A where
  request: "run_state (serve R A rq) w = (resp, w') \<Longrightarrow> step R A w (Request rq resp) w'"
| cleanup: "run_state cleanup_sessions w = ((), w') \<Longrightarrow> step R A w Cleanup w'"
| outside: "db w' = db w \<Longrightarrow> clock w \<le> clock w' \<Longrightarrow> step R A w Outside w'"

inductive_simps step_simps: "step R A w (Request rq resp) w'" "step R A w Cleanup w'" "step R A w Outside w'"

inductive runs :: "router \<Rightarrow> app \<Rightarrow> world \<Rightarrow> event list \<Rightarrow> world \<Rightarrow> bool" for R A where
  start: "runs R A w [] w"
| later: "runs R A w es v \<Longrightarrow> step R A v e w' \<Longrightarrow> runs R A w (es @ [e]) w'"

inductive_cases runs_emptyE: "runs R A w [] w'"
inductive_cases runs_snocE: "runs R A w (es @ [e]) w'"

text \<open>A run keeps what every step keeps.\<close>

lemma runs_keep:
  assumes "runs R A w es w'" and "\<And>v e v'. step R A v e v' \<Longrightarrow> Q (db v) (db v')"
    and "\<And>d. Q d d" and "\<And>c d e. Q c d \<Longrightarrow> Q d e \<Longrightarrow> Q c e"
  shows "Q (db w) (db w')"
  using assms(1) by induction (use assms(2-4) in blast)+

lemma step_evolves: "step R A v e v' \<Longrightarrow> evolves (db v) (db v')"
proof (induction rule: step.induct)
  case (request rq w resp w')
  then show ?case using run_respects [OF serve_evolves] by (auto simp: on_db_def)
next
  case (cleanup w w')
  then show ?case using run_respects [OF evolves_startup(1)] by (auto simp: on_db_def)
qed simp

lemma runs_evolve: "runs R A w es w' \<Longrightarrow> evolves (db w) (db w')"
  by (rule runs_keep [of R A w es w' evolves]) (auto intro: step_evolves ev.Q_trans)

section \<open>Integrity\<close>

lemma evolves_integrity:
  assumes "evolves d e" and "db_wf d"
  shows "db_wf e \<and> (\<exists>more. audit_logs e = audit_logs d @ more) \<and> user_ids d \<subseteq> user_ids e \<and>
    (\<forall>t\<in>set (sessions e). s_id t < next_session_id d \<longrightarrow>
       (\<exists>s\<in>set (sessions d). s_id t = s_id s \<and> s_user_id t = s_user_id s \<and>
          s_refresh_token_hash t = s_refresh_token_hash s \<and> s_expires_at t = s_expires_at s \<and>
          (s_revoked s \<longrightarrow> s_revoked t)))"
  using assms unfolding evolves_def session_later_def by metis

text \<open>
  Along every run the tables stay well-formed (unique identities, addresses and codes, no
  reference to a row that is gone), the audit log is only appended to, no user is deleted, and a
  session once written keeps its owner, token and expiry, and stays revoked once it is.
\<close>

theorem run_keeps_integrity:
  assumes "runs R A w es w'" and "db_wf (db w)"
  shows "db_wf (db w') \<and> (\<exists>more. audit_logs (db w') = audit_logs (db w) @ more) \<and>
    user_ids (db w) \<subseteq> user_ids (db w') \<and>
    (\<forall>t\<in>set (sessions (db w')). s_id t < next_session_id (db w) \<longrightarrow>
       (\<exists>s\<in>set (sessions (db w)). s_id t = s_id s \<and> s_user_id t = s_user_id s \<and>
          s_refresh_token_hash t = s_refresh_token_hash s \<and> s_expires_at t = s_expires_at s \<and>
          (s_revoked s \<longrightarrow> s_revoked t)))"
  by (rule evolves_integrity [OF runs_evolve [OF assms(1)] assms(2)])

text \<open>One request of the sample server, then the clean-up.\<close>

definition roles_request :: request where
  "roles_request = sample_request ''GET'' ''/roles'' ''1 1 m 0 900''"

abbreviation served :: world where
  "served \<equiv> snd (run_state (serve sample_router sample_app roles_request) session_world)"

lemma sample_run:
  "runs sample_router sample_app session_world
     [Request roles_request (fst (run_state (serve sample_router sample_app roles_request) session_world)), Cleanup]
     (snd (run_state cleanup_sessions served))"
proof -
  let ?first = "run_state (serve sample_router sample_app roles_request) session_world"
  have "step sample_router sample_app session_world (Request roles_request (fst ?first)) served"
    by (rule step.request) simp
  moreover have "step sample_router sample_app served Cleanup (snd (run_state cleanup_sessions served))"
    by (rule step.cleanup) (cases "run_state cleanup_sessions served", simp)
  ultimately show ?thesis using runs.intros by (metis append_Cons append_Nil)
qed

theorem run_keeps_integrity_witness:
  "db_wf (db (snd (run_state cleanup_sessions served)))"
  using run_keeps_integrity [OF sample_run session_world_wf] by blast

section \<open>A revoked session\<close>

text \<open>A row that is revoked, or gone, stays so: no row of its identity is in force later.\<close>

lemma ended_stays:
  assumes "evolves d e" and "db_wf d" and "x \<in> set (sessions d)" and "s_revoked x"
    and "y \<in> set (sessions e)" and "s_id y = s_id x"
  shows "s_revoked y"
proof -
  have "s_id x < next_session_id d" "distinct (map s_id (sessions d))"
    using assms(2,3) by (auto simp: wf_defs ids_ok_def)
  then obtain s where "s \<in> set (sessions d)" "session_later s y" "s = x"
    using assms(1,3,5,6) by (fastforce simp: evolves_def session_later_def distinct_map inj_on_def)
  with assms(4) show ?thesis by (simp add: session_later_def)
qed

text \<open>
  C5: a revocation is final. Once a session is revoked, then after any further run every request for
  a guarded route that carries an access token of that session is refused with 401, and the tables
  stay as they are but for times of last activity, even though the token itself is still in force.
\<close>

theorem revoked_forever:
  assumes past: "runs R A w es v" and wf: "db_wf (db w)"
    and dead: "x \<in> set (sessions (db w))" "s_revoked x"
    and run: "run_state (serve R A rq) v = (resp, w')"
    and route: "picked R A rq = Some (rt, ps)" "rt_guard rt \<noteq> Public"
    and token: "\<And>t c. token_accepted (as_jwt (ah_auth (ap_auth A))) t
      (trim_prefix (rq_header rq ''Authorization'') bearer) c \<Longrightarrow> tc_session_id c = s_id x"
  shows "rs_status resp = 401 \<and> touched (db v) (db w')"
proof -
  from run route obtain out where out: "run_state (chain A (rt_guard rt) (rt_handler rt) rq (new_ctx ps)) v = (out, w')"
    "resp = respond out"
    by (auto simp: serve_def split: prod.splits)
  obtain nxt where "run_state (auth_mw (ah_auth (ap_auth A)) nxt rq (new_ctx ps)) v = (out, w')"
    using out(1) route(2) by (cases "rt_guard rt") (auto simp: chain_def)
  then show ?thesis
  proof (cases rule: auth_mw_run)
    case (refused msg)
    then show ?thesis by (simp add: out(2) respond_def error_handler_def)
  next
    case (entered t c w1)
    then obtain y where "y \<in> set (sessions (db v))" "s_id y = s_id x" "\<not> s_revoked y"
      using token by (auto simp: acts_for_def)
    with ended_stays [OF runs_evolve [OF past] wf dead] show ?thesis by blast
  qed
qed

text \<open>Alice's first session is revoked; five microseconds later its token is presented.\<close>

definition revoked_world :: world where
  "revoked_world = session_world\<lparr>db := sample_db\<lparr>sessions := [revoke_row 0 (sample_session 1 1 ''a'')], next_session_id := 2\<rparr>\<rparr>"

lemma sample_token_session: "sample_verify t ''1 1 m 0 900'' = Some cs \<Longrightarrow> map_of cs ''sid'' = Some (CNum 1)"
  by (auto simp: sample_verify_def sample_token_parts split: if_splits)

theorem revoked_forever_witness:
  "rs_status (fst (run_state (serve sample_router sample_app roles_request) (revoked_world\<lparr>clock := 5\<rparr>))) = 401"
proof -
  let ?run = "run_state (serve sample_router sample_app roles_request) (revoked_world\<lparr>clock := 5\<rparr>)"
  have "step sample_router sample_app revoked_world Outside (revoked_world\<lparr>clock := 5\<rparr>)"
    by (rule step.outside) (simp_all add: revoked_world_def session_world_def)
  then have past: "runs sample_router sample_app revoked_world [Outside] (revoked_world\<lparr>clock := 5\<rparr>)"
    using runs.later [OF runs.start] by fastforce
  have wf: "db_wf (db revoked_world)"
    by (simp add: revoked_world_def sample_session_def wf_defs ids_ok_def role_exists_def sample_defs)
  have dead: "revoke_row 0 (sample_session 1 1 ''a'') \<in> set (sessions (db revoked_world))"
      "s_revoked (revoke_row 0 (sample_session 1 1 ''a''))" "s_id (revoke_row 0 (sample_session 1 1 ''a'')) = 1"
    by (simp_all add: revoked_world_def sample_session_def)
  have token: "tc_session_id c = s_id (revoke_row 0 (sample_session 1 1 ''a''))"
    if "token_accepted (as_jwt (ah_auth (ap_auth sample_app))) t (trim_prefix (rq_header roles_request ''Authorization'') bearer) c"
    for t c
    using that unfolding dead(3)
    by (auto simp: token_accepted_def roles_request_def route_eval sample_service_def sample_jwt_def
        dest: sample_token_session split: if_splits)
  show ?thesis
    using revoked_forever [of sample_router sample_app revoked_world "[Outside]" "revoked_world\<lparr>clock := 5\<rparr>" _ roles_request
        "fst ?run" "snd ?run", OF past wf dead(1,2) _ roles_picked [of "''1 1 m 0 900''", folded roles_request_def] _ token]
    by (simp add: route_of_def)
qed

text \<open>
  The middleware looks at the revocation only: a session that has expired is still touched, so an
  access token that is in force is accepted after the expiry of its session.
\<close>

lemma touch_ignores_expiry:
  assumes "db_faults w = []" and "x \<in> set (sessions (db w))" and "\<not> s_revoked x"
  shows "fst (run_state (touch_session (s_id x)) w) = Inr True"
proof -
  have "filter (\<lambda>s. s_id s = s_id x \<and> \<not> s_revoked s) (sessions (db w)) \<noteq> []"
    using assms(2,3) by (auto simp: filter_empty_conv)
  with assms(1) show ?thesis
    by (simp add: touch_session_def session_repo_touch_activity_def run_db_call_ok q_session_touch_def)
qed

section \<open>A refresh token is used once\<close>

text \<open>
  C14: a refresh token buys one pair. Once \<open>Refresh\<close> has answered a token with a new pair, then after
  any further run the same token gets no pair again. (The tokens are 32 random bytes: the
  hypotheses say that no two sessions drew the same one.)
\<close>

theorem token_single_use:
  assumes first: "run_state (refresh s token ip ua) w = (Inr pair, w1)" and wf: "db_wf (db w)"
    and past: "runs R A w1 es v"
    and one: "\<And>x y. x \<in> set (sessions (db w)) \<Longrightarrow> y \<in> set (sessions (db w)) \<Longrightarrow>
      s_refresh_token_hash x = hash_token s token \<Longrightarrow> s_refresh_token_hash y = hash_token s token \<Longrightarrow> x = y"
    and fresh: "\<And>y. y \<in> set (sessions (db v)) \<Longrightarrow> s_refresh_token_hash y = hash_token s token \<Longrightarrow>
      s_id y < next_session_id (db w)"
    and again: "run_state (refresh s token ip' ua') v = (r, v')"
  shows "\<exists>e. r = Inl e"
proof (cases r)
  case (Inr p)
  obtain old row now where old: "old \<in> set (sessions (db w))" "s_refresh_token_hash old = hash_token s token"
      "\<not> s_revoked old" and w1: "sessions (db w1) = revoke_where (\<lambda>x. s_id x = s_id old) now (sessions (db w)) @ [row]"
    using refresh_effect [OF first] by blast
  obtain y where y: "y \<in> set (sessions (db v))" "s_refresh_token_hash y = hash_token s token" "\<not> s_revoked y"
    using refresh_effect [OF again [unfolded Inr]] by blast
  have ev: "evolves (db w) (db w1)" "evolves (db w1) (db v)"
    using run_respects [OF evolves_auth_service(2) first] runs_evolve [OF past] by (simp_all add: on_db_def)
  then have "evolves (db w) (db v)" by (rule ev.Q_trans)
  then obtain x where "x \<in> set (sessions (db w))" "session_later x y"
    using fresh [OF y(1,2)] y(1) unfolding evolves_def by blast
  with one [of x old] old y(2) have "s_id y = s_id old" by (auto simp: session_later_def)
  moreover have "revoke_row now old \<in> set (sessions (db w1))"
    using old(1,3) by (auto simp: w1 revoke_where_def)
  moreover have "db_wf (db w1)" using ev(1) wf by (simp add: evolves_def)
  ultimately have "s_revoked y" using ended_stays [OF ev(2), of "revoke_row now old" y] y(1) by simp
  with y(3) show ?thesis by blast
qed auto

theorem token_single_use_witness:
  "\<exists>e. fst (run_state (refresh sample_service ''a'' ''ip'' [])
     (snd (run_state (refresh sample_service ''a'' ''ip'' []) session_world))) = Inl e"
proof -
  define w1 where "w1 = snd (run_state (refresh sample_service ''a'' ''ip'' []) session_world)"
  have "fst (run_state (refresh sample_service ''a'' ''ip'' []) session_world) \<in> range Inr"
    by (simp add: auth_eval sample_defs)
  then obtain pair where first: "run_state (refresh sample_service ''a'' ''ip'' []) session_world = (Inr pair, w1)"
    unfolding w1_def by (rule run_range_Inr)
  have only: "x = sample_session 1 1 ''a''"
    if "x \<in> set (sessions (db session_world))" "s_refresh_token_hash x = hash_token sample_service ''a''" for x
    using that by (auto simp: auth_eval)
  have one: "x = y" if "x \<in> set (sessions (db session_world))" "y \<in> set (sessions (db session_world))"
      "s_refresh_token_hash x = hash_token sample_service ''a''" "s_refresh_token_hash y = hash_token sample_service ''a''" for x y
    using only [OF that(1,3)] only [OF that(2,4)] by simp
  have fresh: "s_id y < next_session_id (db session_world)"
    if "y \<in> set (sessions (db w1))" "s_refresh_token_hash y = hash_token sample_service ''a''" for y
    using that by (auto simp: w1_def auth_eval sample_defs)
  show ?thesis
    unfolding w1_def [symmetric]
    by (rule token_single_use [OF first session_world_wf runs.start one fresh])
      (assumption+, rule prod.collapse [symmetric])
qed

section \<open>The life of a session\<close>

text \<open>
  The contract of the sessions, without tables: an identity not given out yet may be opened for an
  owner until an expiry, an open session may be ended, and it may be dropped; nothing leads back.
\<close>

datatype stage = Unborn | Live int int | Ended int int | Gone

inductive stage_step :: "stage \<Rightarrow> stage \<Rightarrow> bool" where
  born: "stage_step Unborn (Live owner expires)"
| void: "stage_step Unborn Gone"
| ends: "stage_step (Live owner expires) (Ended owner expires)"
| drop_live: "stage_step (Live owner expires) Gone"
| drop_ended: "stage_step (Ended owner expires) Gone"

inductive_cases stage_stepE: "stage_step a b"

definition stage_of :: "database \<Rightarrow> int \<Rightarrow> stage" where
  "stage_of d i =
     (if next_session_id d \<le> i then Unborn
      else case find (\<lambda>x. s_id x = i) (sessions d) of
        None \<Rightarrow> Gone
      | Some x \<Rightarrow> if s_revoked x then Ended (s_user_id x) (s_expires_at x) else Live (s_user_id x) (s_expires_at x))"

text \<open>What the contract promises: an ended session is ended or gone for ever, and an owner is for life.\<close>

lemma stage_final:
  "stage_step\<^sup>*\<^sup>* a b \<Longrightarrow> (\<forall>u t. a = Ended u t \<longrightarrow> b = Ended u t \<or> b = Gone) \<and> (a = Gone \<longrightarrow> b = Gone) \<and>
     (\<forall>u t. a = Live u t \<longrightarrow> b \<in> {Live u t, Ended u t, Gone})"
  by (induction rule: rtranclp_induct) (auto elim: stage_stepE)

text \<open>So the automaton has no way back, and what it can reach is an order of the stages.\<close>

instantiation stage :: order
begin

definition less_eq_stage :: "stage \<Rightarrow> stage \<Rightarrow> bool" where
  "a \<le> b \<longleftrightarrow> stage_step\<^sup>*\<^sup>* a b"

definition less_stage :: "stage \<Rightarrow> stage \<Rightarrow> bool" where
  "a < b \<longleftrightarrow> a \<le> b \<and> \<not> b \<le> (a::stage)"

instance
proof
  fix a b c :: stage
  show "a < b \<longleftrightarrow> a \<le> b \<and> \<not> b \<le> a" by (rule less_stage_def)
  show "a \<le> a" by (simp add: less_eq_stage_def)
  show "a \<le> b \<Longrightarrow> b \<le> c \<Longrightarrow> a \<le> c" by (simp add: less_eq_stage_def)
  assume "a \<le> b" "b \<le> a"
  then show "a = b"
    unfolding less_eq_stage_def
    using stage_final [of a b] stage_final [of b a] by (cases a; cases b) auto
qed

end

lemma stages_ends: "Unborn \<le> a" "a \<le> Gone"
  unfolding less_eq_stage_def by (cases a; auto intro: stage_step.intros converse_rtranclp_into_rtranclp)+

lemma evolves_stage:
  assumes "evolves d e" and "db_wf d" and "db_wf e"
  shows "stage_of d i \<le> stage_of e i"
proof (cases "next_session_id d \<le> i")
  case True
  then show ?thesis by (simp add: stage_of_def [of d] stages_ends(1))
next
  case False
  with assms(1) have given: "\<not> next_session_id e \<le> i" by (auto simp: evolves_def)
  show ?thesis
  proof (cases "find (\<lambda>x. s_id x = i) (sessions e)")
    case None
    with given show ?thesis by (simp add: stage_of_def [of e] stages_ends(2))
  next
    case (Some t)
    then have t: "t \<in> set (sessions e)" "s_id t = i" by (auto dest: find_Some_member)
    then obtain s where s: "s \<in> set (sessions d)" "session_later s t"
      using assms(1) False by (force simp: evolves_def)
    then have "find (\<lambda>x. s_id x = i) (sessions d) = Some s"
      using assms(2) t(2) find_by_key [of s_id "sessions d" s] by (auto simp: wf_defs ids_ok_def session_later_def)
    then show ?thesis using Some s(2) False given
      by (auto simp: stage_of_def session_later_def less_eq_stage_def intro: stage_step.intros)
  qed
qed

text \<open>
  C12: the program implements that contract. Along every run each identity of a session goes up in the
  order of the stages: from a stage to one the automaton can reach from it. In particular no
  identity is used again for another session.
\<close>

theorem sessions_refine_automaton:
  assumes "runs R A w es w'" and "db_wf (db w)"
  shows "stage_of (db w) i \<le> stage_of (db w') i"
  using runs_evolve [OF assms(1)] assms(2) by (intro evolves_stage) (auto simp: evolves_def)

theorem sessions_refine_automaton_witness:
  "stage_of (db session_world) 1 = Live 1 1000000 \<and>
   stage_of (db (snd (run_state cleanup_sessions served))) 1 \<in> {Live 1 1000000, Ended 1 1000000, Gone}"
proof -
  have "stage_of (db session_world) 1 = Live 1 1000000"
    by (simp add: stage_of_def session_world_def sample_session_def)
  then show ?thesis
    using stage_final [OF sessions_refine_automaton [OF sample_run session_world_wf, of 1, unfolded less_eq_stage_def]] by auto
qed

end
