(* ===== verification/Responses.thy ===== *)
theory Responses
  imports Lifecycle
begin

text \<open>
  The form of the responses: which statuses, bodies and cookies a client can see. The handlers
  (\<open>internal/*/handler.go\<close>), the middleware and \<open>errorHandler\<close> decide it; the services below them
  never make a \<open>fiber.Error\<close> of their own, so an error that no handler names becomes the generic 500.
\<close>

section \<open>Answers of programs\<close>

named_theorems answers

definition answers :: "('a \<Rightarrow> bool) \<Rightarrow> (world, 'a) state \<Rightarrow> bool" where
  "answers P m \<longleftrightarrow> (\<forall>w. P (fst (run_state m w)))"

lemma answersD: "answers P m \<Longrightarrow> run_state m w = (a, w') \<Longrightarrow> P a"
  unfolding answers_def by (metis fst_conv)

text \<open>A result whose error, if it is one, is not a \<open>fiber.Error\<close>.\<close>

definition plain :: "err \<Rightarrow> bool" where
  "plain e = (case e of FiberError _ _ \<Rightarrow> False | _ \<Rightarrow> True)"

lemma plain_simps [simp]: "plain ErrNotFound" "plain ErrInvalidCredentials" "plain ErrRateLimited"
  "plain ErrRateLimitDown" "plain ErrInvalidSession" "plain ErrTokenReuse" "plain ErrForbidden"
  "plain ErrPermissionCodeTaken" "plain ErrInvalidPermissionCode" "plain ErrProtectedPermission"
  "plain ErrPermissionInUse" "plain ErrLastAdmin" "plain ErrEmailTaken" "plain ErrCannotDeactivateSelf"
  "plain ErrInvalidEmail" "plain ErrPasswordTooShort" "plain ErrPasswordTooLong" "plain ErrPasswordComplexity"
  "plain ErrPasswordWeak" "plain ErrPasswordPwned" "plain ErrDb" "plain ErrRedis" "plain (ErrText t)"
  "plain (ErrLib t)" "\<not> plain (FiberError n t)"
  by (simp_all add: plain_def)

definition plain_result :: "err + 'a \<Rightarrow> bool" where
  "plain_result r = (case r of Inl e \<Rightarrow> plain e | Inr _ \<Rightarrow> True)"

lemma plain_result_simps [simp]: "plain_result (Inl e) = plain e" "plain_result (Inr a)"
  by (simp_all add: plain_result_def)

text \<open>The rules. The result of a step is used only where it is a result with an error.\<close>

lemma answers_return: "P a \<Longrightarrow> answers P (State_Monad.return a)"
  by (simp add: answers_def)

lemma answers_bind_plain:
  "answers plain_result m \<Longrightarrow> (\<And>a. plain_result a \<Longrightarrow> answers P (f a)) \<Longrightarrow> answers P (State_Monad.bind m f)"
  unfolding answers_def by (simp split: prod.splits) (metis fst_conv)

lemma answers_bind: "(\<And>a. answers P (f a)) \<Longrightarrow> answers P (State_Monad.bind m f)"
  unfolding answers_def by (simp split: prod.splits)

lemma answers_try_bind:
  "answers plain_result m \<Longrightarrow> (\<And>a. answers plain_result (f a)) \<Longrightarrow> answers plain_result (try_bind m f)"
  unfolding try_bind_def by (rule answers_bind_plain) (auto intro: answers_return split: sum.splits)

lemma answers_if: "(c \<Longrightarrow> answers P m) \<Longrightarrow> (\<not> c \<Longrightarrow> answers P n) \<Longrightarrow> answers P (if c then m else n)"
  by simp

lemma answers_sum:
  "(\<And>e. r = Inl e \<Longrightarrow> answers P (f e)) \<Longrightarrow> (\<And>a. r = Inr a \<Longrightarrow> answers P (g a)) \<Longrightarrow>
     answers P (case r of Inl e \<Rightarrow> f e | Inr a \<Rightarrow> g a)"
  by (cases r) simp_all

lemma answers_option:
  "(x = None \<Longrightarrow> answers P m) \<Longrightarrow> (\<And>a. x = Some a \<Longrightarrow> answers P (f a)) \<Longrightarrow>
     answers P (case x of None \<Rightarrow> m | Some a \<Rightarrow> f a)"
  by (cases x) simp_all

lemma answers_prod: "(\<And>a b. answers P (f a b)) \<Longrightarrow> answers P (case p of (a, b) \<Rightarrow> f a b)"
  by (cases p) simp

lemma answers_let: "(\<And>x. answers P (f x)) \<Longrightarrow> answers P (let x = t in f x)"
  by simp

lemmas answers_rules = answers_try_bind answers_if answers_sum answers_option answers_prod answers_let
  answers_bind_plain answers_bind answers_return

section \<open>The services make no \<open>fiber.Error\<close>\<close>

lemma plain_db_call: "(\<And>now d. plain_result (fst (f now d))) \<Longrightarrow> answers plain_result (db_call f)"
  unfolding answers_def plain_result_def using run_db_call(6)
  by (metis (no_types, lifting) eq_fst_iff plain_simps(21) sum.simps(5))

lemma plain_redis_call: "(\<And>now st. plain_result (fst (f now st))) \<Longrightarrow> answers plain_result (redis_call f)"
  unfolding answers_def plain_result_def using run_redis_call(6)
  by (metis (no_types, lifting) eq_fst_iff plain_simps(22) sum.simps(5))

lemma plain_rand [answers]: "answers plain_result (rand_read n)"
  by (auto simp: answers_def rand_read_def split: list.splits)

lemma plain_redis [answers]:
  "answers plain_result (rdb_ttl tr k)" "answers plain_result (rdb_get_int k)" "answers plain_result (rdb_get k)"
  "answers plain_result (rdb_incr k)" "answers plain_result (rdb_expire k ttl)" "answers plain_result (rdb_set k v ttl)"
  "answers plain_result (rdb_del ks)" "answers plain_result (rdb_smembers k)" "answers plain_result (rdb_sadd k xs)"
  unfolding rdb_defs
  by (rule plain_redis_call;
      simp add: ttl_cmd_def get_int_cmd_def get_cmd_def incr_cmd_def expire_cmd_def set_cmd_def del_cmd_def
        smembers_cmd_def sadd_cmd_def split: option.split redis_value.split)+

lemma plain_queries [simp]:
  "plain_result (fst (q_user_by_email email now d))" "plain_result (fst (q_user_by_id uid now d))"
  "plain_result (fst (q_user_create u now d))" "plain_result (fst (q_user_update_password_hash uid h t now d))"
  "plain_result (fst (q_user_update u now d))" "plain_result (fst (q_permission_by P now d))"
  "plain_result (fst (q_grant uid pid now d))" "plain_result (fst (q_revoke uid pid now d))"
  "plain_result (fst (q_grant_all uid now d))" "plain_result (fst (q_permission_create p now d))"
  "plain_result (fst (q_permission_update_description pid description now d))" "plain_result (fst (q_permission_delete pid now d))"
  "plain_result (fst (q_session_create s now d))" "plain_result (fst (q_session_by R now d))"
  "plain_result (fst (q_session_revoke R t now d))" "plain_result (fst (q_session_touch sid t now d))"
  "plain_result (fst (q_session_delete R now d))" "plain_result (fst (q_audit_insert a now d))"
  by (simp_all add: q_user_by_email_def q_user_by_id_def q_user_create_def q_user_update_password_hash_def
      q_user_update_def q_permission_by_def q_grant_def q_revoke_def q_grant_all_def q_permission_create_def
      q_permission_update_description_def q_permission_delete_def q_session_create_def q_session_by_def
      q_session_revoke_def q_session_touch_def q_session_delete_def q_audit_insert_def Let_def split: option.split)

lemma plain_repository [answers]:
  "answers plain_result (user_repo_find_by_email email)"
  "answers plain_result (user_repo_find_by_id uid)"
  "answers plain_result user_repo_list"
  "answers plain_result (user_repo_create u)"
  "answers plain_result (user_repo_update_password_hash uid h)"
  "answers plain_result (user_repo_update u)"
  "answers plain_result (permission_repo_list_all collate)"
  "answers plain_result (role_repo_list collate)"
  "answers plain_result (permission_repo_find_by_code code)"
  "answers plain_result (permission_repo_find_by_id pid)"
  "answers plain_result (permission_repo_list_codes_by_user_id uid)"
  "answers plain_result (permission_repo_grant uid pid)"
  "answers plain_result (permission_repo_revoke uid pid)"
  "answers plain_result (permission_repo_create p)"
  "answers plain_result (permission_repo_update_description pid description)"
  "answers plain_result (permission_repo_delete pid)"
  "answers plain_result (permission_repo_count_assignments pid)"
  "answers plain_result (permission_repo_count_active_users_with_code code)"
  "answers plain_result (session_repo_create s)"
  "answers plain_result (session_repo_find_active_by_token_hash h)"
  "answers plain_result (session_repo_find_by_token_hash h)"
  "answers plain_result (session_repo_find_by_id sid)"
  "answers plain_result (session_repo_revoke_with_timestamp sid)"
  "answers plain_result (session_repo_revoke_all_by_user uid)"
  "answers plain_result (session_repo_revoke_all_by_user_except_current uid sid)"
  "answers plain_result (session_repo_touch_activity sid)"
  "answers plain_result (session_repo_find_active_by_user_id uid)"
  "answers plain_result (audit_repo_list limit offset)"
  unfolding repository_defs
  by ((rule plain_db_call answers_rules | simp)+)

lemma plain_pure:
  "validate_email pe email = Inl e \<Longrightarrow> plain e"
  "validate_permission_code code = Inl e \<Longrightarrow> plain e"
  "validate_password_secure pe pw name email = Inl e \<Longrightarrow> plain e"
  by (auto simp: validate_email_def validate_permission_code_def validate_password_secure_def Let_def
      split: option.splits if_splits prod.splits sum.splits)

lemma plain_bool [answers]: "answers plain_result (State_Monad.return (if c then Inl e else Inr a))" if "plain e"
  using that by (simp add: answers_return)

lemma plain_service_parts [answers]:
  "answers plain_result (check l tr key)"
  "answers plain_result (reset l key)"
  "answers plain_result (cache_get pc uid)"
  "answers plain_result (cache_set pc uid codes)"
  "answers plain_result (cache_invalidate pc uid)"
  "answers plain_result (hash_password k p pw)"
  "answers plain_result generate_refresh_token"
  unfolding check_def reset_def cache_get_def cache_set_def cache_invalidate_def hash_password_def generate_refresh_token_def
  by (rule answers answers_rules | force split: sum.splits)+

lemma plain_permission_service [answers]:
  "answers plain_result (has_permission pc uid code)"
  "answers plain_result (list_all_permissions collate)"
  "answers plain_result (list_codes_by_user uid)"
  "answers plain_result count_active_users_with_star"
  "answers plain_result (actor_can_grant uid code)"
  "answers plain_result (grant pc actor uid pid)"
  "answers plain_result (revoke pc actor uid pid)"
  "answers plain_result (create_permission actor code description)"
  "answers plain_result (update_description actor pid description)"
  "answers plain_result (delete_permission actor pid)"
  unfolding permission_service_defs
  by (rule answers answers_rules | force dest: plain_pure split: sum.splits)+

lemma plain_user_parts [answers]:
  "answers plain_result (require_permission pc actor code)"
  "answers plain_result (user_has_permission_code uid code)"
  "answers plain_result (check_update_permissions pc actor inp)"
  "answers plain_result (last_admin_guard uid inp u)"
  "answers plain_result (update_email pe uid inp u)"
  "answers plain_result (update_password s inp n e u)"
  unfolding require_permission_def user_has_permission_code_def check_update_permissions_def
    last_admin_guard_def update_email_def update_password_def
  by (rule answers answers_rules | force dest: plain_pure split: sum.splits)+

lemma answers_prod_fun: "(\<And>a b. answers P (f a b)) \<Longrightarrow> answers P ((\<lambda>(a, b). f a b) p)"
  by (cases p) simp

lemma plain_user_service [answers]:
  "answers plain_result (list_roles collate)"
  "answers plain_result user_service_list"
  "answers plain_result (user_service_find_by_id uid)"
  "answers plain_result (user_service_create s actor ci)"
  "answers plain_result (user_service_update s actor uid inp)"
  unfolding list_roles_def user_service_list_def user_service_find_by_id_def user_service_create_def
    user_service_update_def
  by (rule answers answers_rules answers_prod_fun | force dest: plain_pure split: sum.splits)+

text \<open>The library that signs tokens makes no \<open>fiber.Error\<close> either.\<close>

definition signs_plainly :: "jwt_lib \<Rightarrow> bool" where
  "signs_plainly L \<longleftrightarrow> (\<forall>cs. plain_result (jl_sign L cs))"

lemma plain_login_parts [answers]:
  "answers plain_result (check_login_rate_limit s key email ip)"
  "answers plain_result (audit_service_list limit offset)"
  "answers plain_result (touch_session sid)"
  "answers plain_result (list_active_sessions uid)"
  "answers plain_result (revoke_session sid uid)"
  "answers plain_result (revoke_other_sessions uid sid)"
  "answers plain_result (logout s token)"
  "answers plain_result (handle_refresh_miss s h ip)"
  unfolding check_login_rate_limit_def audit_service_list_def touch_session_def list_active_sessions_def
    revoke_session_def revoke_other_sessions_def logout_def handle_refresh_miss_def
  by (rule answers answers_rules | force split: sum.splits)+

lemma plain_tokens:
  assumes "signs_plainly (as_jwt s)"
  shows plain_create_session: "answers plain_result (create_session s u ip ua)"
    and plain_login: "answers plain_result (login s email pw ip ua)"
    and plain_refresh: "answers plain_result (refresh s token ip ua)"
proof -
  have sign: "answers plain_result (generate_access_token (as_jwt s) t u sid)" for t u sid
    using assms unfolding generate_access_token_def signs_plainly_def by (auto intro: answers_bind answers_return)
  show create: "answers plain_result (create_session s u ip ua)" for u ip ua
    unfolding create_session_def by (rule sign answers answers_rules | force split: sum.splits)+
  have "answers plain_result (login_success s u email ip ua)" for u
    unfolding login_success_def by (rule create answers answers_rules | force split: sum.splits)+
  note success = this
  show "answers plain_result (login s email pw ip ua)"
    unfolding login_def login_credentials_def login_found_def
    by (rule success answers answers_rules | force split: sum.splits)+
  show "answers plain_result (refresh s token ip ua)"
    unfolding refresh_def refresh_active_def rotate_session_def
    by (rule create answers answers_rules | force split: sum.splits)+
qed

section \<open>The handlers\<close>

definition error_statuses :: "nat set" where
  "error_statuses = {400, 401, 403, 404, 405, 409, 429, 500, 503}"

text \<open>An error as a handler ends with it: of a known status, and with no inside news in a 500.\<close>

definition error_ok :: "err \<Rightarrow> bool" where
  "error_ok e = (case e of
     FiberError n m \<Rightarrow> n \<in> error_statuses \<and> (n = 500 \<longrightarrow> m = ''permission check failed'') | _ \<Rightarrow> True)"

lemma error_ok_plain: "plain e \<Longrightarrow> error_ok e"
  by (auto simp: error_ok_def split: err.splits)

lemma error_ok_fiber [simp]: "error_ok (FiberError n m) \<longleftrightarrow> n \<in> error_statuses \<and> (n = 500 \<longrightarrow> m = ''permission check failed'')"
  by (simp add: error_ok_def)

lemma error_statuses_iff [simp]: "n \<in> error_statuses \<longleftrightarrow> n \<in> {400, 401, 403, 404, 405, 409, 429, 500, 503}"
  by (simp add: error_statuses_def)

lemma error_ok_parse: "parse_positive_int64 raw label = Inl e \<Longrightarrow> error_ok e"
  by (auto simp: parse_positive_int64_def split: option.splits if_splits)

lemma error_ok_user: "plain e \<Longrightarrow> error_ok (create_user_error e)" "plain e \<Longrightarrow> error_ok (update_user_error e)"
  by (auto simp: create_user_error_def update_user_error_def password_message_def error_ok_plain split: option.splits)

text \<open>The refresh cookie: out of reach of scripts and of other sites.\<close>

definition cookie_ok :: "bool \<Rightarrow> cookie \<Rightarrow> bool" where
  "cookie_ok secure ck \<longleftrightarrow> ck_name ck = refresh_cookie_name \<and> ck_http_only ck \<and> ck_same_site ck = ''Strict'' \<and>
     ck_path ck = ''/'' \<and> ck_secure ck = secure"

lemma refresh_cookie_ok [simp]: "cookie_ok (ah_cookie_secure h) (refresh_cookie h token expires)"
  by (simp add: cookie_ok_def refresh_cookie_def)

text \<open>What a handler may leave: a reply or an error of the known form, and cookies of that kind.\<close>

definition reply_ok :: "err + nat \<times> body \<Rightarrow> bool" where
  "reply_ok r = (case r of Inl e \<Rightarrow> error_ok e
     | Inr (n, b) \<Rightarrow> (case b of Empty \<Rightarrow> n = 204 | Json p \<Rightarrow> n = 200 \<or> n = 201))"

definition out_ok :: "bool \<Rightarrow> (err + nat \<times> body) \<times> ctx \<Rightarrow> bool" where
  "out_ok secure out \<longleftrightarrow> reply_ok (fst out) \<and> (\<forall>ck\<in>set (cx_cookies (snd out)). cookie_ok secure ck)"

abbreviation cookies_ok :: "bool \<Rightarrow> ctx \<Rightarrow> bool" where
  "cookies_ok secure cx \<equiv> \<forall>ck\<in>set (cx_cookies cx). cookie_ok secure ck"

lemma out_replies:
  "error_ok (FiberError n m) \<Longrightarrow> cookies_ok secure cx \<Longrightarrow> answers (out_ok secure) (fail n m cx)"
  "error_ok e \<Longrightarrow> cookies_ok secure cx \<Longrightarrow> answers (out_ok secure) (pass_on e cx)"
  "n = 200 \<or> n = 201 \<Longrightarrow> cookies_ok secure cx \<Longrightarrow> answers (out_ok secure) (send_json n p cx)"
  "n = 204 \<Longrightarrow> cookies_ok secure cx \<Longrightarrow> answers (out_ok secure) (send_status n cx)"
  by (auto simp: fail_def pass_on_def send_json_def send_status_def out_ok_def reply_ok_def intro!: answers_return)

lemma out_clear:
  "(\<And>now. answers P (f (cx\<lparr>cx_cookies := cx_cookies cx @ [refresh_cookie h [] (now - hour)]\<rparr>))) \<Longrightarrow>
     answers P (State_Monad.bind (clear_refresh_cookie h cx) f)"
  by (simp add: clear_refresh_cookie_def answers_def)

lemma set_cookies [simp]:
  "cx_cookies (set_refresh_cookie h token expires cx) = cx_cookies cx @ [refresh_cookie h token expires]"
  by (simp add: set_refresh_cookie_def)

lemma out_auth_handlers:
  assumes "signs_plainly (as_jwt (ah_auth h))" and "cookies_ok (ah_cookie_secure h) cx"
  shows "answers (out_ok (ah_cookie_secure h)) (login_handler F h rq cx)"
    and "answers (out_ok (ah_cookie_secure h)) (refresh_handler F h rq cx)"
    and "answers (out_ok (ah_cookie_secure h)) (logout_handler h rq cx)"
  unfolding login_handler_def refresh_handler_def logout_handler_def
  by (rule plain_login [OF assms(1)] plain_refresh [OF assms(1)] out_clear out_replies answers answers_rules
      | use assms(2) in \<open>force intro: error_ok_plain\<close>)+

lemma plain_pings [answers]: "answers plain_result db_ping" "answers plain_result redis_ping"
  by (auto simp: db_ping_def redis_ping_def intro!: plain_db_call plain_redis_call)

lemma out_other_handlers:
  assumes "cookies_ok secure cx"
  shows "answers (out_ok secure) (list_sessions_handler rq cx)"
    "answers (out_ok secure) (revoke_session_handler rq cx)"
    "answers (out_ok secure) (revoke_all_sessions_handler rq cx)"
    "answers (out_ok secure) (list_users_handler rq cx)"
    "answers (out_ok secure) (get_user_handler rq cx)"
    "answers (out_ok secure) (me_handler rq cx)"
    "answers (out_ok secure) (create_user_handler F s rq cx)"
    "answers (out_ok secure) (update_user_handler F s rq cx)"
    "answers (out_ok secure) (list_permissions_handler collate rq cx)"
    "answers (out_ok secure) (create_permission_handler F rq cx)"
    "answers (out_ok secure) (update_permission_handler F rq cx)"
    "answers (out_ok secure) (delete_permission_handler rq cx)"
    "answers (out_ok secure) (grant_handler F pc rq cx)"
    "answers (out_ok secure) (revoke_handler pc rq cx)"
    "answers (out_ok secure) (list_roles_handler collate rq cx)"
    "answers (out_ok secure) (audit_list_handler F rq cx)"
    "answers (out_ok secure) (health_handler rq cx)"
  unfolding handler_defs health_handler_def
  by (rule out_replies answers answers_rules
      | use assms in \<open>force intro: error_ok_plain error_ok_parse error_ok_user\<close>)+

section \<open>The middleware and the server\<close>

lemma out_auth_mw:
  assumes "\<And>cx. cookies_ok secure cx \<Longrightarrow> answers (out_ok secure) (nxt rq cx)" and "cookies_ok secure cx"
  shows "answers (out_ok secure) (auth_mw s nxt rq cx)"
proof -
  have "answers plain_result (validate_access_token L token)" for L token
    unfolding validate_access_token_def
    by (rule answers_bind answers_return | force split: option.splits claim.splits)+
  then show ?thesis
    unfolding auth_mw_def
    by - (rule assms(1) out_replies answers answers_rules | use assms(2) in force)+
qed

lemma out_try_codes:
  assumes "answers (out_ok secure) (nxt rq cx)" and "cookies_ok secure cx"
  shows "answers (out_ok secure) (try_codes pc codes nxt rq cx)"
proof (induction codes)
  case Nil
  then show ?case using assms(2) by (auto intro!: out_replies)
next
  case (Cons code codes)
  show ?case
    unfolding try_codes.simps
    by (rule assms(1) Cons.IH out_replies answers answers_rules | use assms(2) in force)+
qed

lemma out_require:
  assumes "answers (out_ok secure) (nxt rq cx)" and "cookies_ok secure cx"
  shows "answers (out_ok secure) (require_permission_mw pc code nxt rq cx)"
    and "answers (out_ok secure) (require_any_permission_mw pc codes nxt rq cx)"
  unfolding require_permission_mw_def require_any_permission_mw_def
  by (rule assms(1) out_try_codes [of secure nxt rq cx, OF assms] out_replies answers answers_rules | use assms(2) in force)+

lemma out_registered:
  assumes "rt \<in> set (registered A)" and "signs_plainly (as_jwt (ah_auth (ap_auth A)))"
    and "cookies_ok (ah_cookie_secure (ap_auth A)) cx"
  shows "answers (out_ok (ah_cookie_secure (ap_auth A))) (rt_handler rt rq cx)"
  using assms(1) out_auth_handlers [OF assms(2,3)] out_other_handlers [OF assms(3)]
  by (auto simp: registered_def setup_routes_def route_of_def Let_def)

lemma out_chain:
  assumes "\<And>cx. cookies_ok secure cx \<Longrightarrow> answers (out_ok secure) (h rq cx)" and "cookies_ok secure cx"
  shows "answers (out_ok secure) (chain A g h rq cx)"
  using assms by (cases g) (simp_all add: chain_def out_auth_mw out_require)

text \<open>The response that the outcome of a chain becomes.\<close>

definition error_body :: "string \<Rightarrow> body" where
  "error_body m = Json (Obj [(''error'', Atom (JStr m))])"

definition response_ok :: "bool \<Rightarrow> response \<Rightarrow> bool" where
  "response_ok secure resp \<longleftrightarrow>
     rs_status resp \<in> {200, 201, 204, 400, 401, 403, 404, 405, 409, 429, 500, 503} \<and>
     (rs_body resp = Empty \<longleftrightarrow> rs_status resp = 204) \<and>
     (rs_status resp = 500 \<longrightarrow> rs_body resp \<in> {error_body ''internal server error'', error_body ''permission check failed''}) \<and>
     (\<forall>ck\<in>set (rs_cookies resp). cookie_ok secure ck)"

lemma respond_ok: "out_ok secure out \<Longrightarrow> response_ok secure (respond out)"
  by (cases out; cases "fst out")
    (auto simp: out_ok_def reply_ok_def respond_def response_ok_def error_ok_def error_handler_def error_body_def
      split: err.splits body.splits)

text \<open>
  C16: the form of every response. Whatever is asked and whatever fails, the status is one of twelve,
  a body is left out exactly for 204, a 500 says one of two fixed texts and nothing of the error
  behind it, and every cookie is the refresh cookie, closed to scripts and to other sites. (This is of requests that
  reach the routes; what Fiber refuses before is not among them. Fiber answers 404 or 405 where no route matches, and the token library makes no \<open>fiber.Error\<close>.)
\<close>

theorem responses_typed:
  assumes run: "run_state (serve R A rq) w = (resp, w')"
    and no_route: "rl_no_route R rq = FiberError n m" "n \<in> {404, 405}"
    and signs: "signs_plainly (as_jwt (ah_auth (ap_auth A)))"
  shows "rs_status resp \<in> {200, 201, 204, 400, 401, 403, 404, 405, 409, 429, 500, 503} \<and>
    (rs_body resp = Empty \<longleftrightarrow> rs_status resp = 204) \<and>
    (rs_status resp = 500 \<longrightarrow> rs_body resp \<in> {error_body ''internal server error'', error_body ''permission check failed''}) \<and>
    (\<forall>ck\<in>set (rs_cookies resp). ck_name ck = ''refresh_token'' \<and> ck_http_only ck \<and> ck_same_site ck = ''Strict'' \<and>
       ck_path ck = ''/'' \<and> ck_secure ck = ah_cookie_secure (ap_auth A))"
proof -
  let ?secure = "ah_cookie_secure (ap_auth A)"
  have handled: "answers (out_ok ?secure) (chain A (rt_guard rt) (rt_handler rt) rq (new_ctx ps))"
    if "picked R A rq = Some (rt, ps)" for rt ps
    by (rule out_chain) (simp_all add: out_registered [OF picked_registered [OF that] signs] new_ctx_def)
  have "answers (out_ok ?secure) (case picked R A rq of None \<Rightarrow> pass_on (rl_no_route R rq) (new_ctx (\<lambda>_. []))
     | Some (rt, ps) \<Rightarrow> chain A (rt_guard rt) (rt_handler rt) rq (new_ctx ps))"
    using handled no_route by (auto simp: new_ctx_def intro!: out_replies split: option.split)
  then have "response_ok ?secure resp"
    using run respond_ok by (auto simp: serve_def dest!: answersD split: prod.splits)
  then show ?thesis by (simp add: response_ok_def cookie_ok_def refresh_cookie_name_def)
qed

lemma sample_signs: "signs_plainly (as_jwt (ah_auth (ap_auth sample_app)))"
  by (auto simp: signs_plainly_def sample_app_def sample_service_def sample_jwt_def sample_sign_def split: list.split prod.split claim.split)

text \<open>The database fails at the first statement of a request: the client is told 401, as for any other session.\<close>

theorem responses_typed_witness:
  "rs_status (fst (run_state (serve sample_router sample_app roles_request) (session_world\<lparr>db_faults := [Fails]\<rparr>))) = 401 \<and>
   rs_body (fst (run_state (serve sample_router sample_app roles_request) (session_world\<lparr>db_faults := [Fails]\<rparr>))) \<noteq> Empty"
proof -
  let ?run = "run_state (serve sample_router sample_app roles_request) (session_world\<lparr>db_faults := [Fails]\<rparr>)"
  have "rs_status (fst ?run) = 401"
    unfolding serve_def roles_picked [of "''1 1 m 0 900''", folded roles_request_def]
    by (simp add: roles_request_def route_eval auth_eval route_of_def user_repo_find_by_id_def db_call_def sample_defs)
  moreover have "rl_no_route sample_router roles_request = FiberError 404 ''Not Found''" by (simp add: sample_router_def)
  ultimately show ?thesis
    using responses_typed [of sample_router sample_app roles_request "session_world\<lparr>db_faults := [Fails]\<rparr>" "fst ?run" "snd ?run",
        OF prod.collapse [symmetric] _ _ sample_signs]
    by simp
qed

end
