(* ===== verification/Races.thy ===== *)
theory Races
  imports Lifecycle
begin

text \<open>
  Requests that overlap. The statements of a request reach the database one by one, outside a
  transaction, so those of another request can come between them. A schedule of two requests is
  written here as the sequence of the parts they run; each part is the code of the service up to
  the point where the other request gets its turn.
\<close>

section \<open>Two refreshes with one token\<close>

text \<open>\<open>Refresh\<close> is its lookup followed by \<open>refresh_active\<close>: the point where the schedules below switch.\<close>

lemma refresh_parts:
  "refresh s token ip ua = do {
     found \<leftarrow> session_repo_find_active_by_token_hash (hash_token s token);
     (case found of
        Inl e \<Rightarrow> if e = ErrNotFound then handle_refresh_miss s (hash_token s token) ip else State_Monad.return (Inl e)
      | Inr sess \<Rightarrow> refresh_active s sess ip ua)
   }"
  by (simp add: refresh_def Let_def)

lemma refresh_active_effect:
  assumes "run_state (refresh_active s sess ip ua) w = (Inr pair, w')"
  shows "\<exists>row now. sessions (db w') = revoke_where (\<lambda>x. s_id x = s_id sess) now (sessions (db w)) @ [row] \<and>
      opens s (s_user_id sess) pair row \<and> s_id row = next_session_id (db w)"
proof -
  obtain owner v where o: "run_state (user_repo_find_by_id (s_user_id sess)) w = (owner, v)"
    by (cases "run_state (user_repo_find_by_id (s_user_id sess)) w")
  with assms obtain view where view: "owner = Inr view"
      and rot: "run_state (rotate_session s (uv_user view) sess ip ua) v = (Inr pair, w')"
    unfolding refresh_active_def by (cases owner) (auto split: if_splits)
  have "db v = db w" using quietD [OF quiet_repository(2) o] by (simp add: quiet_def)
  moreover have "u_id (uv_user view) = s_user_id sess" using user_by_id_Inr(2) o view by blast
  ultimately show ?thesis using rotate_effect [OF rot] by auto
qed

lemma evolves_refresh_active [respects]: "state_io_rel (on_db evolves) (refresh_active s sess ip ua)"
  unfolding refresh_active_def rotate_session_def by (intro ev.on_rules respects)

text \<open>
  One refresh token can buy two sessions. When two requests with the same token both look the
  session up before either revokes it, and both then go on, both are answered with a pair, and both
  new sessions are in force: \<open>RevokeWithTimestamp\<close> does not say that there was nothing left to revoke.
\<close>

theorem concurrent_refresh_doubles:
  assumes find1: "run_state (session_repo_find_active_by_token_hash (hash_token s token)) w = (Inr x, w1)"
    and find2: "run_state (session_repo_find_active_by_token_hash (hash_token s token)) w1 = (Inr y, w2)"
    and go1: "run_state (refresh_active s x ip ua) w2 = (Inr p, w3)"
    and go2: "run_state (refresh_active s y ip' ua') w3 = (Inr q, w4)"
    and wf: "db_wf (db w)"
  shows "\<exists>a b. {a, b} \<subseteq> set (sessions (db w4)) \<and> s_id a \<noteq> s_id b \<and>
    opens s (s_user_id x) p a \<and> opens s (s_user_id y) q b"
proof -
  have same: "db w1 = db w" "db w2 = db w" "y \<in> set (sessions (db w))"
    using find_active_Inr [OF find1] find_active_Inr [OF find2] by auto
  obtain a t where a: "sessions (db w3) = revoke_where (\<lambda>z. s_id z = s_id x) t (sessions (db w)) @ [a]"
      "opens s (s_user_id x) p a" "s_id a = next_session_id (db w)"
    using refresh_active_effect [OF go1] same(2) by auto
  obtain b t' where b: "sessions (db w4) = revoke_where (\<lambda>z. s_id z = s_id y) t' (sessions (db w3)) @ [b]"
      "opens s (s_user_id y) q b" "s_id b = next_session_id (db w3)"
    using refresh_active_effect [OF go2] by auto
  have "db_wf (db w3)" using run_respects [OF evolves_refresh_active go1] wf same(2) by (simp add: on_db_def evolves_def)
  then have "s_id a < s_id b" using a(1) b(3) by (simp add: wf_defs ids_ok_def)
  moreover have "s_id y < s_id a" using wf same(3) a(3) by (simp add: wf_defs ids_ok_def)
  then have "a \<in> set (sessions (db w4))" using a(1) b(1) by (auto simp: revoke_where_def)
  moreover have "b \<in> set (sessions (db w4))" using b(1) by simp
  ultimately show ?thesis using a(2) b(2) by (intro exI [of _ a] exI [of _ b]) auto
qed

definition race_world :: world where
  "race_world = session_world\<lparr>entropy := [sample_raw 7, sample_raw 7]\<rparr>"

abbreviation lookup_a :: "(world, err + session) state" where
  "lookup_a \<equiv> session_repo_find_active_by_token_hash (hash_token sample_service ''a'')"

theorem concurrent_refresh_doubles_witness:
  "\<exists>w2 w4 p q a b.
     run_state (do { _ \<leftarrow> lookup_a; lookup_a }) race_world = (Inr (sample_session 1 1 ''a''), w2) \<and>
     run_state (do { _ \<leftarrow> refresh_active sample_service (sample_session 1 1 ''a'') ''ip'' [];
       refresh_active sample_service (sample_session 1 1 ''a'') ''ip'' [] }) w2 = (Inr q, w4) \<and>
     {a, b} \<subseteq> set (sessions (db w4)) \<and> s_id a \<noteq> s_id b \<and> \<not> s_revoked a \<and> \<not> s_revoked b"
proof -
  let ?x = "sample_session 1 1 ''a''" and ?go = "refresh_active sample_service (sample_session 1 1 ''a'') ''ip'' []"
  define w1 where "w1 = snd (run_state lookup_a race_world)"
  define w2 where "w2 = snd (run_state lookup_a w1)"
  define w3 where "w3 = snd (run_state ?go w2)"
  have f1: "run_state lookup_a race_world = (Inr ?x, w1)" by (simp add: w1_def race_world_def auth_eval sample_defs)
  have f2: "run_state lookup_a w1 = (Inr ?x, w2)" by (simp add: w2_def w1_def race_world_def auth_eval sample_defs)
  have "fst (run_state ?go w2) \<in> range Inr" by (simp add: w2_def w1_def race_world_def auth_eval sample_defs)
  then obtain p where g1: "run_state ?go w2 = (Inr p, w3)" unfolding w3_def by (rule run_range_Inr)
  have "fst (run_state ?go w3) \<in> range Inr" by (simp add: w3_def w2_def w1_def race_world_def auth_eval sample_defs)
  then obtain q where g2: "run_state ?go w3 = (Inr q, snd (run_state ?go w3))" by (rule run_range_Inr)
  have "db_wf (db race_world)" using session_world_wf by (simp add: race_world_def)
  from concurrent_refresh_doubles [OF f1 f2 g1 g2 this] obtain a b
    where "{a, b} \<subseteq> set (sessions (db (snd (run_state ?go w3))))" "s_id a \<noteq> s_id b" "\<not> s_revoked a" "\<not> s_revoked b"
    by (auto simp: opens_def)
  moreover have "run_state (do { _ \<leftarrow> lookup_a; lookup_a }) race_world = (Inr ?x, w2)" using f1 f2 by simp
  moreover have "run_state (do { _ \<leftarrow> ?go; ?go }) w2 = (Inr q, snd (run_state ?go w3))" using g1 g2 by simp
  ultimately show ?thesis by blast
qed

section \<open>Two administrators who deactivate each other\<close>

text \<open>
  Both updates pass the guard of the last administrator before either row is written; then nobody
  is left who holds the wildcard and is active.
\<close>

definition two_admins :: world where
  "two_admins = sample_world\<lparr>db := sample_db\<lparr>user_permissions := [\<lparr>up_user_id = 1, up_permission_id = 1\<rparr>,
     \<lparr>up_user_id = 2, up_permission_id = 1\<rparr>]\<rparr>\<rparr>"

definition switch_off :: update_user_input where
  "switch_off = \<lparr>ui_name = None, ui_email = None, ui_password = None, ui_role_id = None, ui_active = Some False\<rparr>"

lemma last_admins_race:
  "run_state (do {
     g1 \<leftarrow> last_admin_guard 1 switch_off alice;
     g2 \<leftarrow> last_admin_guard 2 switch_off bob;
     State_Monad.return (g1, g2)
   }) two_admins = ((Inr (), Inr ()), two_admins)"
  "active_users_with_code (db two_admins) ''*'' = [alice, bob]"
  "active_users_with_code (db (snd (run_state (do {
     _ \<leftarrow> user_repo_update (alice\<lparr>u_active := False\<rparr>);
     user_repo_update (bob\<lparr>u_active := False\<rparr>)
   }) two_admins))) ''*'' = []"
  by (simp_all add: two_admins_def switch_off_def last_admin_guard_def user_has_permission_code_def list_codes_by_user_def
      count_active_users_with_star_def db_eval sample_defs)

section \<open>A cache that is filled too late\<close>

text \<open>
  A check that missed the cache has read the grants; before it fills the cache a revocation is made
  and invalidates it. The fill then puts the revoked code back, and the checks that follow allow it
  until the entry expires.
\<close>

lemma stale_fill_race:
  "fst (run_state (do {
     old \<leftarrow> permission_repo_list_codes_by_user_id 2;
     gone \<leftarrow> revoke sample_cache 1 2 2;
     fill \<leftarrow> cache_set sample_cache 2 (case old of Inr cs \<Rightarrow> cs | Inl _ \<Rightarrow> []);
     allowed \<leftarrow> has_permission sample_cache 2 ''users.read'';
     truth \<leftarrow> permission_repo_list_codes_by_user_id 2;
     State_Monad.return (gone, fill, allowed, truth)
   }) sample_world) = (Inr (), Inr (), Inr True, Inr [])"
  by (simp add: service_eval db_eval sample_defs)

end
