(* ===== verification/Server_Relations.thy ===== *)
theory Server_Relations
  imports Startup
begin

text \<open>
  The interface between the server and a relation on worlds that is to hold from before to after every
  request: what the calls of the repositories, of Redis and of the four operations on grants keep is kept by every
  handler, by the middleware, by the whole server and by the clean-up (\<open>routes/routes.go\<close>, \<open>internal/app/app.go\<close>).
  \<open>Coherence\<close>, \<open>Authority\<close> and \<open>Interleavings\<close> use it.
\<close>

section \<open>The other users of Redis\<close>

text \<open>The keys of the limiter and of the last logins are none of the cache, under the same prefix.\<close>

lemma other_keys [simp]:
  "client_key (pc_prefix pc) (login_ip_key ip) \<noteq> cache_key pc u"
  "client_key (pc_prefix pc) (login_email_key email) \<noteq> cache_key pc u"
  "client_key (pc_prefix pc) (login_ip_key ip @ s) \<noteq> cache_key pc u"
  "client_key (pc_prefix pc) (login_email_key email @ s) \<noteq> cache_key pc u"
  "client_key (pc_prefix pc) (last_login_key uid) \<noteq> cache_key pc u"
  by (simp_all add: cache_key_def login_ip_key_def login_email_key_def last_login_key_def)

text \<open>A service whose parts share the prefix of the cache.\<close>

definition wired_auth :: "perm_cache \<Rightarrow> auth_service \<Rightarrow> bool" where
  "wired_auth pc s \<longleftrightarrow> as_perm_cache s = pc \<and> tl_prefix (as_limiter s) = pc_prefix pc \<and>
     (\<forall>st. as_last_login s = Some st \<longrightarrow> lls_prefix st = pc_prefix pc)"

text \<open>An application whose services share one cache and one prefix of keys; the one that \<open>New\<close> wires is.\<close>

definition wired :: "app \<Rightarrow> bool" where
  "wired A \<longleftrightarrow> wired_auth (ap_perms A) (ah_auth (ap_auth A)) \<and> us_perm_cache (ap_users A) = ap_perms A"

section \<open>What the server keeps\<close>

locale server_relation = step_relation R for R :: "world \<Rightarrow> world \<Rightarrow> bool" +
  fixes pc :: perm_cache
  assumes primitives [respects]:
    "state_io_rel R time_now"
    "state_io_rel R (rand_read n)"
    "state_io_rel R db_ping"
    "state_io_rel R redis_ping"
  and users [respects]:
    "state_io_rel R (user_repo_find_by_email email)"
    "state_io_rel R (user_repo_find_by_id uid)"
    "state_io_rel R user_repo_list"
    "state_io_rel R (user_repo_create u)"
    "state_io_rel R (user_repo_update_password_hash uid hash)"
    "state_io_rel R (user_repo_update u)"
  and permissions [respects]:
    "state_io_rel R (permission_repo_list_all collate)"
    "state_io_rel R (role_repo_list collate)"
    "state_io_rel R (permission_repo_find_by_code code)"
    "state_io_rel R (permission_repo_find_by_id pid)"
    "state_io_rel R (permission_repo_list_codes_by_user_id uid)"
    "state_io_rel R (permission_repo_create p)"
    "state_io_rel R (permission_repo_update_description pid description)"
    "state_io_rel R (permission_repo_count_active_users_with_code code)"
  and sessions [respects]:
    "state_io_rel R (session_repo_create s)"
    "state_io_rel R (session_repo_find_active_by_token_hash h)"
    "state_io_rel R (session_repo_find_by_token_hash h)"
    "state_io_rel R (session_repo_find_by_id sid)"
    "state_io_rel R (session_repo_revoke_with_timestamp sid)"
    "state_io_rel R (session_repo_revoke_all_by_user uid)"
    "state_io_rel R (session_repo_revoke_all_by_user_except_current uid sid)"
    "state_io_rel R (session_repo_touch_activity sid)"
    "state_io_rel R (session_repo_find_active_by_user_id uid)"
    "state_io_rel R (session_repo_delete_expired retention)"
  and trail [respects]:
    "state_io_rel R (audit_repo_insert a)"
    "state_io_rel R (audit_repo_list limit offset)"
  and grants [respects]:
    "state_io_rel R (has_permission pc uid code)"
    "state_io_rel R (grant pc actor uid pid)"
    "state_io_rel R (revoke pc actor uid pid)"
    "state_io_rel R (delete_permission actor pid)"
  and store [respects]:
    "state_io_rel R (rdb_ttl tr k)" "state_io_rel R (rdb_get_int k)" "state_io_rel R (rdb_get k)" "state_io_rel R (rdb_del ks)"
  and writes:
    "(\<And>u. k \<noteq> cache_key pc u) \<Longrightarrow> state_io_rel R (rdb_incr k)"
    "(\<And>u. k \<noteq> cache_key pc u) \<Longrightarrow> state_io_rel R (rdb_expire k ttl)"
    "(\<And>u. k \<noteq> cache_key pc u) \<Longrightarrow> state_io_rel R (rdb_set k v ttl)"
begin

lemma respects_audit [respects]:
  "state_io_rel R (audit_service_log uid action entity eid old new)"
  "state_io_rel R (log_security_alert uid reason m)"
  "state_io_rel R (audit_service_list limit offset)"
  unfolding audit_service_log_def log_security_alert_def audit_service_list_def
  by (intro step_rules respects)+

lemma respects_invalidate [respects]: "state_io_rel R (invalidate_user_cache pc uid)"
  unfolding invalidate_user_cache_def invalidate_cache_def cache_invalidate_def by (intro step_rules respects)

lemma respects_limiter:
  assumes "tl_prefix l = pc_prefix pc" and "\<And>u. client_key (pc_prefix pc) key \<noteq> cache_key pc u"
    and "\<And>u. client_key (pc_prefix pc) (key @ '':block'') \<noteq> cache_key pc u"
  shows "state_io_rel R (check l tr key)"
  unfolding check_def
  by (intro step_rules respects writes) (simp_all add: assms)

lemma respects_reset [respects]: "state_io_rel R (reset l key)"
  unfolding reset_def by (intro respects)

lemma respects_travel:
  assumes "\<And>st. store = Some st \<Longrightarrow> lls_prefix st = pc_prefix pc"
  shows "state_io_rel R (check_impossible_travel G geo store window uid ip)"
  unfolding check_impossible_travel_def last_login_get_def last_login_set_def
  by (intro step_rules respects writes) (simp_all add: assms)

lemma respects_tokens [respects]:
  "state_io_rel R (hash_password k p plain)"
  "state_io_rel R (generate_access_token L t u sid)"
  "state_io_rel R (validate_access_token L token)"
  "state_io_rel R (create_session s u ip ua)"
  "state_io_rel R (touch_session sid)"
  "state_io_rel R (list_active_sessions uid)"
  "state_io_rel R (revoke_session sid uid)"
  "state_io_rel R (revoke_other_sessions uid sid)"
  "state_io_rel R (logout s token)"
  "state_io_rel R (handle_refresh_miss s h ip)"
  unfolding hash_password_def generate_access_token_def validate_access_token_def create_session_def
    generate_refresh_token_def touch_session_def list_active_sessions_def revoke_session_def
    revoke_other_sessions_def logout_def handle_refresh_miss_def
  by (intro step_rules respects)+

lemma respects_login:
  assumes "wired_auth pc s"
  shows "state_io_rel R (login s email pw ip ua)" "state_io_rel R (refresh s token ip ua)"
proof -
  from assms have pc: "as_perm_cache s = pc" and l: "tl_prefix (as_limiter s) = pc_prefix pc"
    and st: "\<And>st. as_last_login s = Some st \<Longrightarrow> lls_prefix st = pc_prefix pc"
    by (simp_all add: wired_auth_def)
  have limits: "state_io_rel R (check_login_rate_limit s (login_ip_key ip) email ip)"
    "state_io_rel R (check_login_rate_limit s (login_email_key email) email ip)"
    unfolding check_login_rate_limit_def audit_rate_limit_block_def
    by (intro step_rules respects respects_limiter [OF l]; simp)+
  have success: "state_io_rel R (login_success s u email ip ua)" for u
    unfolding login_success_def pc by (intro step_rules respects respects_travel st)
  show "state_io_rel R (login s email pw ip ua)"
    unfolding login_def login_credentials_def login_found_def dummy_verify_return audit_login_failed_def
    by (intro step_rules respects limits success)
  show "state_io_rel R (refresh s token ip ua)"
    unfolding refresh_def refresh_active_def rotate_session_def pc by (intro step_rules respects)
qed

lemma respects_services [respects]:
  "state_io_rel R (list_all_permissions collate)"
  "state_io_rel R (list_codes_by_user uid)"
  "state_io_rel R count_active_users_with_star"
  "state_io_rel R (create_permission actor code description)"
  "state_io_rel R (update_description actor pid description)"
  "state_io_rel R (list_roles collate)"
  "state_io_rel R user_service_list"
  "state_io_rel R (user_service_find_by_id uid)"
  "state_io_rel R (user_service_create us actor ci)"
  unfolding list_all_permissions_def list_codes_by_user_def count_active_users_with_star_def create_permission_def
    update_description_def list_roles_def user_service_list_def user_service_find_by_id_def user_service_create_def
  by (intro step_rules respects)+

lemma respects_update:
  assumes "us_perm_cache us = pc"
  shows "state_io_rel R (user_service_update us actor uid inp)"
  unfolding user_service_update_def check_update_permissions_def require_permission_def last_admin_guard_def
    user_has_permission_code_def update_email_def update_password_def after_update_def assms
  by (intro step_rules respects)

lemma respects_session_handlers:
  assumes "wired_auth pc (ah_auth h)"
  shows "state_io_rel R (login_handler F h rq cx)" "state_io_rel R (refresh_handler F h rq cx)"
  unfolding login_handler_def refresh_handler_def handler_defs reply_defs
  by (intro step_rules respects respects_login [OF assms])+

lemma respects_handlers [respects]:
  "state_io_rel R (logout_handler h rq cx)"
  "state_io_rel R (list_sessions_handler rq cx)"
  "state_io_rel R (revoke_session_handler rq cx)"
  "state_io_rel R (revoke_all_sessions_handler rq cx)"
  "state_io_rel R (list_users_handler rq cx)"
  "state_io_rel R (get_user_handler rq cx)"
  "state_io_rel R (me_handler rq cx)"
  "state_io_rel R (create_user_handler F us rq cx)"
  "state_io_rel R (list_permissions_handler collate rq cx)"
  "state_io_rel R (create_permission_handler F rq cx)"
  "state_io_rel R (update_permission_handler F rq cx)"
  "state_io_rel R (delete_permission_handler rq cx)"
  "state_io_rel R (grant_handler F pc rq cx)"
  "state_io_rel R (revoke_handler pc rq cx)"
  "state_io_rel R (list_roles_handler collate rq cx)"
  "state_io_rel R (audit_list_handler F rq cx)"
  unfolding handler_defs reply_defs
  by (intro step_rules respects)+

lemma respects_health [respects]: "state_io_rel R (health_handler rq cx)"
  unfolding health_handler_def reply_defs by (intro step_rules respects)

lemma respects_middleware:
  assumes "\<And>cx. state_io_rel R (nxt rq cx)"
  shows "state_io_rel R (auth_mw s nxt rq cx)"
    and "state_io_rel R (try_codes pc codes nxt rq cx)"
    and "state_io_rel R (require_permission_mw pc code nxt rq cx)"
    and "state_io_rel R (require_any_permission_mw pc codes nxt rq cx)"
proof -
  show "state_io_rel R (auth_mw s nxt rq cx)"
    unfolding auth_mw_def fail_def by (intro step_rules respects assms)
  show codes: "state_io_rel R (try_codes pc codes nxt rq cx)" for codes
  proof (induction codes)
    case (Cons code codes)
    show ?case unfolding try_codes.simps fail_def by (intro step_rules respects assms Cons.IH)
  qed (simp add: fail_def step_rules)
  show "state_io_rel R (require_permission_mw pc code nxt rq cx)"
    "state_io_rel R (require_any_permission_mw pc codes nxt rq cx)"
    unfolding require_permission_mw_def require_any_permission_mw_def fail_def
    by (intro step_rules respects codes assms)+
qed

lemma respects_update_handler: "us_perm_cache us = pc \<Longrightarrow> state_io_rel R (update_user_handler F us rq cx)"
  unfolding update_user_handler_def reply_defs by (intro step_rules respects respects_update)

lemma respects_registered:
  assumes "wired A" and "ap_perms A = pc" and "rt \<in> set (registered A)"
  shows "state_io_rel R (rt_handler rt rq cx)"
  using assms by (auto simp: registered_def setup_routes_def route_of_def Let_def wired_def
      intro: respects respects_handlers [folded assms(2)] respects_session_handlers respects_update_handler)

theorem respects_serve:
  assumes "wired A" and "ap_perms A = pc"
  shows "state_io_rel R (serve T A rq)"
proof -
  have "state_io_rel R (chain A (rt_guard rt) (rt_handler rt) rq cx)"
    if "rt \<in> set (registered A)" for rt cx
    by (rule chain_respects) (simp_all add: respects_registered [OF assms that] respects_middleware assms(2))
  then show ?thesis
    unfolding serve_def pass_on_def
    by (intro step_rules respects) (auto dest: picked_registered)
qed

lemma respects_cleanup [respects]: "state_io_rel R cleanup_sessions"
proof -
  have "state_io_rel R (log_expired xs)" for xs
  proof (induction xs)
    case (Cons x xs)
    show ?case unfolding log_expired.simps by (intro step_rules respects Cons.IH)
  qed (simp add: step_rules)
  then show ?thesis unfolding cleanup_sessions_def by (intro step_rules respects)
qed

end

end
