(* ===== verification/Coherence.thy ===== *)
theory Coherence
  imports Server_Relations Lifecycle Permission_Properties
begin

text \<open>
  The cache of permissions along runs of the server. The check of a permission is right while the
  cached permissions are coherent with the tables; here coherence is shown to be kept by every
  request and every clean-up, as long as Redis answers and no statement to the database takes effect without
  saying so. The flush at the start makes it true first (\<open>Startup_Properties\<close>).
\<close>

section \<open>Worlds without silent failures\<close>

definition calm :: "world \<Rightarrow> bool" where
  "calm w \<longleftrightarrow> redis_faults w = [] \<and> Lost \<notin> set (db_faults w)"

definition calmer :: "world \<Rightarrow> world \<Rightarrow> bool" where
  "calmer v w \<longleftrightarrow> (calm v \<longrightarrow> calm w)"

interpretation calmer: step_relation calmer
  by unfold_locales (auto simp: calmer_def)

lemma run_db_call_calm:
  assumes "run_state (db_call f) w = (r, w')" and "Lost \<notin> set (db_faults w)"
  shows "Lost \<notin> set (db_faults w')"
    and "r = fst (f (clock w') (db w)) \<and> db w' = snd (f (clock w') (db w)) \<or> r = Inl ErrDb \<and> db w' = db w"
  using assms
  by (cases "f (clock (elapse w)) (db w)"; cases "db_faults w";
      auto simp: db_call_def Let_def split: io_fault.splits)+

lemma calmer_prims [respects]:
  "state_io_rel calmer time_now"
  "state_io_rel calmer (rand_read n)"
  "state_io_rel calmer (db_call f)"
  "state_io_rel calmer (redis_call g)"
proof -
  show "state_io_rel calmer time_now" "state_io_rel calmer (rand_read n)"
    by (rule state_io_relI, auto simp: calmer_def calm_def elapse_def rand_read_def split: list.splits if_splits)+
  show "state_io_rel calmer (db_call f)"
    by (rule state_io_relI) (auto simp: calmer_def calm_def run_db_call(2) dest: run_db_call_calm(1))
  show "state_io_rel calmer (redis_call g)"
    by (rule state_io_relI) (auto simp: calmer_def calm_def run_redis_call(2) dest: run_redis_call(7))
qed

section \<open>What is kept\<close>

definition coherent_all :: "perm_cache \<Rightarrow> world \<Rightarrow> bool" where
  "coherent_all pc w \<longleftrightarrow> (\<forall>u. coherent pc w u)"

definition good :: "perm_cache \<Rightarrow> world \<Rightarrow> bool" where
  "good pc w \<longleftrightarrow> calm w \<and> db_wf (db w) \<and> coherent_all pc w"

definition keeps :: "perm_cache \<Rightarrow> world \<Rightarrow> world \<Rightarrow> bool" where
  "keeps pc v w \<longleftrightarrow> (good pc v \<longrightarrow> good pc w)"

interpretation keeps: step_relation "keeps pc" for pc
  by unfold_locales (auto simp: keeps_def)

lemma keepsI:
  assumes "calmer v w" and "evolves (db v) (db w)"
    and "\<And>u. cached pc w u \<in> {{}, cached pc v u}" and "db_wf (db v) \<Longrightarrow> calm v \<Longrightarrow> granted w = granted v"
  shows "keeps pc v w"
  using assms coherent_later [of pc v _ w] by (auto simp: keeps_def good_def calmer_def evolves_def coherent_all_def)

lemma keeps_quiet: "quiet v w \<Longrightarrow> calmer v w \<Longrightarrow> keeps pc v w"
  by (rule keepsI) (simp_all add: granted_quiet cached_quiet [simplified], simp add: quiet_def)

text \<open>A statement that leaves the codes of the users alone.\<close>

lemma keeps_db_call:
  assumes "\<And>now d. evolves d (snd (f now d))"
    and "\<And>now d u. db_wf d \<Longrightarrow> set (codes_of (snd (f now d)) u) = set (codes_of d u)"
  shows "state_io_rel (keeps pc) (db_call f)"
proof (rule state_io_relI)
  fix r w w' assume run: "run_state (db_call f) w = (r, w')"
  show "keeps pc w w'"
  proof (rule keepsI)
    show "calmer w w'" by (rule run_respects [OF calmer_prims(3) run])
    show "evolves (db w) (db w')"
      using run_respects [OF ev.on_db_call run] assms(1) by (simp add: on_db_def)
    show "cached pc w' u \<in> {{}, cached pc w u}" for u by (rule cached_db_call [OF run])
    assume "db_wf (db w)"
    then show "granted w' = granted w"
      using run_db_call(6) [OF run] assms(2) by (auto simp: granted_def fun_eq_iff)
  qed
qed

lemma codes_frame:
  "permissions e = permissions d \<Longrightarrow> user_permissions e = user_permissions d \<Longrightarrow> codes_of e u = codes_of d u"
  by (simp add: codes_of_def permissions_of_def)

lemma codes_kept [simp]:
  "codes_of (snd (q_user_create v now d)) u = codes_of d u"
  "codes_of (snd (q_user_update_password_hash uid h t now d)) u = codes_of d u"
  "codes_of (snd (q_user_update v now d)) u = codes_of d u"
  "codes_of (snd (q_session_create s now d)) u = codes_of d u"
  "codes_of (snd (q_session_revoke R t now d)) u = codes_of d u"
  "codes_of (snd (q_session_touch sid t now d)) u = codes_of d u"
  "codes_of (snd (q_session_delete R now d)) u = codes_of d u"
  "codes_of (snd (q_audit_insert a now d)) u = codes_of d u"
  by (rule codes_frame; simp add: q_user_create_def q_user_update_password_hash_def q_user_update_def q_session_create_def
      q_session_revoke_def q_session_touch_def q_session_delete_def q_audit_insert_def Let_def)+

lemma codes_kept_permissions:
  "set (codes_of (snd (q_permission_update_description pid description now d)) u) = set (codes_of d u)"
  "db_wf d \<Longrightarrow> set (codes_of (snd (q_permission_create p now d)) u) = set (codes_of d u)"
proof -
  define f where "f p = (if p_id p = pid then p\<lparr>p_description := description\<rparr> else p)" for p :: permission
  have f: "p_code (f p) = p_code p" "p_id (f p) = p_id p" for p by (simp_all add: f_def)
  have "{p_code q |q. q \<in> f ` A \<and> R (p_id q)} = {p_code (f p) |p. p \<in> A \<and> R (p_id (f p))}" for A R by blast
  then have image: "{p_code q |q. q \<in> f ` A \<and> R (p_id q)} = {p_code p |p. p \<in> A \<and> R (p_id p)}" for A R
    by (simp add: f)
  have "permissions (snd (q_permission_update_description pid description now d)) = map f (permissions d)"
    "user_permissions (snd (q_permission_update_description pid description now d)) = user_permissions d"
    by (auto simp: q_permission_update_description_def f_def fun_eq_iff intro!: map_idI [symmetric])
  then show "set (codes_of (snd (q_permission_update_description pid description now d)) u) = set (codes_of d u)"
    unfolding codes_set
    by (simp add: image [of _ "\<lambda>i. \<lparr>up_user_id = u, up_permission_id = i\<rparr> \<in> set (user_permissions d)"])
  assume wf: "db_wf d"
  have "\<lparr>up_user_id = u, up_permission_id = next_permission_id d\<rparr> \<notin> set (user_permissions d)"
    using wf by (fastforce simp: wf_defs ids_ok_def)
  then show "set (codes_of (snd (q_permission_create p now d)) u) = set (codes_of d u)"
    unfolding codes_set q_permission_create_def by (auto simp: Let_def)
qed

lemma keeps_prims [respects]:
  "state_io_rel (keeps pc) time_now"
  "state_io_rel (keeps pc) (rand_read n)"
  using quiet_other calmer_prims(1,2) by (auto simp: state_io_rel_def intro: keeps_quiet)

lemma keeps_redis_call:
  assumes "\<And>now st u. lookup now (snd (f now st)) (cache_key pc u) \<in> {None, lookup now st (cache_key pc u)}"
  shows "state_io_rel (keeps pc) (redis_call f)"
proof (rule state_io_relI)
  fix r w w' assume run: "run_state (redis_call f) w = (r, w')"
  show "keeps pc w w'"
  proof (rule keepsI)
    show "calmer w w'" by (rule run_respects [OF calmer_prims(4) run])
    show "evolves (db w) (db w')" by (simp add: run_redis_call(1) [OF run])
    show "granted w' = granted w" by (rule granted_redis_call [OF run])
    fix u
    have "lookup (clock w') (redis w') (cache_key pc u) \<in> {None, lookup (clock w') (redis w) (cache_key pc u)}"
      using run_redis_call(6) [OF run] assms [of "clock w'" "redis w" u] by auto
    then show "cached pc w' u \<in> {{}, cached pc w u}"
      using cached_same_store [OF run_redis_call_clock [OF run], of pc u] by (auto simp: cached_def)
  qed
qed

section \<open>The programs that keep it\<close>

lemma keeps_repository [respects]:
  "state_io_rel (keeps pc) (user_repo_find_by_email email)"
  "state_io_rel (keeps pc) (user_repo_find_by_id uid)"
  "state_io_rel (keeps pc) user_repo_list"
  "state_io_rel (keeps pc) (user_repo_create u)"
  "state_io_rel (keeps pc) (user_repo_update_password_hash uid hash)"
  "state_io_rel (keeps pc) (user_repo_update u)"
  "state_io_rel (keeps pc) (permission_repo_list_all collate)"
  "state_io_rel (keeps pc) (role_repo_list collate)"
  "state_io_rel (keeps pc) (permission_repo_find_by_code code)"
  "state_io_rel (keeps pc) (permission_repo_find_by_id pid)"
  "state_io_rel (keeps pc) (permission_repo_list_codes_by_user_id uid)"
  "state_io_rel (keeps pc) (permission_repo_create p)"
  "state_io_rel (keeps pc) (permission_repo_update_description pid description)"
  "state_io_rel (keeps pc) (permission_repo_count_assignments pid)"
  "state_io_rel (keeps pc) (permission_repo_count_active_users_with_code code)"
  "state_io_rel (keeps pc) (session_repo_create s)"
  "state_io_rel (keeps pc) (session_repo_find_active_by_token_hash hash)"
  "state_io_rel (keeps pc) (session_repo_find_by_token_hash hash)"
  "state_io_rel (keeps pc) (session_repo_find_by_id sid)"
  "state_io_rel (keeps pc) (session_repo_revoke_with_timestamp sid)"
  "state_io_rel (keeps pc) (session_repo_revoke_all_by_user uid)"
  "state_io_rel (keeps pc) (session_repo_revoke_all_by_user_except_current uid sid)"
  "state_io_rel (keeps pc) (session_repo_touch_activity sid)"
  "state_io_rel (keeps pc) (session_repo_find_active_by_user_id uid)"
  "state_io_rel (keeps pc) (session_repo_delete_expired retention)"
  "state_io_rel (keeps pc) (audit_repo_insert a)"
  "state_io_rel (keeps pc) (audit_repo_list limit offset)"
  unfolding repository_defs
  by (intro keeps.step_rules respects keeps_db_call; simp add: evolves_queries codes_kept_permissions)+

lemma keeps_audit [respects]:
  "state_io_rel (keeps pc) (audit_service_log uid action entity eid old new)"
  "state_io_rel (keeps pc) (log_security_alert uid reason m)"
  "state_io_rel (keeps pc) (audit_service_list limit offset)"
  unfolding audit_service_log_def log_security_alert_def audit_service_list_def
  by (intro keeps.step_rules respects)+

text \<open>The cache itself: a check reads through it, an invalidation drops an entry.\<close>

lemma calmer_permission_service:
  "state_io_rel calmer (has_permission pc uid code)"
  "state_io_rel calmer (grant pc actor uid pid)"
  "state_io_rel calmer (revoke pc actor uid pid)"
  "state_io_rel calmer (delete_permission actor pid)"
  unfolding permission_service_defs repository_defs cache_get_def cache_set_def cache_invalidate_def rdb_defs
    audit_service_log_def
  by (intro calmer.step_rules respects)+

lemma keeps_has_permission [respects]: "state_io_rel (keeps pc) (has_permission pc uid code)"
proof (rule state_io_relI)
  fix r w w' assume run: "run_state (has_permission pc uid code) w = (r, w')"
  have "calmer w w'" by (rule run_respects [OF calmer_permission_service(1) run])
  then show "keeps pc w w'"
    using has_permission_keeps [OF run] by (auto simp: keeps_def good_def calmer_def coherent_all_def)
qed

lemma keeps_invalidate [respects]:
  "state_io_rel (keeps pc) (cache_invalidate pc uid)"
  "state_io_rel (keeps pc) (invalidate_cache pc uid)"
  "state_io_rel (keeps pc) (invalidate_user_cache pc uid)"
proof -
  show drop: "state_io_rel (keeps pc) (cache_invalidate pc uid)"
    unfolding cache_invalidate_def rdb_del_def by (rule keeps_redis_call) (simp add: del_cmd_def lookup_def)
  show "state_io_rel (keeps pc) (invalidate_cache pc uid)" "state_io_rel (keeps pc) (invalidate_user_cache pc uid)"
    unfolding invalidate_cache_def invalidate_user_cache_def by (intro keeps.step_rules drop)+
qed

text \<open>A change of the grants of one user, followed by the invalidation of that user's entry.\<close>

lemma keeps_change:
  fixes f :: "int \<Rightarrow> database \<Rightarrow> (err + unit) \<times> database"
  assumes evo: "\<And>now d. evolves d (snd (f now d))"
    and others: "\<And>now d u. u \<noteq> uid \<Longrightarrow> set (codes_of (snd (f now d)) u) = set (codes_of d u)"
    and err: "\<And>now d e. fst (f now d) = Inl e \<Longrightarrow> snd (f now d) = d"
  shows "state_io_rel (keeps pc) (try_bind (db_call f) (\<lambda>_. do {
     _ \<leftarrow> invalidate_cache pc uid;
     _ \<leftarrow> audit_service_log a act ent eid old new;
     State_Monad.return (Inr ()) }))" (is "state_io_rel _ ?change")
proof (rule state_io_relI)
  fix r w w' assume run: "run_state ?change w = (r, w')"
  have calm: "calmer w w'"
    by (rule run_respects [OF _ run])
      (unfold invalidate_cache_def cache_invalidate_def rdb_del_def audit_service_log_def audit_repo_insert_def,
        intro calmer.step_rules respects)
  have "state_io_rel (on_db evolves) ?change"
    unfolding invalidate_cache_def by (intro ev.on_rules ev.on_db_call [OF evo] respects)
  from run_respects [OF this run] have evolved: "evolves (db w) (db w')" by (simp add: on_db_def)
  note cached = change_then_invalidate(1) [OF run]
  show "keeps pc w w'"
  proof (cases "r = Inr ()")
    case True
    obtain t where t: "only_audit (snd (f t (db w))) (db w')"
      using change_then_invalidate(3) [OF run True] by blast
    then have kept: "granted w' u = granted w u" if "u \<noteq> uid" for u
      using others [OF that] by (simp add: granted_def only_audit_reads)
    have "coherent pc w' u" if "good pc w" for u
    proof (cases "u = uid")
      case True
      then show ?thesis using change_then_invalidate(2) [OF run \<open>r = Inr ()\<close>] that
        by (simp add: coherent_def good_def calm_def)
    next
      case False
      then show ?thesis using coherent_later [OF _ cached kept] that by (simp add: good_def coherent_all_def)
    qed
    then show ?thesis using calm evolved by (auto simp: keeps_def good_def calmer_def evolves_def coherent_all_def)
  next
    case False
    with run obtain e where failed: "run_state (db_call f) w = (Inl e, w')"
      by (auto split: prod.splits sum.splits)
    have "db w' = db w" if "Lost \<notin> set (db_faults w)"
      using run_db_call_calm(2) [OF failed that] err [of "clock w'" "db w" e] by auto
    then show ?thesis
      by (intro keepsI [OF calm evolved cached]) (auto simp: calm_def granted_def)
  qed
qed

lemma keeps_grants [respects]:
  "state_io_rel (keeps pc) (actor_can_grant actor code)"
  "state_io_rel (keeps pc) (grant pc actor uid pid)"
  "state_io_rel (keeps pc) (revoke pc actor uid pid)"
proof -
  show can: "state_io_rel (keeps pc) (actor_can_grant actor code)" for code
    unfolding actor_can_grant_def by (intro keeps.step_rules respects)
  have grant: "state_io_rel (keeps pc) (try_bind (db_call (q_grant uid pid)) (\<lambda>_. do {
     _ \<leftarrow> invalidate_cache pc uid;
     _ \<leftarrow> audit_service_log a act ent eid old new;
     State_Monad.return (Inr ()) }))" for a act ent eid old new
    by (rule keeps_change, rule evolves_permission_queries) (auto simp: codes_set q_grant_def split: if_splits)
  show "state_io_rel (keeps pc) (grant pc actor uid pid)"
    unfolding grant_def permission_repo_grant_def by (intro grant can keeps.step_return keeps.step_try_bind respects)
  have revoke: "state_io_rel (keeps pc) (try_bind (db_call (q_revoke uid pid)) (\<lambda>_. do {
     _ \<leftarrow> invalidate_cache pc uid;
     _ \<leftarrow> audit_service_log a act ent eid old new;
     State_Monad.return (Inr ()) }))" for a act ent eid old new
    by (rule keeps_change, rule evolves_permission_queries) (auto simp: codes_set q_revoke_def)
  show "state_io_rel (keeps pc) (revoke pc actor uid pid)"
    unfolding revoke_def permission_repo_revoke_def by (intro revoke keeps.step_return keeps.step_try_bind respects)
qed

lemma keeps_delete [respects]: "state_io_rel (keeps pc) (delete_permission actor pid)"
proof (rule state_io_relI)
  fix r w w' assume run: "run_state (delete_permission actor pid) w = (r, w')"
  have "state_io_rel redis_kept (delete_permission actor pid)"
    unfolding delete_permission_def by (intro rk.step_rules respects)
  from cached_redis_kept [OF run_respects [OF this run]] show "keeps pc w w'"
    using run_respects [OF calmer_permission_service(4) run] run_respects [OF evolves_permission_service(10) run]
      delete_effect [OF run]
    by (intro keepsI) (auto simp: on_db_def)
qed

section \<open>The other users of Redis\<close>

lemma keeps_reads [respects]:
  "state_io_rel (keeps pc) (rdb_ttl tr k)" "state_io_rel (keeps pc) (rdb_get_int k)" "state_io_rel (keeps pc) (rdb_get k)"
  unfolding rdb_defs
  by (rule keeps_redis_call; simp add: ttl_cmd_def get_int_cmd_def get_cmd_def)+

lemma keeps_writes:
  assumes "\<And>u. k \<noteq> cache_key pc u"
  shows "state_io_rel (keeps pc) (rdb_incr k)" "state_io_rel (keeps pc) (rdb_expire k ttl)"
    "state_io_rel (keeps pc) (rdb_set k v ttl)"
proof -
  have other: "lookup now (st(k := e)) (cache_key pc u) = lookup now st (cache_key pc u)" for now st e u
    using assms [of u] by (simp add: lookup_def)
  show "state_io_rel (keeps pc) (rdb_incr k)"
    unfolding rdb_defs
    by (rule keeps_redis_call) (simp add: incr_cmd_def other assms [symmetric] split: option.split redis_value.split)
  show "state_io_rel (keeps pc) (rdb_expire k ttl)" "state_io_rel (keeps pc) (rdb_set k v ttl)"
    unfolding rdb_defs by (rule keeps_redis_call, simp add: expire_cmd_def set_cmd_def other assms [symmetric] split: option.split)+
qed

lemma keeps_del [respects]: "state_io_rel (keeps pc) (rdb_del ks)"
  unfolding rdb_del_def by (rule keeps_redis_call) (simp add: del_cmd_def lookup_def)

lemma keeps_pings [respects]: "state_io_rel (keeps pc) db_ping" "state_io_rel (keeps pc) redis_ping"
  unfolding db_ping_def redis_ping_def by (rule keeps_db_call keeps_redis_call; simp)+

interpretation ks: server_relation "keeps pc" pc
  by unfold_locales (rule respects keeps_writes; simp)+

section \<open>Steady runs\<close>

text \<open>Outside the program the clock goes on and entries expire or are evicted; none is written.\<close>

definition undisturbed :: "perm_cache \<Rightarrow> world \<Rightarrow> world \<Rightarrow> bool" where
  "undisturbed pc v w \<longleftrightarrow> calm w \<and> (\<forall>u. cached pc w u \<in> {{}, cached pc v u})"

inductive steady :: "router \<Rightarrow> app \<Rightarrow> world \<Rightarrow> event list \<Rightarrow> world \<Rightarrow> bool" for R A where
  start: "steady R A w [] w"
| later: "steady R A w es v \<Longrightarrow> step R A v e w' \<Longrightarrow> e = Outside \<longrightarrow> undisturbed (ap_perms A) v w' \<Longrightarrow>
    steady R A w (es @ [e]) w'"

lemma steady_runs: "steady R A w es w' \<Longrightarrow> runs R A w es w'"
  by (induction rule: steady.induct) (auto intro: runs.intros)

lemma steady_good:
  assumes "steady R A w es w'" and "wired A" and "good (ap_perms A) w"
  shows "good (ap_perms A) w'"
  using assms(1,3)
proof (induction rule: steady.induct)
  case (later w es v e w')
  from later.hyps(2) show ?case
  proof cases
    case (request rq resp)
    then show ?thesis
      using run_respects [OF ks.respects_serve [OF assms(2) refl] request(2)] later.IH later.prems by (simp add: keeps_def)
  next
    case cleanup
    then show ?thesis
      using run_respects [OF ks.respects_cleanup cleanup(2)] later.IH later.prems by (simp add: keeps_def)
  next
    case outside
    then have "granted w' = granted v" by (simp add: granted_def fun_eq_iff)
    then show ?thesis
      using outside later.hyps(3) later.IH [OF later.prems] coherent_later [of "ap_perms A" v _ w']
      by (auto simp: good_def coherent_all_def undisturbed_def)
  qed
qed

text \<open>
  C3: authorisation along runs. Take a server whose services share one cache, tables that are
  well-formed and a cache that is coherent with them, and let it run for as long as one likes: any
  requests, grants, revocations, deactivations and clean-ups in any order, with statements of the
  database that fail now and then, entries of the cache that expire or are evicted, but Redis
  answering and no statement taking effect in silence. Then whatever is asked next of a route that
  is not public is refused without a trace in the tables but a time of last activity, or was asked
  by an active user in a session that is not revoked, who at this moment holds a permission the
  route asks for.
\<close>

theorem authorised_in_every_run:
  assumes past: "steady R A w es v" and wired: "wired A"
    and calm: "redis_faults w = []" "Lost \<notin> set (db_faults w)" and wf: "db_wf (db w)"
    and coherent: "\<And>u. coherent (ap_perms A) w u"
    and run: "run_state (serve R A rq) v = (resp, w')" and route: "picked R A rq = Some (rt, ps)" "rt_guard rt \<noteq> Public"
  shows "rs_status resp \<in> {401, 403, 500} \<and> touched (db v) (db w') \<or>
    (\<exists>t c. acts_for (ah_auth (ap_auth A)) rq v t c \<and> guard_met (rt_guard rt) v (tc_user_id c))"
proof -
  have "good (ap_perms A) w" using calm wf coherent by (simp add: good_def calm_def coherent_all_def)
  with past wired have "good (ap_perms A) v" by (rule steady_good)
  then have "coherent (ap_perms A) v u" for u by (simp add: good_def coherent_all_def)
  from serve_guarded [OF run route this] show ?thesis by blast
qed

text \<open>
  The sample server: after one request for the roles and the clean-up the same token gets the roles
  again, and so its owner still holds the permission.
\<close>

lemma sample_wired: "wired sample_app"
  by (simp add: wired_def wired_auth_def sample_app_def sample_service_def sample_cache_def sample_limiter_def)

abbreviation tidied :: world where
  "tidied \<equiv> snd (run_state cleanup_sessions served)"

lemma sample_steady:
  "steady sample_router sample_app session_world
     [Request roles_request (fst (run_state (serve sample_router sample_app roles_request) session_world)), Cleanup] tidied"
proof -
  let ?first = "run_state (serve sample_router sample_app roles_request) session_world"
  have "step sample_router sample_app session_world (Request roles_request (fst ?first)) served"
    by (rule step.request) simp
  then have "steady sample_router sample_app session_world [Request roles_request (fst ?first)] served"
    using steady.later [OF steady.start] by fastforce
  moreover have "step sample_router sample_app served Cleanup tidied"
    by (rule step.cleanup) (cases "run_state cleanup_sessions served", simp)
  ultimately show ?thesis using steady.later by fastforce
qed

theorem authorised_in_every_run_witness:
  "rs_status (fst (run_state (serve sample_router sample_app roles_request) tidied)) = 200 \<and> may tidied 1 ''users.read''"
proof -
  let ?run = "run_state (serve sample_router sample_app roles_request) tidied"
  have ok: "rs_status (fst ?run) = 200"
    unfolding serve_def roles_picked roles_request_def
    by (simp add: route_eval auth_eval service_eval user_eval list_roles_handler_def list_roles_def route_of_def
        cleanup_sessions_def stale_def sample_defs)
  have "\<exists>t c. acts_for (ah_auth (ap_auth sample_app)) roles_request tidied t c \<and>
    guard_met (Needs ''users.read'') tidied (tc_user_id c)"
    using authorised_in_every_run [OF sample_steady sample_wired _ _ session_world_wf _ surjective_pairing
        roles_picked [of "''1 1 m 0 900''", folded roles_request_def]] ok
    by (simp add: session_world_def route_of_def)
  with ok show ?thesis by (auto simp: guard_met_def roles_request_def dest: sample_token_owner)
qed

end
