(* ===== verification/Migrations.thy ===== *)
theory Migrations
  imports Coherence Startup_Properties
begin

text \<open>
  The migrations (\<open>backend/migrations/*.up.sql\<close>): each file is a list of SQL statements, a statement
  is a function on the tables, a file is one transaction. The statements that only define tables,
  columns and indexes touch no row: the columns they add may be null, and the constraints are in the
  queries of \<open>Repository\<close> and in \<open>db_wf\<close>. Here: the files keep the tables well-formed, what they make of
  an empty database, and what an upgrade does to the permissions of each user.
\<close>

section \<open>Statements\<close>

text \<open>
  \<open>Insert_Permissions True\<close> is the insert with \<open>ON CONFLICT (code) DO NOTHING\<close>; a row that it skips has
  taken its identity. \<open>Grant_Holders c cs\<close> gives the codes \<open>cs\<close> to every user with the code \<open>c\<close>, and
  \<open>Grant_Complete cs n c\<close> gives \<open>c\<close> to every user with \<open>n\<close> different permissions among \<open>cs\<close>.
\<close>

datatype sql =
    Definitions
  | Insert_Roles "(string \<times> string) list"
  | Insert_Permissions bool "(string \<times> string) list"
  | Delete_Permissions "string list"
  | Delete_Grants "string list"
  | Grant_Holders string "string list"
  | Grant_Complete "string list" nat string

text \<open>
  A role gets the next number of its sequence. Roles come from the migrations only, no statement deletes one,
  and the one that inserts them does not skip rows: the next number is one more than the roles there are.
\<close>

fun insert_roles :: "int \<Rightarrow> (string \<times> string) list \<Rightarrow> database \<Rightarrow> database option" where
  "insert_roles now [] d = Some d"
| "insert_roles now ((name, description) # rows) d =
     (if name \<in> r_name ` set (roles d) then None
      else insert_roles now rows (d\<lparr>roles := roles d @
        [\<lparr>r_id = int (length (roles d)) + 1, r_name = name, r_description = description, r_created_at = now\<rparr>]\<rparr>))"

fun insert_permissions :: "bool \<Rightarrow> int \<Rightarrow> (string \<times> string) list \<Rightarrow> database \<Rightarrow> database option" where
  "insert_permissions skip now [] d = Some d"
| "insert_permissions skip now ((code, description) # rows) d =
     (if code \<in> p_code ` set (permissions d)
      then if skip then insert_permissions skip now rows (d\<lparr>next_permission_id := next_permission_id d + 1\<rparr>) else None
      else insert_permissions skip now rows (append_permission
        \<lparr>p_id = next_permission_id d, p_code = code, p_description = description, p_created_at = now\<rparr> d))"

definition ids_of :: "database \<Rightarrow> string list \<Rightarrow> int list" where
  "ids_of d cs = map p_id (filter (\<lambda>p. p_code p \<in> set cs) (permissions d))"

definition delete_permissions :: "string list \<Rightarrow> database \<Rightarrow> database" where
  "delete_permissions cs d = d\<lparr>permissions := filter (\<lambda>p. p_code p \<notin> set cs) (permissions d),
     user_permissions := filter (\<lambda>g. up_permission_id g \<notin> set (ids_of d cs)) (user_permissions d)\<rparr>"

definition delete_grants :: "string list \<Rightarrow> database \<Rightarrow> database" where
  "delete_grants cs d =
     d\<lparr>user_permissions := filter (\<lambda>g. up_permission_id g \<notin> set (ids_of d cs)) (user_permissions d)\<rparr>"

definition add_grants :: "int list \<Rightarrow> int list \<Rightarrow> database \<Rightarrow> database" where
  "add_grants us ps d = d\<lparr>user_permissions := fold (\<lambda>(u, i). add_grant \<lparr>up_user_id = u, up_permission_id = i\<rparr>)
     (List.product us ps) (user_permissions d)\<rparr>"

definition holders :: "database \<Rightarrow> string \<Rightarrow> int list" where
  "holders d code = map up_user_id (filter (\<lambda>g. up_permission_id g \<in> set (ids_of d [code])) (user_permissions d))"

definition complete :: "database \<Rightarrow> string list \<Rightarrow> nat \<Rightarrow> int list" where
  "complete d cs n = filter (\<lambda>u. length (remdups (filter (\<lambda>i. \<lparr>up_user_id = u, up_permission_id = i\<rparr> \<in> set (user_permissions d))
     (ids_of d cs))) = n) (remdups (map up_user_id (user_permissions d)))"

fun run_sql :: "int \<Rightarrow> sql \<Rightarrow> database \<Rightarrow> database option" where
  "run_sql now Definitions d = Some d"
| "run_sql now (Insert_Roles rows) d = insert_roles now rows d"
| "run_sql now (Insert_Permissions skip rows) d = insert_permissions skip now rows d"
| "run_sql now (Delete_Permissions cs) d = Some (delete_permissions cs d)"
| "run_sql now (Delete_Grants cs) d = Some (delete_grants cs d)"
| "run_sql now (Grant_Holders c cs) d = Some (add_grants (holders d c) (ids_of d cs) d)"
| "run_sql now (Grant_Complete cs n c) d = Some (add_grants (complete d cs n) (ids_of d [c]) d)"

fun run_file :: "int \<Rightarrow> sql list \<Rightarrow> database \<Rightarrow> database option" where
  "run_file now [] d = Some d"
| "run_file now (s # ss) d = (case run_sql now s d of None \<Rightarrow> None | Some e \<Rightarrow> run_file now ss e)"

lemma run_file_append:
  "run_file now (ss @ ts) d = (case run_file now ss d of None \<Rightarrow> None | Some e \<Rightarrow> run_file now ts e)"
  by (induction ss arbitrary: d) (auto split: option.splits)

section \<open>The files\<close>

text \<open>The texts are UTF-8.\<close>

definition a_acute :: string where "a_acute = [CHR 0xC3, CHR 0xA1]"
definition a_tilde :: string where "a_tilde = [CHR 0xC3, CHR 0xA3]"
definition o_acute :: string where "o_acute = [CHR 0xC3, CHR 0xB3]"
definition o_tilde :: string where "o_tilde = [CHR 0xC3, CHR 0xB5]"
definition c_cedil :: string where "c_cedil = [CHR 0xC3, CHR 0xA7]"

definition file_2 :: "sql list" where
  "file_2 =
     [Insert_Roles
        [(''Admin'', ''Administrador do sistema''), (''Supervisor'', ''Supervisor de equipe''),
         (''Operador'', ''Operador padr'' @ a_tilde @ ''o''), (''Financeiro'', ''Equipe financeira''),
         (''Vendedor'', ''Equipe de vendas'')],
      Insert_Permissions False
        [(''users.manage'', ''Gerenciar usu'' @ a_acute @ ''rios''),
         (''permissions.manage'', ''Gerenciar permiss'' @ o_tilde @ ''es''),
         (''audit_logs.read'', ''Visualizar logs de auditoria'')]]"

definition file_3 :: "sql list" where
  "file_3 = [Delete_Permissions
     [''clients.read'', ''clients.write'', ''clients.delete'', ''contracts.read'', ''contracts.write'', ''contracts.cancel'',
      ''financial.read'', ''financial.export'']]"

definition file_6 :: "sql list" where
  "file_6 = [Insert_Permissions True
     [(''*'', ''Acesso total ao sistema''), (''users.*'', ''Wildcard: m'' @ o_acute @ ''dulo de usu'' @ a_acute @ ''rios'')]]"

definition user_codes :: "string list" where
  "user_codes = [''users.read'', ''users.create'', ''users.update'', ''users.password.reset'', ''users.deactivate'']"

definition permission_codes :: "string list" where
  "permission_codes = [''permissions.read'', ''permissions.create'', ''permissions.update'', ''permissions.delete'',
     ''permissions.grant'', ''permissions.revoke'']"

definition file_7 :: "sql list" where
  "file_7 =
     [Insert_Permissions True
        [(''users.read'', ''Listar usu'' @ a_acute @ ''rios''),
         (''users.create'', ''Criar usu'' @ a_acute @ ''rios''),
         (''users.update'', ''Editar nome, email e role de usu'' @ a_acute @ ''rios''),
         (''users.password.reset'', ''Redefinir senha de usu'' @ a_acute @ ''rios''),
         (''users.deactivate'', ''Ativar ou desativar usu'' @ a_acute @ ''rios''),
         (''permissions.read'', ''Listar permiss'' @ o_tilde @ ''es''),
         (''permissions.create'', ''Criar permiss'' @ o_tilde @ ''es no cat'' @ a_acute @ ''logo''),
         (''permissions.update'', ''Editar descri'' @ c_cedil @ a_tilde @ ''o de permiss'' @ o_tilde @ ''es''),
         (''permissions.delete'', ''Remover permiss'' @ o_tilde @ ''es do cat'' @ a_acute @ ''logo''),
         (''permissions.grant'', ''Conceder permiss'' @ o_tilde @ ''es a usu'' @ a_acute @ ''rios''),
         (''permissions.revoke'', ''Revogar permiss'' @ o_tilde @ ''es de usu'' @ a_acute @ ''rios'')],
      Grant_Holders ''users.manage'' user_codes,
      Grant_Holders ''permissions.manage'' permission_codes]"

definition legacy_codes :: "string list" where
  "legacy_codes = [''users.manage'', ''permissions.manage'']"

definition file_8 :: "sql list" where
  "file_8 = [Delete_Grants legacy_codes, Delete_Permissions legacy_codes]"

definition file_9 :: "sql list" where
  "file_9 = [Grant_Complete (user_codes @ permission_codes) 11 ''*'']"

definition migration_files :: "sql list list" where
  "migration_files = [[Definitions], file_2, file_3, [Definitions], [Definitions], file_6, file_7, file_8, file_9]"

text \<open>
  The migration library runs, in their order, the files above the version the database is at; \<open>None\<close>
  stands for an error.
\<close>

fun run_files :: "int \<Rightarrow> sql list list \<Rightarrow> database \<Rightarrow> database option" where
  "run_files now [] d = Some d"
| "run_files now (f # fs) d = (case run_file now f d of None \<Rightarrow> None | Some e \<Rightarrow> run_files now fs e)"

definition migrate :: "int \<Rightarrow> nat \<Rightarrow> database \<Rightarrow> database option" where
  "migrate now version d = run_files now (drop version migration_files) d"

section \<open>What a statement does\<close>

text \<open>The rest of the tables is as before.\<close>

definition rest_kept :: "database \<Rightarrow> database \<Rightarrow> bool" where
  "rest_kept d e \<longleftrightarrow> users e = users d \<and> sessions e = sessions d \<and> audit_logs e = audit_logs d \<and>
     next_user_id e = next_user_id d \<and> next_session_id e = next_session_id d \<and> next_audit_id e = next_audit_id d"

abbreviation held :: "database \<Rightarrow> int \<Rightarrow> string set" where
  "held d u \<equiv> set (codes_of d u)"

abbreviation known :: "database \<Rightarrow> string set" where
  "known d \<equiv> p_code ` set (permissions d)"

lemma rest_kept_trans: "rest_kept c d \<Longrightarrow> rest_kept d e \<Longrightarrow> rest_kept c e"
  by (simp add: rest_kept_def)

lemma insert_permissions_run:
  assumes "insert_permissions skip now rows d = Some e" and "db_wf d"
  shows "db_wf e \<and> rest_kept d e \<and> roles e = roles d \<and> user_permissions e = user_permissions d \<and>
    held e u = held d u \<and> known e = known d \<union> fst ` set rows"
  using assms
proof (induction skip now rows d rule: insert_permissions.induct)
  case (2 skip now code description rows d)
  show ?case
  proof (cases "code \<in> known d")
    case True
    let ?d = "d\<lparr>next_permission_id := next_permission_id d + 1\<rparr>"
    have "db_wf ?d" using 2(4) by (auto simp: wf_defs ids_ok_def)
    moreover have "held ?d u = held d u" by (simp add: codes_set)
    ultimately show ?thesis using 2(1) [OF True] 2(3) True by (auto simp: rest_kept_def split: if_splits)
  next
    case False
    define p where "p = \<lparr>p_id = 0, p_code = code, p_description = description, p_created_at = 0\<rparr>"
    define d1 where "d1 = snd (q_permission_create p now d)"
    have d1: "d1 = append_permission (p\<lparr>p_id := next_permission_id d, p_created_at := now\<rparr>) d"
      using False by (simp add: d1_def p_def q_permission_create_def append_permission_def Let_def)
    have "db_wf d1" "held d1 u = held d u"
      unfolding d1_def using 2(4) by (simp_all add: wf_queries codes_kept_permissions)
    moreover have "insert_permissions skip now rows d1 = Some e" using 2(3) False by (simp add: d1 p_def)
    ultimately show ?thesis using 2(2) [OF False, folded d1_def] False
      by (auto simp: d1 p_def append_permission_def rest_kept_def)
  qed
qed (auto simp: rest_kept_def)

lemma insert_roles_run:
  assumes "insert_roles now rows d = Some e" and "db_wf d"
  shows "db_wf e \<and> rest_kept d e \<and> permissions e = permissions d \<and> user_permissions e = user_permissions d"
  using assms
proof (induction now rows d rule: insert_roles.induct)
  case (2 now name description rows d)
  define d1 where "d1 = d\<lparr>roles := roles d @
    [\<lparr>r_id = int (length (roles d)) + 1, r_name = name, r_description = description, r_created_at = now\<rparr>]\<rparr>"
  have "role_exists d r \<Longrightarrow> role_exists d1 r" for r by (auto simp: role_exists_def d1_def split: option.splits)
  then have "db_wf d1" using 2(3) by (auto simp: wf_defs ids_ok_def d1_def)
  moreover have "name \<notin> r_name ` set (roles d)" "insert_roles now rows d1 = Some e"
    using 2(2) by (auto simp: d1_def split: if_splits)
  ultimately show ?case using 2(1) by (simp add: d1_def rest_kept_def)
qed (simp add: rest_kept_def)

lemma ids_of_iff:
  assumes "db_wf d" and "p \<in> set (permissions d)"
  shows "p_id p \<in> set (ids_of d cs) \<longleftrightarrow> p_code p \<in> set cs"
  using assms by (auto simp: ids_of_def wf_defs ids_ok_def distinct_map dest: inj_onD)

lemma delete_run:
  assumes "db_wf d"
  shows "db_wf (delete_permissions cs d)" "db_wf (delete_grants cs d)"
    "held (delete_permissions cs d) u = held d u - set cs" "held (delete_grants cs d) u = held d u - set cs"
proof -
  note ids = ids_of_iff [OF assms, of _ cs]
  show "held (delete_permissions cs d) u = held d u - set cs" "held (delete_grants cs d) u = held d u - set cs"
    by (auto simp: codes_set delete_permissions_def delete_grants_def ids)
  show "db_wf (delete_grants cs d)"
    using assms by (auto simp: wf_defs ids_ok_def delete_grants_def)
  have "i \<in> p_id ` set (filter (\<lambda>p. p_code p \<notin> set cs) (permissions d))"
    if "i \<in> p_id ` set (permissions d)" "i \<notin> set (ids_of d cs)" for i
    using that ids by auto
  then show "db_wf (delete_permissions cs d)"
    using assms by (auto simp: wf_defs ids_ok_def delete_permissions_def distinct_map_filter)
qed

lemma add_grants_run:
  assumes "db_wf d" and "set us \<subseteq> user_ids d"
  shows "db_wf (add_grants us (ids_of d cs) d)"
    and "held (add_grants us (ids_of d cs) d) u = held d u \<union> (if u \<in> set us then set cs \<inter> known d else {})"
proof -
  let ?row = "\<lambda>(u, i). \<lparr>up_user_id = u, up_permission_id = i\<rparr>"
  have add: "(\<lambda>(u, i). add_grant \<lparr>up_user_id = u, up_permission_id = i\<rparr>) = (\<lambda>x. add_grant (?row x))"
    by (auto simp: fun_eq_iff)
  define gs where "gs = user_permissions (add_grants us (ids_of d cs) d)"
  have gs: "distinct gs = distinct (user_permissions d)"
    "set gs = set (user_permissions d) \<union> ?row ` (set us \<times> set (ids_of d cs))"
    unfolding gs_def add_grants_def add by (simp_all add: fold_add_grant)
  have d: "add_grants us (ids_of d cs) d = d\<lparr>user_permissions := gs\<rparr>" by (simp add: gs_def add_grants_def)
  have ids: "set (ids_of d cs) \<subseteq> permission_ids d" by (auto simp: ids_of_def permission_ids_def)
  have "grants_ok (d\<lparr>user_permissions := gs\<rparr>)"
    using assms ids gs by (fastforce simp: wf_defs)
  then show "db_wf (add_grants us (ids_of d cs) d)"
    using assms(1) unfolding d by (simp add: wf_defs ids_ok_def)
  have row: "\<lparr>up_user_id = u, up_permission_id = i\<rparr> \<in> set gs \<longleftrightarrow>
      \<lparr>up_user_id = u, up_permission_id = i\<rparr> \<in> set (user_permissions d) \<or> u \<in> set us \<and> i \<in> set (ids_of d cs)" for i
    by (auto simp: gs(2))
  show "held (add_grants us (ids_of d cs) d) u = held d u \<union> (if u \<in> set us then set cs \<inter> known d else {})"
    unfolding d codes_set using ids_of_iff [OF assms(1), of _ cs] by (auto simp: row)
qed

lemma grant_row:
  "\<lparr>up_user_id = u, up_permission_id = i\<rparr> \<in> G \<longleftrightarrow> (\<exists>g\<in>G. up_user_id g = u \<and> up_permission_id g = i)"
  by (auto intro: rev_bexI) (metis (full_types) user_permission.surjective old.unit.exhaust)

lemma holders_iff:
  assumes "db_wf d"
  shows "u \<in> set (holders d c) \<longleftrightarrow> c \<in> held d u" and "set (holders d c) \<subseteq> user_ids d"
proof -
  show "set (holders d c) \<subseteq> user_ids d" using assms by (auto simp: holders_def wf_defs)
  show "u \<in> set (holders d c) \<longleftrightarrow> c \<in> held d u"
    by (force simp: holders_def codes_set ids_of_def grant_row)
qed

lemma complete_iff:
  assumes wf: "db_wf d" and cs: "distinct cs" "cs \<noteq> []"
  shows "u \<in> set (complete d cs (length cs)) \<longleftrightarrow> set cs \<subseteq> held d u"
proof -
  let ?row = "\<lambda>i. \<lparr>up_user_id = u, up_permission_id = i\<rparr> \<in> set (user_permissions d)"
  let ?ps = "{p. p \<in> set (permissions d) \<and> p_code p \<in> set cs \<and> ?row (p_id p)}"
  have inj: "inj_on p_id ?ps" "inj_on p_code ?ps"
    using wf by (auto simp: wf_defs ids_ok_def distinct_map intro: inj_on_subset)
  have "set (filter ?row (ids_of d cs)) = p_id ` ?ps" by (auto simp: ids_of_def)
  moreover have "held d u \<inter> set cs = p_code ` ?ps" by (auto simp: codes_set)
  ultimately have "card (set (filter ?row (ids_of d cs))) = card (held d u \<inter> set cs)"
    using inj by (simp only: card_image)
  then have n: "length (remdups (filter ?row (ids_of d cs))) = card (held d u \<inter> set cs)"
    by (simp only: length_remdups_card_conv)
  have all: "card (held d u \<inter> set cs) = length cs \<longleftrightarrow> set cs \<subseteq> held d u"
    using cs(1) card_subset_eq [of "set cs" "held d u \<inter> set cs"] by (auto simp: distinct_card [symmetric] inf.absorb2)
  have "u \<in> up_user_id ` set (user_permissions d)" if "set cs \<subseteq> held d u"
    using that cs(2) by (cases cs) (auto simp: codes_set grant_row image_iff)
  then show ?thesis unfolding complete_def by (simp only: set_filter set_remdups set_map mem_Collect_eq n all) blast
qed

lemma complete_users: "db_wf d \<Longrightarrow> set (complete d cs n) \<subseteq> user_ids d"
  by (auto simp: complete_def wf_defs)

section \<open>What the files do\<close>

lemma rest_kept_simps [simp]:
  "rest_kept d (delete_permissions cs d)" "rest_kept d (delete_grants cs d)" "rest_kept d (add_grants us ps d)" "rest_kept d d"
  by (simp_all add: rest_kept_def delete_permissions_def delete_grants_def add_grants_def)

lemma run_sql_run: "run_sql now s d = Some e \<Longrightarrow> db_wf d \<Longrightarrow> db_wf e \<and> rest_kept d e"
  by (cases s) (auto simp: delete_run add_grants_run holders_iff complete_users dest: insert_roles_run insert_permissions_run)

lemma run_file_run: "run_file now ss d = Some e \<Longrightarrow> db_wf d \<Longrightarrow> db_wf e \<and> rest_kept d e"
proof (induction ss arbitrary: d)
  case (Cons s ss)
  then obtain c where "run_sql now s d = Some c" "run_file now ss c = Some e" by (auto split: option.splits)
  with Cons.IH Cons.prems(2) run_sql_run show ?case by (blast intro: rest_kept_trans)
qed simp

lemma run_files_run: "run_files now fs d = Some e \<Longrightarrow> db_wf d \<Longrightarrow> db_wf e \<and> rest_kept d e"
proof (induction fs arbitrary: d)
  case (Cons f fs)
  then obtain c where "run_file now f d = Some c" "run_files now fs c = Some e" by (auto split: option.splits)
  with Cons.IH Cons.prems(2) run_file_run show ?case by (blast intro: rest_kept_trans)
qed simp

lemma migrate_run: "migrate now version d = Some e \<Longrightarrow> db_wf d \<Longrightarrow> db_wf e \<and> rest_kept d e"
  unfolding migrate_def by (rule run_files_run)

lemma known_kept [simp]: "known (delete_grants cs d) = known d" "known (add_grants us ps d) = known d"
  by (simp_all add: delete_grants_def add_grants_def)

lemma known_deleted [simp]: "known (delete_permissions cs d) = known d - set cs"
  by (auto simp: delete_permissions_def)

lemma insert_skips: "\<exists>e. insert_permissions True now rows d = Some e"
  by (induction "True" now rows d rule: insert_permissions.induct) auto

text \<open>What the last three files make of the codes of a user; \<open>star\<close>: the catalogue has the wildcard.\<close>

definition upgraded :: "bool \<Rightarrow> string set \<Rightarrow> string set" where
  "upgraded star H =
     (let G = H - set legacy_codes \<union> (if ''users.manage'' \<in> H then set user_codes else {})
                \<union> (if ''permissions.manage'' \<in> H then set permission_codes else {})
      in if star \<and> set (user_codes @ permission_codes) \<subseteq> G then insert ''*'' G else G)"

lemma upgrade_run:
  assumes wf: "db_wf d"
  shows "\<exists>e. migrate now 6 d = Some e \<and> db_wf e \<and> rest_kept d e \<and>
    (\<forall>u. held e u = upgraded (''*'' \<in> known d) (held d u))"
proof -
  obtain rows where rows: "file_7 = [Insert_Permissions True rows, Grant_Holders ''users.manage'' user_codes,
      Grant_Holders ''permissions.manage'' permission_codes]" "fst ` set rows = set (user_codes @ permission_codes)"
    by (auto simp: file_7_def user_codes_def permission_codes_def)
  obtain d1 where d1: "insert_permissions True now rows d = Some d1" using insert_skips by blast
  define d2 where "d2 = add_grants (holders d1 ''users.manage'') (ids_of d1 user_codes) d1"
  define d3 where "d3 = add_grants (holders d2 ''permissions.manage'') (ids_of d2 permission_codes) d2"
  define d4 where "d4 = delete_permissions legacy_codes (delete_grants legacy_codes d3)"
  define e where "e = add_grants (complete d4 (user_codes @ permission_codes) 11) (ids_of d4 [''*'']) d4"
  have e: "migrate now 6 d = Some e"
    by (simp add: migrate_def migration_files_def rows(1) d1 file_8_def file_9_def d2_def d3_def d4_def e_def)
  note w1 = insert_permissions_run [OF d1 wf, unfolded rows(2)]
  have wf1: "db_wf d1" and h1: "held d1 u = held d u" and k1: "known d1 = known d \<union> set (user_codes @ permission_codes)" for u
    using w1 by blast+
  have wf2: "db_wf d2" and h2: "held d2 u = held d1 u \<union> (if ''users.manage'' \<in> held d1 u then set user_codes else {})"
    and k2: "known d2 = known d1" for u
    using add_grants_run [OF wf1 holders_iff(2) [OF wf1], of "''users.manage''" user_codes] k1
    by (auto simp: d2_def holders_iff(1) [OF wf1])
  have wf3: "db_wf d3" and h3: "held d3 u = held d2 u \<union> (if ''permissions.manage'' \<in> held d2 u then set permission_codes else {})"
    and k3: "known d3 = known d1" for u
    using add_grants_run [OF wf2 holders_iff(2) [OF wf2], of "''permissions.manage''" permission_codes] k1 k2
    by (auto simp: d3_def holders_iff(1) [OF wf2])
  have wf4: "db_wf d4" and h4: "held d4 u = held d3 u - set legacy_codes" and k4: "known d4 = known d1 - set legacy_codes" for u
    using delete_run [OF wf3] delete_run [OF delete_run(2) [OF wf3]] k3 by (auto simp: d4_def)
  define all where "all = user_codes @ permission_codes"
  have all: "distinct all" "all \<noteq> []" "length all = 11" "''*'' \<notin> set all" "set all \<inter> set legacy_codes = {}"
    "''permissions.manage'' \<notin> set user_codes" "''*'' \<notin> set legacy_codes"
    by (simp_all add: all_def user_codes_def permission_codes_def legacy_codes_def)
  have g: "held d4 u = held d u - set legacy_codes \<union> (if ''users.manage'' \<in> held d u then set user_codes else {})
      \<union> (if ''permissions.manage'' \<in> held d u then set permission_codes else {})" for u
    using all(5,6) by (auto simp: h1 h2 h3 h4 all_def)
  have star: "''*'' \<in> known d4 \<longleftrightarrow> ''*'' \<in> known d" using k1 k4 all(4,7) by (auto simp: all_def)
  have "db_wf e" and he: "held e u = held d4 u \<union> (if set all \<subseteq> held d4 u then {''*''} \<inter> known d4 else {})" for u
    using add_grants_run [OF wf4 complete_users [OF wf4], of all 11 "[''*'']"] complete_iff [OF wf4 all(1,2), unfolded all(3)]
    by (auto simp: e_def all_def)
  moreover have "held e u = upgraded (''*'' \<in> known d) (held d u)" for u
    unfolding upgraded_def Let_def g [symmetric] all_def [symmetric] he star [symmetric] by auto
  moreover have "rest_kept d e" using migrate_run [OF e wf] by blast
  ultimately show ?thesis using e by blast
qed

section \<open>The properties\<close>

text \<open>
  C31: the migrations. On an empty database the files make the five roles and the catalogue of
  fourteen codes, and nobody. From version 6, whatever the tables hold, the upgrade succeeds, keeps the tables
  well-formed and every user, session and entry of the trail, and changes the codes of each user in exactly
  this way: the two old codes go, a holder of one gets the new codes of its module, and who has
  all eleven of them in the end gets the wildcard, if the catalogue has it.
\<close>

theorem migrations_spec:
  assumes "db_wf d"
  shows "(\<exists>e. migrate now 0 empty_db = Some e \<and>
      map (\<lambda>r. (r_id r, r_name r)) (roles e) =
        [(1, ''Admin''), (2, ''Supervisor''), (3, ''Operador''), (4, ''Financeiro''), (5, ''Vendedor'')] \<and>
      map (\<lambda>p. (p_id p, p_code p)) (permissions e) = catalogue \<and> users e = [] \<and> user_permissions e = []) \<and>
    (\<exists>e. migrate now 6 d = Some e \<and> db_wf e \<and> rest_kept d e \<and>
      (\<forall>u. set (codes_of e u) = upgraded (''*'' \<in> p_code ` set (permissions d)) (set (codes_of d u))))"
proof
  show "\<exists>e. migrate now 0 empty_db = Some e \<and>
      map (\<lambda>r. (r_id r, r_name r)) (roles e) =
        [(1, ''Admin''), (2, ''Supervisor''), (3, ''Operador''), (4, ''Financeiro''), (5, ''Vendedor'')] \<and>
      map (\<lambda>p. (p_id p, p_code p)) (permissions e) = catalogue \<and> users e = [] \<and> user_permissions e = []"
    by (simp add: migrate_def migration_files_def file_2_def file_3_def file_6_def file_7_def file_8_def file_9_def empty_db_def
        append_permission_def delete_permissions_def delete_grants_def ids_of_def add_grants_def holders_def complete_def
        user_codes_def permission_codes_def legacy_codes_def catalogue_def)
qed (rule upgrade_run [OF assms])

text \<open>Version 6 with one user who manages users and permissions, and one who manages users.\<close>

definition manager_db :: database where
  "manager_db = sample_db\<lparr>
     permissions := map (\<lambda>(i, c). \<lparr>p_id = i, p_code = c, p_description = [], p_created_at = 0\<rparr>)
       [(1, ''users.manage''), (2, ''permissions.manage''), (3, ''audit_logs.read''), (4, ''*''), (5, ''users.*'')],
     next_permission_id := 6,
     user_permissions := [\<lparr>up_user_id = 1, up_permission_id = 1\<rparr>, \<lparr>up_user_id = 1, up_permission_id = 2\<rparr>,
       \<lparr>up_user_id = 2, up_permission_id = 1\<rparr>]\<rparr>"

theorem migrations_spec_witness:
  "''*'' \<in> set (codes_of (the (migrate 0 6 manager_db)) 1) \<and>
   set (codes_of (the (migrate 0 6 manager_db)) 2) = set user_codes"
proof -
  have wf: "db_wf manager_db" by (simp add: manager_db_def wf_defs ids_ok_def role_exists_def sample_defs)
  have held: "set (codes_of manager_db 1) = {''users.manage'', ''permissions.manage''}"
    "set (codes_of manager_db 2) = {''users.manage''}" "''*'' \<in> p_code ` set (permissions manager_db)"
    by (auto simp: manager_db_def codes_of_def permissions_of_def)
  obtain e where e: "migrate 0 6 manager_db = Some e" "\<And>u. set (codes_of e u) = upgraded True (set (codes_of manager_db u))"
    using migrations_spec [OF wf, of 0] held(3) by auto
  show ?thesis
    unfolding e(1) option.sel e(2) held(1,2)
    by (simp add: upgraded_def Let_def legacy_codes_def user_codes_def permission_codes_def)
qed

end
