(* ===== verification/Boot.thy ===== *)
theory Boot
  imports Coherence Startup_Properties Migrations
begin

text \<open>
  From \<open>main\<close> to the first request (\<open>cmd/api/main.go\<close>, \<open>internal/app/app.go\<close>: \<open>New\<close>, \<open>SeedAdmin\<close>):
  a server that has started is one from which every steady run of \<open>Coherence\<close> may begin.
\<close>

section \<open>The wiring\<close>

lemma wire_wired: "wired (wire SL cfg dummy keys geo)"
  "pc_prefix (ap_perms (wire SL cfg dummy keys geo)) = cf_redis_key_prefix cfg"
  by (simp_all add: wire_def Let_def wired_def wired_auth_def new_auth_service_def new_permission_cache_def
      new_tiered_rate_limiter_def new_last_login_store_def)

section \<open>Up to the flush\<close>

lemma flush_from_calmer: "state_io_rel calmer (flush_from sc pattern c fuel)"
proof (induction fuel arbitrary: c)
  case (Suc fuel)
  show ?case unfolding flush_from.simps flush_page_def rdb_scan_def rdb_del_def
    by (intro calmer.step_rules respects Suc.IH)
qed (simp add: calmer.step_rules)

text \<open>What holds when the migrations are done, and still holds when the server is about to flush.\<close>

definition ready :: "string set \<Rightarrow> world \<Rightarrow> bool" where
  "ready K v \<longleftrightarrow> calm v \<and> db_wf (db v) \<and> dom (redis v) \<subseteq> K"

definition migrations_documented :: "startup_lib \<Rightarrow> string set \<Rightarrow> world \<Rightarrow> bool" where
  "migrations_documented SL K w \<longleftrightarrow> (\<forall>dir dsn up v. run_state (sl_migrate_up SL dir dsn) w = (up, v) \<longrightarrow>
     up \<noteq> Migration_Failed \<longrightarrow> ready K v)"

text \<open>
  That is what the files of \<open>Migrations\<close> do, when the library runs those above the version of the
  database and touches nothing else.
\<close>

lemma migrations_from_files:
  assumes files: "\<And>dir dsn up v. run_state (sl_migrate_up SL dir dsn) w = (up, v) \<Longrightarrow> up \<noteq> Migration_Failed \<Longrightarrow>
      \<exists>now. migrate now version (db w) = Some (db v) \<and> redis v = redis w \<and> redis_faults v = redis_faults w \<and>
        db_faults v = db_faults w"
    and "ready K w"
  shows "migrations_documented SL K w"
  unfolding migrations_documented_def
proof (intro allI impI)
  fix dir dsn up v assume "run_state (sl_migrate_up SL dir dsn) w = (up, v)" "up \<noteq> Migration_Failed"
  from files [OF this] show "ready K v" using assms(2) migrate_run [of _ version "db w" "db v"]
    by (auto simp: ready_def calm_def)
qed

definition readier :: "string set \<Rightarrow> world \<Rightarrow> world \<Rightarrow> bool" where
  "readier K v w \<longleftrightarrow> (ready K v \<longrightarrow> ready K w)"

interpretation readier: step_relation "readier K" for K
  by unfold_locales (auto simp: readier_def)

lemma ready_quiet: "quiet v w \<Longrightarrow> calmer v w \<Longrightarrow> readier K v w"
  by (simp add: quiet_def calmer_def ready_def readier_def)

lemma ready_pings: "state_io_rel (readier K) connect" "state_io_rel (readier K) redis_ping"
proof -
  have pings: "state_io_rel quiet db_ping" "state_io_rel calmer db_ping" "state_io_rel quiet redis_ping" "state_io_rel calmer redis_ping"
    unfolding db_ping_def redis_ping_def by (rule calmer_prims | rule quiet_read quiet_redis_read, simp)+
  have "state_io_rel (readier K) db_ping" and redis: "state_io_rel (readier K) redis_ping"
    using pings by (auto simp: state_io_rel_def intro: ready_quiet)
  then show "state_io_rel (readier K) connect" unfolding connect_def by (intro readier.step_rules)
  from redis show "state_io_rel (readier K) redis_ping" .
qed

lemma flush_ready:
  assumes run: "run_state (flush_all sc fuel pc) v = (out, w)" and ready: "ready K v"
    and doc: "scan_documented sc (client_key (pc_prefix pc) ''permissions:user:*'') K M rank todo" "rank 0 < fuel"
  shows "out \<noteq> None \<and> calm w \<and> db_wf (db w) \<and> gone M w"
proof -
  from ready have r: "dom (redis v) \<subseteq> K" "redis_faults v = []" "calm v" "db_wf (db v)" by (simp_all add: ready_def calm_def)
  have "calmer v w" using run_respects [OF flush_from_calmer run [unfolded flush_all_def]] .
  with flush_all_run [OF run doc(1) r(1) doc(2)] r(2-4) show ?thesis by (simp add: calmer_def thinned_def)
qed

text \<open>\<open>New\<close>: with the migrations and \<open>SCAN\<close> as documented.\<close>

lemma new_app_run:
  assumes run: "run_state (new_app SL fuel cfg dummy) w = (r, w')"
    and migrate: "migrations_documented SL K w"
    and doc: "scan_documented (sl_scan SL) (client_key (cf_redis_key_prefix cfg) ''permissions:user:*'') K M rank todo"
    and fuel: "rank 0 < fuel"
  shows "r \<noteq> Inr None" and "r = Inr (Some A) \<Longrightarrow>
    wired A \<and> pc_prefix (ap_perms A) = cf_redis_key_prefix cfg \<and> calm w' \<and> db_wf (db w') \<and> gone M w'"
proof -
  have "r \<noteq> Inr None \<and> (r = Inr (Some A) \<longrightarrow>
    wired A \<and> pc_prefix (ap_perms A) = cf_redis_key_prefix cfg \<and> calm w' \<and> db_wf (db w') \<and> gone M w')"
    using run [unfolded new_app_def]
  proof (cases rule: try_bindE)
    case (go a v1)
    have "ready K v1" using go(1) migrate
      by (auto simp: run_migrations_def migrations_documented_def split: sum.splits prod.splits if_splits)
    from go(2) show ?thesis
    proof (cases rule: try_bindE)
      case (go b v2)
      have "ready K v2" using run_respects [OF ready_pings(1) go(1)] \<open>ready K v1\<close> by (simp add: readier_def)
      show ?thesis
      proof (cases "new_client SL (cf_redis_url cfg)")
        case (Inr c)
        with go(2) have "run_state (try_bind redis_ping (\<lambda>_. case (case cf_jwt_key_pair cfg of
             Some ks \<Rightarrow> Inr ks
           | None \<Rightarrow> load_jwt_keys (sl_keys SL) (cf_jwt_private_key_path cfg) (cf_jwt_public_key_path cfg)) of
             Inl e \<Rightarrow> State_Monad.return (Inl e) | Inr keys \<Rightarrow>
           (case resolve_geo_ip SL cfg of Inl e \<Rightarrow> State_Monad.return (Inl e) | Inr geo \<Rightarrow>
            (let A = wire SL cfg dummy keys geo in do {
              flushed \<leftarrow> flush_all (sl_scan SL) fuel (ap_perms A);
              State_Monad.return (Inr (case flushed of None \<Rightarrow> None | Some _ \<Rightarrow> Some A))
            })))) v2 = (r, w')" by simp
        then show ?thesis
        proof (cases rule: try_bindE)
          case (go d v3)
          have v3: "ready K v3" using run_respects [OF ready_pings(2) go(1)] \<open>ready K v2\<close> by (simp add: readier_def)
          have flushed: "out \<noteq> None \<and> calm u \<and> db_wf (db u) \<and> gone M u"
            if "run_state (flush_all (sl_scan SL) fuel (ap_perms (wire SL cfg dummy keys geo))) v3 = (out, u)"
            for keys geo out u
            by (rule flush_ready [where rank = rank and todo = todo, OF that v3 _ fuel]) (simp add: wire_wired doc)
          from go(2) show ?thesis
            by (auto simp: Let_def wire_wired split: sum.splits prod.splits option.splits dest!: flushed)
        qed auto
      qed (use go(2) in auto)
    qed auto
  qed auto
  then show "r \<noteq> Inr None" "r = Inr (Some A) \<Longrightarrow>
    wired A \<and> pc_prefix (ap_perms A) = cf_redis_key_prefix cfg \<and> calm w' \<and> db_wf (db w') \<and> gone M w'" by blast+
qed

section \<open>The first administrator\<close>

text \<open>\<open>SeedAdmin\<close> leaves Redis alone, and a start that goes on has a user.\<close>

lemma calmer_seed: "state_io_rel calmer (seed_admin k p cfg)"
  unfolding seed_admin_def repository_defs hash_password_def by (intro calmer.step_rules respects)

lemma redis_kept_seed: "state_io_rel redis_kept (seed_admin k p cfg)"
  unfolding seed_admin_def hash_password_def by (intro rk.step_rules respects)

lemma gone_redis_kept: "gone M v \<Longrightarrow> redis_kept v w \<Longrightarrow> gone M w"
  by (auto simp: gone_def redis_kept_def intro: rs.look_absent_later)

lemma start_ready:
  assumes run: "run_state (start_program parse_duration E SL fuel dummy) w = (r, w')"
    and migrate: "migrations_documented SL K w"
    and doc: "scan_documented (sl_scan SL) (client_key (env E ''REDIS_KEY_PREFIX'' ''auth:'') ''permissions:user:*'') K M rank todo"
    and keys: "\<And>pc. pc_prefix pc = env E ''REDIS_KEY_PREFIX'' ''auth:'' \<Longrightarrow> range (cache_key pc) \<subseteq> M"
    and fuel: "rank 0 < fuel"
  shows "r \<noteq> Inr None \<and> (r = Inr (Some (A, port)) \<longrightarrow>
    port = env E ''PORT'' ''8080'' \<and> wired A \<and> redis_faults w' = [] \<and> Lost \<notin> set (db_faults w') \<and> db_wf (db w') \<and> (\<forall>u. coherent (ap_perms A) w' u))"
proof (cases "main_config parse_duration E")
  case (Some cfg)
  then have cfg: "cf_redis_key_prefix cfg = env E ''REDIS_KEY_PREFIX'' ''auth:''"
    by (auto simp: main_config_def split: option.splits)
  note new = new_app_run [where rank = rank and todo = todo, OF _ migrate doc [folded cfg] fuel]
  from run Some have "run_state (try_bind (new_app SL fuel cfg dummy) (\<lambda>started. case started of
         None \<Rightarrow> State_Monad.return (Inr None)
       | Some A \<Rightarrow> try_bind (seed_admin (sl_kdf SL) (us_params (ap_users A)) cfg) (\<lambda>_.
           State_Monad.return (Inr (Some (A, env E ''PORT'' ''8080'')))))) w = (r, w')"
    by (simp add: start_program_def)
  then show ?thesis
  proof (cases rule: try_bindE)
    case (go started v)
    have "started \<noteq> None" using new(1) [OF go(1)] by simp
    then obtain B where B: "started = Some B" by blast
    have v: "wired B" "pc_prefix (ap_perms B) = env E ''REDIS_KEY_PREFIX'' ''auth:''" "calm v" "db_wf (db v)" "gone M v"
      using new(2) [OF go(1), of B] cfg B by simp_all
    obtain q v' where seed: "run_state (seed_admin (sl_kdf SL) (us_params (ap_users B)) cfg) v = (q, v')"
      by (cases "run_state (seed_admin (sl_kdf SL) (us_params (ap_users B)) cfg) v")
    have "calm v'" "db_wf (db v')" "gone M v'"
      using run_respects [OF calmer_seed seed] run_respects [OF evolves_startup(3) seed] v(3-5)
        gone_redis_kept [OF v(5) run_respects [OF redis_kept_seed seed]]
      by (simp_all add: calmer_def on_db_def evolves_def)
    with go(2) seed v(1) gone_coherent [OF _ keys [OF v(2)]] show ?thesis
      by (auto simp: B calm_def split: sum.splits)
  qed auto
qed (use run in \<open>auto simp: start_program_def\<close>)

text \<open>
  C21: the start. If the migrations leave well-formed tables and no key in Redis but those of \<open>K\<close>,
  and \<open>SCAN\<close> is as documented, then \<open>main\<close> comes to an end of its start (the loop of the
  flush is no obstacle); and when it is about to listen, all services share one cache of
  permissions under one prefix, the tables are well-formed and the cache is coherent with them for every user:
  the state from which every request is authorised.
\<close>

theorem start_makes_coherent:
  assumes run: "run_state (start_program parse_duration E SL fuel dummy) w = (r, w')"
    and migrate: "migrations_documented SL K w"
    and doc: "scan_documented (sl_scan SL) (client_key (env E ''REDIS_KEY_PREFIX'' ''auth:'') ''permissions:user:*'') K M rank todo"
    and keys: "\<And>pc. pc_prefix pc = env E ''REDIS_KEY_PREFIX'' ''auth:'' \<Longrightarrow> range (cache_key pc) \<subseteq> M"
    and fuel: "rank 0 < fuel"
  shows "r \<noteq> Inr None \<and> (r = Inr (Some (A, port)) \<longrightarrow>
    port = env E ''PORT'' ''8080'' \<and> wired A \<and> redis_faults w' = [] \<and> Lost \<notin> set (db_faults w') \<and> db_wf (db w') \<and> (\<forall>u. coherent (ap_perms A) w' u))"
  using start_ready [OF run migrate doc keys fuel] .

text \<open>
  A first start of the sample server, on a Redis that still has an entry for the user 1 from a
  database before: the first administrator gets this identity, and no trace of the entry.
\<close>

definition sample_env :: environment where
  "sample_env k = (if k = ''DATABASE_URL'' then ''postgres'' else if k = ''ADMIN_PASSWORD'' then ''Adm1n'' else [])"

definition sample_startup :: startup_lib where
  "sample_startup = \<lparr>sl_migrate_new = (\<lambda>_ _. Inr ()), sl_migrate_up = (\<lambda>_ _. State_Monad.return Migrated),
     sl_redis_parse_url = (\<lambda>_. Inr ()),
     sl_keys = \<lparr>kl_read_file = Inr, kl_pem_decode = (\<lambda>f. Some (''RSA PRIVATE KEY'', f)), kl_parse_pkcs1 = Inr,
       kl_parse_pkcs8 = (\<lambda>b. Inr (RSA b)), kl_parse_pkix = (\<lambda>b. Inr (RSA b)),
       kl_generate = (\<lambda>bits. Inr ''k''), kl_public = id\<rparr>,
     sl_open_maxmind = (\<lambda>_. Inr ()), sl_jwt = (\<lambda>_. sample_jwt), sl_scan = two_pages, sl_ttl_reply = id,
     sl_geo = sample_geo_lib, sl_kdf = sample_kdf, sl_sha256 = id, sl_policy = sample_policy, sl_fiber = sample_fiber,
     sl_collate = id\<rparr>"

definition stale_start :: world where
  "stale_start = fresh_world\<lparr>redis := redis cached_world, entropy := [replicate 16 (CHR ''s'')]\<rparr>"

abbreviation sample_start :: "(err + (app \<times> string) option) \<times> world" where
  "sample_start \<equiv> run_state (start_program (\<lambda>_. None) sample_env sample_startup 2 []) stale_start"

lemmas start_eval = run_migrations_def connect_def db_ping_def redis_ping_def new_client_def load_jwt_keys_def load_private_key_def
  load_public_key_def resolve_geo_ip_def wire_wired flush_all_def flush_from.simps flush_page_def rdb_scan_def rdb_del_def
  two_pages_def sample_startup_def stale_start_def fresh_world_def empty_world_def cached_world_def numeral_2_eq_2
  run_db_call_ok redis_call_def del_cmd_def elapse_def Let_def

lemma sample_start_run:
  "\<exists>A v. sample_start = (Inr (Some (A, ''8080'')), v) \<and> granted v 1 \<noteq> {}"
proof -
  obtain cfg where cfg: "main_config (\<lambda>_. None) sample_env = Some cfg" "cf_database_url cfg = ''postgres''"
    "cf_migrations_path cfg = ''migrations''" "cf_redis_url cfg = ''redis://localhost:6379/0''"
    "cf_redis_key_prefix cfg = ''auth:''" "cf_jwt_key_pair cfg = None" "cf_jwt_private_key_path cfg = ''keys/private.pem''"
    "cf_jwt_public_key_path cfg = ''keys/public.pem''" "cf_admin_password cfg = ''Adm1n''" "cf_geoip_db_path cfg = []"
    "cf_geoip_lookup cfg = None" "cf_argon2_memory cfg = 0"
    by (simp add: main_config_def must_env_def env_def env_uint32_def sample_env_def)
  let ?A = "wire sample_startup cfg [] (''keys/private.pem'', ''keys/public.pem'') Nop"
  have "\<exists>v. run_state (new_app sample_startup 2 cfg []) stale_start = (Inr (Some ?A), v) \<and> db v = fresh_db id \<and>
      db_faults v = [] \<and> ticks v = [] \<and> entropy v = [replicate 16 (CHR ''s'')]"
    by (simp add: cfg new_app_def start_eval)
  then obtain v where new: "run_state (new_app sample_startup 2 cfg []) stale_start = (Inr (Some ?A), v)"
    and v: "db v = fresh_db id" "db_faults v = []" "ticks v = []" "entropy v = [replicate 16 (CHR ''s'')]" by blast
  have params: "us_params (ap_users ?A) = default_params" by (simp add: wire_def Let_def cfg)
  have seed: "fst (run_state (seed_admin sample_kdf default_params cfg) v) = Inr () \<and>
      granted (snd (run_state (seed_admin sample_kdf default_params cfg) v)) 1 \<noteq> {}"
    by (simp add: seed_eval v cfg default_params_def granted_def)
  obtain v' where run: "sample_start = (Inr (Some (?A, ''8080'')), v')" "granted v' 1 \<noteq> {}"
    using seed by (cases "run_state (seed_admin sample_kdf default_params cfg) v")
      (simp add: start_program_def cfg new params env_def sample_env_def, simp add: sample_startup_def)
  then show ?thesis by blast
qed

lemma sample_start_documented:
  "env sample_env ''REDIS_KEY_PREFIX'' ''auth:'' = pc_prefix sample_cache"
  "migrations_documented sample_startup {cache_key sample_cache 1, ''other''} stale_start"
  "pc_prefix pc = env sample_env ''REDIS_KEY_PREFIX'' ''auth:'' \<Longrightarrow> range (cache_key pc) \<subseteq> cached_keys"
  "scan_documented (sl_scan sample_startup) (client_key (env sample_env ''REDIS_KEY_PREFIX'' ''auth:'') ''permissions:user:*'')
     {cache_key sample_cache 1, ''other''} cached_keys pages_left keys_left"
proof -
  show prefix: "env sample_env ''REDIS_KEY_PREFIX'' ''auth:'' = pc_prefix sample_cache"
    by (simp add: env_def sample_env_def sample_cache_def)
  show "migrations_documented sample_startup {cache_key sample_cache 1, ''other''} stale_start"
    using fresh_db_wf cached_world_keys
    by (auto simp: migrations_documented_def sample_startup_def ready_def calm_def stale_start_def fresh_world_def empty_world_def)
  show "pc_prefix pc = env sample_env ''REDIS_KEY_PREFIX'' ''auth:'' \<Longrightarrow> range (cache_key pc) \<subseteq> cached_keys"
    by (auto simp: prefix cache_key_def)
  show "scan_documented (sl_scan sample_startup) (client_key (env sample_env ''REDIS_KEY_PREFIX'' ''auth:'') ''permissions:user:*'')
     {cache_key sample_cache 1, ''other''} cached_keys pages_left keys_left"
    using two_pages_documented by (simp add: prefix sample_startup_def)
qed

theorem start_makes_coherent_witness:
  "\<exists>A. fst sample_start = Inr (Some (A, ''8080'')) \<and> wired A \<and> coherent (ap_perms A) (snd sample_start) 1 \<and>
     granted (snd sample_start) 1 \<noteq> {}"
proof -
  obtain A v where run: "sample_start = (Inr (Some (A, ''8080'')), v)" "granted v 1 \<noteq> {}" using sample_start_run by blast
  have "wired A \<and> coherent (ap_perms A) v 1"
    using start_makes_coherent [OF run(1) sample_start_documented(2,4,3), of A "''8080''"] by simp
  with run show ?thesis by simp
qed

end
