(* ===== verification/Process.thy ===== *)
theory Process
  imports Boot "HOL-Library.Multiset"
begin

text \<open>
  The life of the process (\<open>cmd/api/main.go\<close>, with \<open>Close\<close> and the loop of the clean-up of
  \<open>internal/app/app.go\<close>) from the moment \<open>New\<close> has answered: main, the listener with the requests it
  accepts and the clean-up run at the same time, main is woken up by a signal or by the listener, and
  what was opened is closed while the others may still be at work.
\<close>

section \<open>The state of the process\<close>

text \<open>
  Where main and the loop of the clean-up are; the world; what is open. \<open>pr_in_flight\<close> are the requests
  accepted and not yet answered, \<open>pr_unfinished\<close> are those that will not get to their end before the process
  does, \<open>pr_server_err\<close> is what the goroutine of \<open>Listen\<close> has put into the channel
  \<open>serverErr\<close>.
\<close>

datatype main_at = Seeding | Serving | Stopping | Closing | Returning | Exited nat

datatype loop_at = Passing | Waiting | Loop_Ended

datatype wakeup = Server_Stopped "err option" | Signalled string

record process =
  pr_main :: main_at
  pr_loop :: loop_at
  pr_world :: world
  pr_listening :: bool
  pr_server_err :: "err option option"
  pr_in_flight :: "request list"
  pr_unfinished :: "request list"
  pr_stop_closed :: bool
  pr_geo_open :: bool
  pr_db_open :: bool

text \<open>The state in which \<open>New\<close> leaves the process: the clean-up has been started.\<close>

definition launched :: "config \<Rightarrow> world \<Rightarrow> process" where
  "launched cfg v = \<lparr>pr_main = Seeding, pr_loop = Passing, pr_world = v, pr_listening = False, pr_server_err = None,
     pr_in_flight = [], pr_unfinished = [], pr_stop_closed = False, pr_geo_open = geo_closer cfg, pr_db_open = True\<rparr>"

section \<open>Main\<close>

text \<open>\<open>os.Exit(1)\<close>: no deferred call runs, nothing is closed.\<close>

definition fatal :: "process \<Rightarrow> process" where
  "fatal p = p\<lparr>pr_main := Exited 1\<rparr>"

definition after_seed :: "err + unit \<Rightarrow> process \<Rightarrow> process" where
  "after_seed r p = (case r of
     Inl e \<Rightarrow> fatal p
   | Inr _ \<Rightarrow> p\<lparr>pr_main := Serving, pr_listening := True\<rparr>)"

definition main_select :: "wakeup \<Rightarrow> process \<Rightarrow> process" where
  "main_select wake p = (case wake of
     Server_Stopped e \<Rightarrow> fatal p
   | Signalled sig \<Rightarrow> p\<lparr>pr_main := Stopping\<rparr>)"

text \<open>
  \<open>close(stopCleanup)\<close> panics when the channel is closed already. \<open>Close\<close> goes on after an error and
  logs it; the two answers are parameters. A database of GeoIP whose \<open>Close\<close> fails is taken to be open
  still; a pool of connections is closed whatever \<open>Close\<close> answers.
\<close>

definition close_channel :: "process \<Rightarrow> process option" where
  "close_channel p = (if pr_stop_closed p then None else Some (p\<lparr>pr_stop_closed := True\<rparr>))"

definition close_geo :: "config \<Rightarrow> err option \<Rightarrow> process \<Rightarrow> string list \<times> process" where
  "close_geo cfg geo_err p =
     (if geo_closer cfg then
        (case geo_err of
           None \<Rightarrow> ([], p\<lparr>pr_geo_open := False\<rparr>)
         | Some e \<Rightarrow> ([''closing geoip database''], p))
      else ([], p))"

definition close_db :: "err option \<Rightarrow> process \<Rightarrow> string list \<times> process" where
  "close_db db_err p =
     ((case db_err of None \<Rightarrow> [] | Some e \<Rightarrow> [''closing db'']), p\<lparr>pr_db_open := False\<rparr>)"

definition close_app :: "config \<Rightarrow> err option \<Rightarrow> err option \<Rightarrow> process \<Rightarrow> (string list \<times> process) option" where
  "close_app cfg geo_err db_err p = (case close_channel p of
     None \<Rightarrow> None
   | Some p1 \<Rightarrow>
       let (warn1, p2) = close_geo cfg geo_err p1;
           (warn2, p3) = close_db db_err p2
       in Some (warn1 @ warn2, p3))"

section \<open>Steps\<close>

text \<open>
  A program runs against the pool as it is. On a closed pool each of its statements fails with no
  effect: it runs against a script of failures that it does not use up.
\<close>

inductive pool_run :: "bool \<Rightarrow> (world, 'a) state \<Rightarrow> world \<Rightarrow> 'a \<Rightarrow> world \<Rightarrow> bool" where
  pool_open: "run_state m w = (x, w') \<Longrightarrow> pool_run True m w x w'"
| pool_closed: "run_state m (w\<lparr>db_faults := replicate n Fails\<rparr>) = (x, v) \<Longrightarrow> db_faults v \<noteq> [] \<Longrightarrow>
    pool_run False m w x (v\<lparr>db_faults := db_faults w\<rparr>)"

inductive_cases pool_runE: "pool_run b m w x w'"

datatype action =
    Seed "err + unit" | Wake wakeup | Shutdown "err option" | Close "string list" | Panic | Return
  | Accept request | Answer request response | Break_Off request | Listen_Returns "err option"
  | Pass | Tick | Loop_Ends | Elsewhere

text \<open>
  One step of one of them, as long as the process lives. A request takes effect when it is answered. One that
  is never answered has done by the end of the process what it does when its calls fail from some point on; the
  failures to come may change at any time (\<open>elsewhere\<close>). What
  \<open>ShutdownWithTimeout\<close> can answer is the parameter \<open>shutdown\<close>: it depends on whether the listener is open
  and on the requests in flight at that moment. The loop of the clean-up may take a tick although
  the channel is closed: a \<open>select\<close> takes any case that is ready. A signal counts from the call of
  \<open>signal.Notify\<close> on.
\<close>

inductive process_step :: "(bool \<Rightarrow> request list \<Rightarrow> err option \<Rightarrow> bool) \<Rightarrow> router \<Rightarrow> app \<Rightarrow> config \<Rightarrow>
    process \<Rightarrow> action \<Rightarrow> process \<Rightarrow> bool" for shutdown R A cfg where
  seed: "pr_main p = Seeding \<Longrightarrow>
    run_state (seed_admin (us_kdf (ap_users A)) (us_params (ap_users A)) cfg) (pr_world p) = (r, w') \<Longrightarrow>
    process_step shutdown R A cfg p (Seed r) (after_seed r (p\<lparr>pr_world := w'\<rparr>))"
| wake: "pr_main p = Serving \<Longrightarrow> (\<And>e. wake = Server_Stopped e \<Longrightarrow> pr_server_err p = Some e) \<Longrightarrow>
    process_step shutdown R A cfg p (Wake wake) (main_select wake p)"
| shutdown: "pr_main p = Stopping \<Longrightarrow> shutdown (pr_listening p) (pr_in_flight p @ pr_unfinished p) ans \<Longrightarrow>
    process_step shutdown R A cfg p (Shutdown ans) (p\<lparr>pr_main := Closing\<rparr>)"
| close: "pr_main p = Closing \<Longrightarrow> close_app cfg geo_err db_err p = Some (warnings, q) \<Longrightarrow>
    process_step shutdown R A cfg p (Close warnings) (q\<lparr>pr_main := Returning\<rparr>)"
| close_panics: "pr_main p = Closing \<Longrightarrow> close_app cfg geo_err db_err p = None \<Longrightarrow>
    process_step shutdown R A cfg p Panic (p\<lparr>pr_main := Exited 2\<rparr>)"
| return: "pr_main p = Returning \<Longrightarrow> process_step shutdown R A cfg p Return (p\<lparr>pr_main := Exited 0\<rparr>)"
| accept: "\<forall>c. pr_main p \<noteq> Exited c \<Longrightarrow> pr_listening p \<Longrightarrow>
    process_step shutdown R A cfg p (Accept rq) (p\<lparr>pr_in_flight := rq # pr_in_flight p\<rparr>)"
| answer: "\<forall>c. pr_main p \<noteq> Exited c \<Longrightarrow> rq \<in> set (pr_in_flight p) \<Longrightarrow>
    pool_run (pr_db_open p) (serve R A rq) (pr_world p) resp w' \<Longrightarrow>
    process_step shutdown R A cfg p (Answer rq resp) (p\<lparr>pr_world := w', pr_in_flight := remove1 rq (pr_in_flight p)\<rparr>)"
| break_off: "\<forall>c. pr_main p \<noteq> Exited c \<Longrightarrow> rq \<in> set (pr_in_flight p) \<Longrightarrow>
    pool_run (pr_db_open p) (serve R A rq) (pr_world p) resp w' \<Longrightarrow>
    process_step shutdown R A cfg p (Break_Off rq) (p\<lparr>pr_world := w', pr_in_flight := remove1 rq (pr_in_flight p),
      pr_unfinished := rq # pr_unfinished p\<rparr>)"
| listener: "\<forall>c. pr_main p \<noteq> Exited c \<Longrightarrow> pr_listening p \<Longrightarrow>
    process_step shutdown R A cfg p (Listen_Returns e) (p\<lparr>pr_listening := False, pr_server_err := Some e\<rparr>)"
| pass: "\<forall>c. pr_main p \<noteq> Exited c \<Longrightarrow> pr_loop p = Passing \<Longrightarrow>
    pool_run (pr_db_open p) cleanup_sessions (pr_world p) () w' \<Longrightarrow>
    process_step shutdown R A cfg p Pass (p\<lparr>pr_world := w', pr_loop := Waiting\<rparr>)"
| tick: "\<forall>c. pr_main p \<noteq> Exited c \<Longrightarrow> pr_loop p = Waiting \<Longrightarrow>
    process_step shutdown R A cfg p Tick (p\<lparr>pr_loop := Passing\<rparr>)"
| loop_ends: "\<forall>c. pr_main p \<noteq> Exited c \<Longrightarrow> pr_loop p = Waiting \<Longrightarrow> pr_stop_closed p \<Longrightarrow>
    process_step shutdown R A cfg p Loop_Ends (p\<lparr>pr_loop := Loop_Ended\<rparr>)"
| elsewhere: "\<forall>c. pr_main p \<noteq> Exited c \<Longrightarrow> step R A (pr_world p) Outside w' \<Longrightarrow>
    process_step shutdown R A cfg p Elsewhere (p\<lparr>pr_world := w'\<rparr>)"

inductive process_runs :: "(bool \<Rightarrow> request list \<Rightarrow> err option \<Rightarrow> bool) \<Rightarrow> router \<Rightarrow> app \<Rightarrow> config \<Rightarrow>
    world \<Rightarrow> action list \<Rightarrow> process \<Rightarrow> bool" for shutdown R A cfg v where
  launch: "process_runs shutdown R A cfg v [] (launched cfg v)"
| proceed: "process_runs shutdown R A cfg v tr p \<Longrightarrow> process_step shutdown R A cfg p a q \<Longrightarrow>
    process_runs shutdown R A cfg v (tr @ [a]) q"

text \<open>
  What the documentation of \<open>ShutdownWithTimeout\<close> says: it closes the listener and waits until no request
  is in flight; no error means that this came about in time.
\<close>

definition shutdown_documented :: "(bool \<Rightarrow> request list \<Rightarrow> err option \<Rightarrow> bool) \<Rightarrow> bool" where
  "shutdown_documented shutdown \<longleftrightarrow>
     (\<forall>listening in_flight. shutdown listening in_flight None \<longrightarrow> \<not> listening \<and> in_flight = [])"

section \<open>A closed pool\<close>

text \<open>A relation that holds across a call: as long as failures are left over, the tables have not changed.\<close>

definition shut :: "world \<Rightarrow> world \<Rightarrow> bool" where
  "shut v w \<longleftrightarrow> length (db_faults w) \<le> length (db_faults v) \<and>
     (set (db_faults v) \<subseteq> {Fails} \<longrightarrow> set (db_faults w) \<subseteq> {Fails} \<and> (db_faults w \<noteq> [] \<longrightarrow> db w = db v))"

interpretation shut: step_relation shut
proof unfold_locales
  show "shut u w" if "shut u v" "shut v w" for u v w
    using that by (cases "db_faults v") (auto simp: shut_def)
qed (simp add: shut_def)

lemma shut_prims [respects]:
  "state_io_rel shut time_now"
  "state_io_rel shut (rand_read n)"
  "state_io_rel shut (db_call f)"
  "state_io_rel shut (redis_call g)"
proof -
  show "state_io_rel shut (db_call f)"
    by (rule state_io_relI) (auto simp: shut_def db_call_def Let_def split: prod.splits list.splits io_fault.splits)
  have same: "shut v w" if "db w = db v" "db_faults w = db_faults v" for v w using that by (simp add: shut_def)
  show "state_io_rel shut time_now" by (rule state_io_relI) (auto intro: same)
  show "state_io_rel shut (rand_read n)" by (rule state_io_relI) (rule same [OF run_rand_read(1,4)])
  show "state_io_rel shut (redis_call g)" by (rule state_io_relI) (rule same [OF run_redis_call(1,2)])
qed

lemma shut_server [respects]:
  "state_io_rel shut db_ping" "state_io_rel shut redis_ping"
  "state_io_rel shut (has_permission pc uid code)"
  "state_io_rel shut (grant pc actor uid pid)"
  "state_io_rel shut (revoke pc actor uid pid)"
  "state_io_rel shut (delete_permission actor pid)"
  unfolding db_ping_def redis_ping_def permission_service_defs repository_defs cache_get_def cache_set_def
    cache_invalidate_def rdb_defs audit_service_log_def
  by (intro shut.step_rules respects)+

interpretation sh: server_relation shut pc for pc
  by unfold_locales ((unfold repository_defs rdb_defs)?, (rule respects | intro shut.step_rules respects))+

text \<open>Without a pool nothing is written, whatever is asked.\<close>

lemma pool_closed_db:
  assumes "pool_run False m w x w'" and "state_io_rel shut m"
  shows "db w' = db w"
  using assms(1)
proof cases
  case (pool_closed n v)
  from run_respects [OF assms(2) pool_closed(2)] pool_closed(1,3) show ?thesis by (auto simp: shut_def)
qed simp

section \<open>What was asked and what was done\<close>

definition accepted :: "action list \<Rightarrow> request list" where
  "accepted tr = concat (map (\<lambda>a. case a of Accept rq \<Rightarrow> [rq] | _ \<Rightarrow> []) tr)"

definition answered :: "action list \<Rightarrow> (request \<times> response) list" where
  "answered tr = concat (map (\<lambda>a. case a of Answer rq resp \<Rightarrow> [(rq, resp)] | _ \<Rightarrow> []) tr)"

definition begun :: "action list \<Rightarrow> request list" where
  "begun tr = concat (map (\<lambda>a. case a of Answer rq _ \<Rightarrow> [rq] | Break_Off rq \<Rightarrow> [rq] | _ \<Rightarrow> []) tr)"

definition signalled :: "action list \<Rightarrow> bool" where
  "signalled tr \<longleftrightarrow> (\<exists>sig. Wake (Signalled sig) \<in> set tr)"

definition served_in :: "event list \<Rightarrow> (request \<times> response) list" where
  "served_in es = concat (map (\<lambda>e. case e of Request rq resp \<Rightarrow> [(rq, resp)] | _ \<Rightarrow> []) es)"

lemma trace_snoc [simp]:
  "accepted [] = []" "answered [] = []" "begun [] = []" "\<not> signalled []" "served_in [] = []"
  "accepted (tr @ [a]) = accepted tr @ (case a of Accept rq \<Rightarrow> [rq] | _ \<Rightarrow> [])"
  "answered (tr @ [a]) = answered tr @ (case a of Answer rq resp \<Rightarrow> [(rq, resp)] | _ \<Rightarrow> [])"
  "begun (tr @ [a]) = begun tr @ (case a of Answer rq _ \<Rightarrow> [rq] | Break_Off rq \<Rightarrow> [rq] | _ \<Rightarrow> [])"
  "signalled (tr @ [a]) \<longleftrightarrow> signalled tr \<or> (\<exists>sig. a = Wake (Signalled sig))"
  "served_in (es @ [e]) = served_in es @ (case e of Request rq resp \<Rightarrow> [(rq, resp)] | _ \<Rightarrow> [])"
  by (auto simp: accepted_def answered_def begun_def signalled_def served_in_def)

section \<open>Invariants of the process\<close>

lemmas main_defs = fatal_def after_seed_def main_select_def launched_def
lemmas close_defs = close_app_def close_channel_def close_geo_def close_db_def

text \<open>What is open, and what main has done, by where main is.\<close>

definition all_open :: "config \<Rightarrow> process \<Rightarrow> bool" where
  "all_open cfg p \<longleftrightarrow> pr_db_open p \<and> \<not> pr_stop_closed p \<and> pr_geo_open p = geo_closer cfg"

definition all_closed :: "action list \<Rightarrow> process \<Rightarrow> bool" where
  "all_closed tr p \<longleftrightarrow> \<not> pr_db_open p \<and> pr_stop_closed p \<and>
     (pr_geo_open p \<longrightarrow> (\<exists>warnings. Close warnings \<in> set tr \<and> ''closing geoip database'' \<in> set warnings))"

fun in_order :: "config \<Rightarrow> action list \<Rightarrow> process \<Rightarrow> main_at \<Rightarrow> bool" where
  "in_order cfg tr p Seeding \<longleftrightarrow> \<not> signalled tr \<and> all_open cfg p \<and> \<not> pr_listening p \<and> pr_server_err p = None \<and> pr_in_flight p = []"
| "in_order cfg tr p Serving \<longleftrightarrow> \<not> signalled tr \<and> all_open cfg p"
| "in_order cfg tr p Stopping \<longleftrightarrow> signalled tr \<and> all_open cfg p"
| "in_order cfg tr p Closing \<longleftrightarrow> signalled tr \<and> all_open cfg p \<and> (\<exists>ans. Shutdown ans \<in> set tr)"
| "in_order cfg tr p Returning \<longleftrightarrow> signalled tr \<and> all_closed tr p \<and> (\<exists>ans. Shutdown ans \<in> set tr)"
| "in_order cfg tr p (Exited c) \<longleftrightarrow>
     (if signalled tr then c = 0 \<and> all_closed tr p \<and> (\<exists>ans. Shutdown ans \<in> set tr) else c = 1 \<and> all_open cfg p)"

lemma in_order_frame:
  assumes "in_order cfg tr p m" and "\<And>wake. a \<noteq> Wake wake"
    and "pr_db_open q = pr_db_open p" "pr_stop_closed q = pr_stop_closed p" "pr_geo_open q = pr_geo_open p"
    and "m = Seeding \<Longrightarrow> pr_listening q = pr_listening p \<and> pr_server_err q = pr_server_err p \<and> pr_in_flight q = pr_in_flight p"
  shows "in_order cfg (tr @ [a]) q m"
  using assms by (cases m) (auto simp: all_open_def all_closed_def)

lemma in_order_step:
  assumes "process_step shutdown R A cfg p a q" and order: "in_order cfg tr p (pr_main p)"
  shows "in_order cfg (tr @ [a]) q (pr_main q)"
  using assms(1)
proof cases
  case (seed r w')
  with order show ?thesis by (simp add: main_defs all_open_def split: sum.split)
next
  case (wake wk)
  with order show ?thesis by (simp add: main_defs all_open_def split: wakeup.split)
next
  case (shutdown ans)
  with order show ?thesis by (auto simp: all_open_def)
next
  case (close geo_err db_err warnings r)
  with order show ?thesis
    by (auto simp: close_defs all_open_def all_closed_def split: if_splits option.splits)
next
  case (close_panics geo_err db_err)
  with order show ?thesis by (simp add: close_defs all_open_def split: if_splits option.splits)
next
  case return
  with order show ?thesis by (auto simp: all_closed_def)
qed (use order in \<open>auto intro!: in_order_frame [OF order]\<close>)

lemma runs_in_order: "process_runs shutdown R A cfg v tr p \<Longrightarrow> in_order cfg tr p (pr_main p)"
proof (induction rule: process_runs.induct)
  case launch
  show ?case by (simp add: main_defs all_open_def)
qed (rule in_order_step)

text \<open>Every request accepted is answered, broken off or in flight; a clean shutdown leaves none of the latter.\<close>

lemma runs_account:
  "process_runs shutdown R A cfg v tr p \<Longrightarrow>
     mset (accepted tr) = mset (begun tr) + mset (pr_in_flight p) \<and>
     (pr_unfinished p = [] \<longrightarrow> begun tr = map fst (answered tr))"
proof (induction rule: process_runs.induct)
  case (proceed tr p a q)
  from proceed.hyps(2) proceed.IH show ?case
    by cases (auto simp: main_defs close_defs Let_def split: sum.splits wakeup.splits if_splits option.splits prod.splits)
qed (simp add: main_defs)

lemma runs_drained:
  "process_runs shutdown R A cfg v tr p \<Longrightarrow> shutdown_documented shutdown \<Longrightarrow> Shutdown None \<in> set tr \<Longrightarrow>
     \<not> pr_listening p \<and> pr_in_flight p = [] \<and> pr_unfinished p = [] \<and> pr_main p \<notin> {Seeding, Serving, Stopping}"
proof (induction rule: process_runs.induct)
  case (proceed tr p a q)
  note IH = proceed.IH [OF proceed.prems(1)]
  from proceed.hyps(2) show ?case
  proof cases
    case (shutdown ans)
    with IH proceed.prems show ?thesis by (auto simp: shutdown_documented_def)
  qed (use IH proceed.prems(2) in \<open>auto simp: main_defs close_defs Let_def
      split: sum.splits wakeup.splits if_splits option.splits prod.splits\<close>)
qed simp

section \<open>The tables\<close>

text \<open>
  The tables of the process are those of a run of the server of \<open>Lifecycle\<close>: clean-ups before the seed,
  the seed, and then one request after the other and clean-ups. As long as the pool is open, the run has served
  what has been answered, with the same answers.
\<close>

definition seeded :: "router \<Rightarrow> app \<Rightarrow> config \<Rightarrow> world \<Rightarrow> world \<Rightarrow> bool" where
  "seeded R A cfg v v2 \<longleftrightarrow> (\<exists>es v1. runs R A v es v1 \<and> served_in es = [] \<and>
     run_state (seed_admin (us_kdf (ap_users A)) (us_params (ap_users A)) cfg) v1 = (Inr (), v2))"

definition served_run :: "router \<Rightarrow> app \<Rightarrow> action list \<Rightarrow> process \<Rightarrow> world \<Rightarrow> event list \<Rightarrow> world \<Rightarrow> bool" where
  "served_run R A tr p v2 es w \<longleftrightarrow> runs R A v2 es w \<and> db w = db (pr_world p) \<and>
     (pr_db_open p \<longrightarrow> w = pr_world p \<and> map fst (served_in es) = begun tr \<and>
       (pr_unfinished p = [] \<longrightarrow> served_in es = answered tr)) \<and>
     prefix (map fst (served_in es)) (begun tr) \<and> (Shutdown None \<in> set tr \<longrightarrow> served_in es = answered tr)"

text \<open>A step that does not run a program, and one that does.\<close>

lemma served_run_frame:
  assumes "served_run R A tr p v2 es w" and "pr_world q = pr_world p" "pr_db_open q \<Longrightarrow> pr_db_open p"
    "pr_unfinished q = pr_unfinished p" "answered (tr @ [a]) = answered tr" "begun (tr @ [a]) = begun tr"
    and "a = Shutdown None \<Longrightarrow> pr_db_open p \<and> pr_unfinished p = []"
  shows "served_run R A (tr @ [a]) q v2 es w"
  using assms by (auto simp: served_run_def)

lemma served_run_program:
  assumes "served_run R A tr p v2 es w" and "pool_run (pr_db_open p) m (pr_world p) x w'" and "state_io_rel shut m"
    and "\<And>u. run_state m (pr_world p) = (x, u) \<Longrightarrow> step R A (pr_world p) e u"
    and "pr_world q = w'" "pr_db_open q = pr_db_open p" "begun (tr @ [a]) = begun tr @ map fst (served_in [e])"
    and "pr_unfinished q = [] \<Longrightarrow> pr_unfinished p = [] \<and> answered (tr @ [a]) = answered tr @ served_in [e]"
    and "Shutdown None \<in> set (tr @ [a]) \<Longrightarrow> Shutdown None \<in> set tr \<and> answered (tr @ [a]) = answered tr \<and> served_in [e] = []"
  shows "\<exists>es w. served_run R A (tr @ [a]) q v2 es w"
proof (cases "pr_db_open p")
  case True
  with assms(2) have run: "run_state m (pr_world p) = (x, w')" by (auto elim: pool_runE)
  have e: "served_in (es @ [e]) = served_in es @ served_in [e]" by (simp add: served_in_def)
  have "served_run R A (tr @ [a]) q v2 (es @ [e]) w'"
    using runs.later [OF _ assms(4) [OF run]] assms(1,5-9) True
    unfolding served_run_def e by (auto simp del: trace_snoc)
  then show ?thesis by blast
next
  case False
  with pool_closed_db [OF _ assms(3)] assms(2) have "db w' = db (pr_world p)" by simp
  with assms(1,5-9) False have "served_run R A (tr @ [a]) q v2 es w"
    unfolding served_run_def by (auto simp del: trace_snoc intro: prefix_order.trans)
  then show ?thesis by blast
qed

lemma shut_serve: "wired A \<Longrightarrow> state_io_rel shut (serve R A rq)"
  by (rule sh.respects_serve [OF _ refl])

lemma shut_cleanup: "state_io_rel shut cleanup_sessions"
  by (rule sh.respects_cleanup)

definition told :: "router \<Rightarrow> app \<Rightarrow> config \<Rightarrow> world \<Rightarrow> action list \<Rightarrow> process \<Rightarrow> bool" where
  "told R A cfg v tr p \<longleftrightarrow>
     (pr_main p = Seeding \<longrightarrow> (\<exists>es. served_run R A tr p v es (pr_world p) \<and> served_in es = [] \<and> begun tr = [] \<and> answered tr = []))
     \<and> (pr_main p \<noteq> Seeding \<longrightarrow> pr_main p \<noteq> Exited 1 \<longrightarrow> (\<exists>v2. seeded R A cfg v v2 \<and> (\<exists>es w. served_run R A tr p v2 es w)))"

lemma told_seeding:
  assumes "process_step shutdown R A cfg p a q" and told: "told R A cfg v tr p"
    and order: "in_order cfg tr p (pr_main p)" and main: "pr_main p = Seeding"
  shows "told R A cfg v (tr @ [a]) q"
proof -
  from told main obtain es where past: "runs R A v es (pr_world p)" "served_in es = []" "begun tr = []" "answered tr = []"
    and none: "Shutdown None \<notin> set tr \<or> served_in es = answered tr"
    by (auto simp: told_def served_run_def)
  from order main have p: "pr_db_open p" "\<not> pr_listening p" "pr_in_flight p = []" by (simp_all add: all_open_def)
  have world: "told R A cfg v (tr @ [a]) q"
    if "step R A (pr_world p) e w'" "served_in [e] = []" "pr_main q = Seeding" "pr_world q = w'"
      "begun (tr @ [a]) = begun tr" "answered (tr @ [a]) = answered tr" for e w'
  proof -
    have "served_in (es @ [e]) = []" using past(2) that(2) by (simp add: served_in_def)
    then have "served_run R A (tr @ [a]) q v (es @ [e]) w'"
      using runs.later [OF past(1) that(1)] past that by (simp add: served_run_def del: trace_snoc)
    with that past \<open>served_in (es @ [e]) = []\<close> show ?thesis by (auto simp: told_def simp del: trace_snoc)
  qed
  from assms(1) show ?thesis
  proof cases
    case (seed r w')
    show ?thesis
    proof (cases r)
      case (Inr x)
      then have "seeded R A cfg v w'" using past(1,2) seed unfolding seeded_def by fastforce
      moreover have "served_run R A (tr @ [a]) q w' [] w'"
        using seed Inr past by (auto simp: served_run_def main_defs intro: runs.start)
      ultimately show ?thesis using seed Inr by (auto simp: told_def main_defs)
    qed (use seed in \<open>simp add: told_def main_defs\<close>)
  next
    case (pass w')
    then have "run_state cleanup_sessions (pr_world p) = ((), w')" using p(1) by (auto elim: pool_runE)
    from step.cleanup [OF this] show ?thesis by (rule world) (use pass main in \<open>simp_all add: served_in_def\<close>)
  next
    case (elsewhere w')
    show ?thesis by (rule world [OF elsewhere(4)]) (use elsewhere main in \<open>simp_all add: served_in_def\<close>)
  next
    case tick
    with told main show ?thesis by (auto simp: told_def served_run_def)
  next
    case loop_ends
    with told main show ?thesis by (auto simp: told_def served_run_def)
  qed (use main p in simp_all)
qed

lemma told_step:
  assumes step: "process_step shutdown R A cfg p a q" and told: "told R A cfg v tr p"
    and order: "in_order cfg tr p (pr_main p)" and wired: "wired A" and doc: "shutdown_documented shutdown"
    and drained: "Shutdown None \<in> set tr \<Longrightarrow> pr_in_flight p = []"
  shows "told R A cfg v (tr @ [a]) q"
proof (cases "pr_main p = Seeding")
  case True
  with told_seeding [OF step told order] show ?thesis by simp
next
  case False
  have live: "\<forall>c. pr_main p \<noteq> Exited c" using step by cases auto
  with told False obtain v2 es w where v2: "seeded R A cfg v v2" and past: "served_run R A tr p v2 es w"
    by (auto simp: told_def)
  have kept: "\<exists>es w. served_run R A (tr @ [a]) q v2 es w"
    if "pr_world q = pr_world p" "pr_db_open q \<Longrightarrow> pr_db_open p" "pr_unfinished q = pr_unfinished p"
      "answered (tr @ [a]) = answered tr" "begun (tr @ [a]) = begun tr"
      "a = Shutdown None \<Longrightarrow> pr_db_open p \<and> pr_unfinished p = []"
    using served_run_frame [OF past that] by blast
  have "(\<exists>es w. served_run R A (tr @ [a]) q v2 es w) \<or> pr_main q = Exited 1"
    using step
  proof cases
    case (wake wk)
    then show ?thesis by (intro disjI1 kept) (auto simp: main_defs split: wakeup.splits)
  next
    case (shutdown ans)
    then show ?thesis using order doc by (intro disjI1 kept) (auto simp: all_open_def shutdown_documented_def)
  next
    case (close geo_err db_err warnings r)
    then show ?thesis by (intro disjI1 kept) (auto simp: close_defs split: if_splits option.splits)
  next
    case (answer rq resp w')
    show ?thesis
      by (rule disjI1, rule served_run_program [OF past answer(5) shut_serve [OF wired], of "Request rq resp"])
        (use answer drained in \<open>auto simp: served_in_def intro: step.request\<close>)
  next
    case (break_off rq resp w')
    show ?thesis
      by (rule disjI1, rule served_run_program [OF past break_off(5) shut_serve [OF wired], of "Request rq resp"])
        (use break_off drained in \<open>auto simp: served_in_def intro: step.request\<close>)
  next
    case (pass w')
    show ?thesis
      by (rule disjI1, rule served_run_program [OF past pass(5) shut_cleanup, of Cleanup])
        (use pass in \<open>auto simp: served_in_def intro: step.cleanup\<close>)
  next
    case (elsewhere w')
    show ?thesis
    proof (cases "pr_db_open p")
      case True
      with past have "served_run R A (tr @ [a]) q v2 (es @ [Outside]) w'"
        using runs.later [OF _ elsewhere(4)] elsewhere by (auto simp: served_run_def step_simps)
      then show ?thesis by blast
    next
      case False
      with past elsewhere have "served_run R A (tr @ [a]) q v2 es w" by (auto simp: served_run_def step_simps)
      then show ?thesis by blast
    qed
  qed (rule disjI1, rule kept; use False in simp)+
  moreover have "pr_main q \<noteq> Seeding" using step False
    by cases (auto simp: main_defs close_defs split: wakeup.splits if_splits option.splits)
  ultimately show ?thesis using v2 by (auto simp: told_def simp del: trace_snoc)
qed

lemma runs_told:
  assumes "process_runs shutdown R A cfg v tr p" and "wired A" and "shutdown_documented shutdown"
  shows "told R A cfg v tr p"
  using assms(1)
proof (induction rule: process_runs.induct)
  case launch
  show ?case by (auto simp: told_def main_defs served_run_def intro!: exI [of _ "[]"] runs.start)
next
  case (proceed tr p a q)
  show ?case
    using told_step [OF proceed.hyps(2) proceed.IH runs_in_order [OF proceed.hyps(1)] assms(2,3)]
      runs_drained [OF proceed.hyps(1) assms(3)] by blast
qed

text \<open>
  Wherever the process is, broken off or not, the tables have only gone through what requests and clean-ups do; a process that
  \<open>New\<close> has started leaves well-formed tables behind, however it ends.
\<close>

lemma pool_run_evolves: "pool_run b m w x w' \<Longrightarrow> state_io_rel (on_db evolves) m \<Longrightarrow> evolves (db w) (db w')"
  by (elim pool_runE) (auto dest!: run_respects simp: on_db_def)

lemma process_evolves: "process_runs shutdown R A cfg v tr p \<Longrightarrow> evolves (db v) (db (pr_world p))"
proof (induction rule: process_runs.induct)
  case (proceed tr p a q)
  from proceed.hyps(2) have "evolves (db (pr_world p)) (db (pr_world q))"
  proof cases
    case (seed r w')
    with run_respects [OF evolves_startup(3) seed(4)] show ?thesis by (simp add: main_defs on_db_def split: sum.split)
  next
    case (answer rq resp w')
    with pool_run_evolves [OF answer(5) serve_evolves] show ?thesis by simp
  next
    case (break_off rq resp w')
    with pool_run_evolves [OF break_off(5) serve_evolves] show ?thesis by simp
  next
    case (pass w')
    with pool_run_evolves [OF pass(5) evolves_startup(1)] show ?thesis by simp
  next
    case (elsewhere w')
    with step_evolves [OF elsewhere(4)] show ?thesis by simp
  qed (auto simp: main_defs close_defs split: wakeup.splits if_splits option.splits)
  with proceed.IH show ?case by (rule ev.Q_trans)
qed (simp add: main_defs)

lemma process_wf:
  assumes "run_state (new_app SL fuel cfg dummy) w = (Inr (Some A), v)" and "migrations_documented SL K w"
    and "scan_documented (sl_scan SL) (client_key (cf_redis_key_prefix cfg) ''permissions:user:*'') K M rank todo" and "rank 0 < fuel"
    and "process_runs shutdown R A cfg v tr p"
  shows "wired A \<and> db_wf (db (pr_world p))"
  using new_app_run(2) [OF assms(1-4) refl] process_evolves [OF assms(5)] by (auto simp: evolves_def)

section \<open>The end\<close>

text \<open>Once main has the signal it needs nobody else to get to the end: at most three steps of its own.\<close>

lemma close_app_open: "\<not> pr_stop_closed p \<Longrightarrow> \<exists>warnings q. close_app cfg geo_err db_err p = Some (warnings, q)"
  by (simp add: close_defs split: option.split)

theorem signal_can_end:
  assumes run: "process_runs shutdown R A cfg v tr p" and "signalled tr" and "\<forall>c. pr_main p \<noteq> Exited c"
    and returns: "\<And>listening in_flight. \<exists>ans. shutdown listening in_flight ans"
  shows "\<exists>more q. process_runs shutdown R A cfg v (tr @ more) q \<and> pr_main q = Exited 0 \<and> length more \<le> 3"
proof -
  have one: "\<exists>more q. process_runs shutdown R A cfg v (tr @ more) q \<and> pr_main q = Exited 0 \<and> length more \<le> 1"
    if "process_runs shutdown R A cfg v tr p" "pr_main p = Returning" for tr p
    using process_runs.proceed [OF that(1) process_step.return [OF that(2)]] by (intro exI [of _ "[Return]"]) auto
  have two: "\<exists>more q. process_runs shutdown R A cfg v (tr @ more) q \<and> pr_main q = Exited 0 \<and> length more \<le> 2"
    if r: "process_runs shutdown R A cfg v tr p" and m: "pr_main p = Closing" for tr p
  proof -
    have "\<not> pr_stop_closed p" using runs_in_order [OF r] m by (simp add: all_open_def)
    then obtain ws q where "close_app cfg None None p = Some (ws, q)" using close_app_open by blast
    from process_runs.proceed [OF r process_step.close [OF m this]]
    obtain more r where "process_runs shutdown R A cfg v ((tr @ [Close ws]) @ more) r" "pr_main r = Exited 0" "length more \<le> 1"
      using one [of "tr @ [Close ws]"] by fastforce
    then show ?thesis by (intro exI [of _ "Close ws # more"] exI [of _ r]) simp
  qed
  show ?thesis
  proof (cases "pr_main p")
    case Stopping
    obtain ans where "shutdown (pr_listening p) (pr_in_flight p @ pr_unfinished p) ans" using returns by blast
    from process_runs.proceed [OF run process_step.shutdown [OF Stopping, of shutdown, OF this]]
    obtain more r where "process_runs shutdown R A cfg v ((tr @ [Shutdown ans]) @ more) r" "pr_main r = Exited 0" "length more \<le> 2"
      using two [of "tr @ [Shutdown ans]"] by fastforce
    then show ?thesis by (intro exI [of _ "Shutdown ans # more"] exI [of _ r]) simp
  qed (use assms(2,3) runs_in_order [OF run] one [OF run] two [OF run] in \<open>force+\<close>)
qed


text \<open>
  The sample server with a database of GeoIP: a request is accepted, the signal comes, the listener is
  closed, the request is answered, and the process ends.
\<close>

definition graceful :: "bool \<Rightarrow> request list \<Rightarrow> err option \<Rightarrow> bool" where
  "graceful listening in_flight ans \<longleftrightarrow> (ans = None \<longrightarrow> \<not> listening \<and> in_flight = [])"


end
