(* ===== verification/Authority.thy ===== *)
theory Authority
  imports Coherence
begin

text \<open>
  What anybody can do, along runs of the server: grants move authority between users, and no
  request makes any (\<open>internal/service/permission.go\<close>, with the routes of \<open>routes/routes.go\<close>).
\<close>

section \<open>The authority in the tables\<close>

definition authority :: "database \<Rightarrow> string set" where
  "authority d = {c. \<exists>u. \<exists>g\<in>set (codes_of d u). covers g c}"

lemma authority_may: "c \<in> authority (db w) \<longleftrightarrow> (\<exists>u. may w u c)"
  by (auto simp: authority_def may_def granted_def)

definition no_more :: "database \<Rightarrow> database \<Rightarrow> bool" where
  "no_more d e \<longleftrightarrow> (db_wf d \<longrightarrow> db_wf e \<and> authority e \<subseteq> authority d)"

interpretation nm: db_relation no_more
  by unfold_locales (auto simp: no_more_def)

lemma no_moreI:
  assumes "evolves d e" and "\<And>u. db_wf d \<Longrightarrow> set (codes_of e u) \<subseteq> set (codes_of d u)"
  shows "no_more d e"
  using assms by (fastforce simp: no_more_def evolves_def authority_def)

lemma no_more_call:
  assumes "\<And>now d. evolves d (snd (f now d))"
    and "\<And>now d u. db_wf d \<Longrightarrow> set (codes_of (snd (f now d)) u) = set (codes_of d u)"
  shows "state_io_rel (on_db no_more) (db_call f)"
  using assms by (intro nm.on_db_call no_moreI) auto

text \<open>A program that changes no codes, or takes some away.\<close>

lemma no_more_program:
  assumes "state_io_rel (on_db evolves) m"
    and "\<And>w r w' u. db_wf (db w) \<Longrightarrow> run_state m w = (r, w') \<Longrightarrow> granted w' u \<subseteq> granted w u"
  shows "state_io_rel (on_db no_more) m"
proof (rule state_io_relI)
  fix r w w' assume run: "run_state m w = (r, w')"
  show "on_db no_more w w'"
    unfolding on_db_def
    by (rule no_moreI)
      (use run_respects [OF assms(1) run] assms(2) [OF _ run] in \<open>auto simp: on_db_def granted_def\<close>)
qed

text \<open>A grant of a code that the actor covers makes nothing possible that was not: \<open>covers\<close> is transitive.\<close>

lemma no_more_grant: "state_io_rel (on_db no_more) (grant pc actor uid pid)"
proof (rule state_io_relI)
  fix r w w' assume run: "run_state (grant pc actor uid pid) w = (r, w')"
  have evolved: "evolves (db w) (db w')"
    using run_respects [OF evolves_permission_service(6) run] by (simp add: on_db_def)
  have "authority (db w') \<subseteq> authority (db w)" if wf: "db_wf (db w)"
    using grant_effect [OF run wf]
  proof (elim disjE bexE conjE)
    assume "granted w' = granted w"
    then show ?thesis by (auto simp: authority_may may_def)
  next
    fix p g
    assume g: "g \<in> granted w actor" "covers g (p_code p)"
      and w': "granted w' = (granted w)(uid := insert (p_code p) (granted w uid))"
    show ?thesis
    proof
      fix c assume "c \<in> authority (db w')"
      then obtain u h where h: "h \<in> granted w' u" "covers h c" by (auto simp: authority_may may_def)
      then consider "h \<in> granted w u" | "h = p_code p" using w' by (auto split: if_splits)
      then show "c \<in> authority (db w)"
      proof cases
        case 1
        with h(2) show ?thesis by (auto simp: authority_may may_def)
      next
        case 2
        with g h(2) have "covers g c" using covers_trans by blast
        with g(1) show ?thesis by (auto simp: authority_may may_def)
      qed
    qed
  qed
  with evolved show "on_db no_more w w'" by (auto simp: on_db_def no_more_def evolves_def)
qed

section \<open>What the server keeps\<close>

lemma no_more_permissions [respects]:
  "state_io_rel (on_db no_more) (has_permission pc uid code)"
  "state_io_rel (on_db no_more) (revoke pc actor uid pid)"
  "state_io_rel (on_db no_more) (delete_permission actor pid)"
proof -
  show "state_io_rel (on_db no_more) (has_permission pc uid code)"
    by (rule no_more_program [OF evolves_permission_service(1)]) (simp add: granted_def has_permission_keeps(1))
  show "state_io_rel (on_db no_more) (revoke pc actor uid pid)"
  proof (rule no_more_program [OF evolves_permission_service(7)])
    fix w r w' u assume "db_wf (db w)" "run_state (revoke pc actor uid pid) w = (r, w')"
    from revoke_effect [OF this(2,1)] show "granted w' u \<subseteq> granted w u" by (auto split: if_splits)
  qed
  show "state_io_rel (on_db no_more) (delete_permission actor pid)"
    by (rule no_more_program [OF evolves_permission_service(10)]) (drule delete_effect, simp)
qed

lemma no_more_repository [respects]:
  "state_io_rel (on_db no_more) (user_repo_find_by_email email)"
  "state_io_rel (on_db no_more) (user_repo_find_by_id uid)"
  "state_io_rel (on_db no_more) user_repo_list"
  "state_io_rel (on_db no_more) (user_repo_create u)"
  "state_io_rel (on_db no_more) (user_repo_update_password_hash uid hash)"
  "state_io_rel (on_db no_more) (user_repo_update u)"
  "state_io_rel (on_db no_more) (permission_repo_list_all collate)"
  "state_io_rel (on_db no_more) (role_repo_list collate)"
  "state_io_rel (on_db no_more) (permission_repo_find_by_code code)"
  "state_io_rel (on_db no_more) (permission_repo_find_by_id pid)"
  "state_io_rel (on_db no_more) (permission_repo_list_codes_by_user_id uid)"
  "state_io_rel (on_db no_more) (permission_repo_create p)"
  "state_io_rel (on_db no_more) (permission_repo_update_description pid description)"
  "state_io_rel (on_db no_more) (permission_repo_count_active_users_with_code code)"
  "state_io_rel (on_db no_more) (session_repo_create s)"
  "state_io_rel (on_db no_more) (session_repo_find_active_by_token_hash h)"
  "state_io_rel (on_db no_more) (session_repo_find_by_token_hash h)"
  "state_io_rel (on_db no_more) (session_repo_find_by_id sid)"
  "state_io_rel (on_db no_more) (session_repo_revoke_with_timestamp sid)"
  "state_io_rel (on_db no_more) (session_repo_revoke_all_by_user uid)"
  "state_io_rel (on_db no_more) (session_repo_revoke_all_by_user_except_current uid sid)"
  "state_io_rel (on_db no_more) (session_repo_touch_activity sid)"
  "state_io_rel (on_db no_more) (session_repo_find_active_by_user_id uid)"
  "state_io_rel (on_db no_more) (session_repo_delete_expired retention)"
  "state_io_rel (on_db no_more) (audit_repo_insert a)"
  "state_io_rel (on_db no_more) (audit_repo_list limit offset)"
  "state_io_rel (on_db no_more) db_ping"
  unfolding repository_defs db_ping_def
  by (intro nm.on_rules respects no_more_call; simp add: evolves_queries codes_kept_permissions)+

lemma no_more_redis [respects]:
  "state_io_rel (on_db no_more) redis_ping"
  "state_io_rel (on_db no_more) (rdb_ttl tr k)"
  "state_io_rel (on_db no_more) (rdb_get_int k)"
  "state_io_rel (on_db no_more) (rdb_get k)"
  "state_io_rel (on_db no_more) (rdb_del ks)"
  "state_io_rel (on_db no_more) (rdb_incr k)"
  "state_io_rel (on_db no_more) (rdb_expire k ttl)"
  "state_io_rel (on_db no_more) (rdb_set k v ttl)"
  unfolding redis_ping_def rdb_defs by (rule nm.on_rules)+

interpretation ns: server_relation "on_db no_more" pc for pc
  by unfold_locales (rule nm.on_other no_more_grant respects)+

lemma step_no_more: "step R A v e v' \<Longrightarrow> wired A \<Longrightarrow> no_more (db v) (db v')"
proof (induction rule: step.induct)
  case (request rq w resp w')
  from run_respects [OF ns.respects_serve [OF request(2) refl] request(1)] show ?case by (simp add: on_db_def)
next
  case (cleanup w w')
  from run_respects [OF ns.respects_cleanup cleanup(1)] show ?case by (simp add: on_db_def)
qed (simp add: nm.Q_refl)

section \<open>The property\<close>

text \<open>
  C9: no request makes authority. Along every run, whatever is asked and whatever fails, what
  somebody may do afterwards somebody could do before: permissions that nobody has, the wildcard
  first of all, cannot be obtained through the API by any sequence of requests, not even by several
  users together.
\<close>

theorem authority_never_grows:
  assumes run: "runs R A w es w'" and "wired A" and "db_wf (db w)" and "may w' u code"
  shows "\<exists>v. may w v code"
proof -
  have "no_more (db w) (db w')"
    by (rule runs_keep [OF run, of no_more]) (use step_no_more assms(2) nm.Q_refl nm.Q_trans in blast)+
  then have "code \<in> authority (db w') \<Longrightarrow> code \<in> authority (db w)" using assms(3) by (auto simp: no_more_def)
  with assms(4) show ?thesis by (auto simp: authority_may)
qed

text \<open>Alice has lost the wildcard; Bob still reads users. Her next request brings it to nobody.\<close>

definition starless_world :: world where
  "starless_world = session_world\<lparr>db := sample_db\<lparr>user_permissions := [\<lparr>up_user_id = 2, up_permission_id = 2\<rparr>],
     sessions := [sample_session 1 1 ''a''], next_session_id := 2\<rparr>\<rparr>"

lemma starless_wf: "db_wf (db starless_world)"
  by (simp add: starless_world_def sample_session_def wf_defs ids_ok_def role_exists_def sample_defs)

lemma starless: "\<not> may starless_world v ''*''"
  by (auto simp: may_def granted_def starless_world_def codes_set sample_defs dest: covers_star)

theorem authority_never_grows_witness:
  "\<not> may (snd (run_state (serve sample_router sample_app roles_request) starless_world)) 1 ''*''"
proof
  let ?run = "run_state (serve sample_router sample_app roles_request) starless_world"
  have "step sample_router sample_app starless_world (Request roles_request (fst ?run)) (snd ?run)"
    by (rule step.request) simp
  then have "runs sample_router sample_app starless_world [Request roles_request (fst ?run)] (snd ?run)"
    using runs.later [OF runs.start] by fastforce
  moreover assume "may (snd ?run) 1 ''*''"
  ultimately have "\<exists>v. may starless_world v ''*''"
    by (rule authority_never_grows [OF _ sample_wired starless_wf])
  then show False using starless by blast
qed

end
