(* ===== verification/Interleavings.thy ===== *)
theory Interleavings
  imports Coherence
begin

text \<open>
  Requests served at the same time. Each statement to the database is atomic, so whatever the order in
  which the statements of several requests come, the tables go through a sequence of single
  statements of \<open>internal/repository/\<close>. What holds along all such sequences needs no
  assumption on the order; \<open>Races\<close> has facts that do.
\<close>

section \<open>Single statements\<close>

inductive statement :: "database \<Rightarrow> database \<Rightarrow> bool" where
  user_create: "statement d (snd (q_user_create u now d))"
| user_password: "statement d (snd (q_user_update_password_hash uid h stamp now d))"
| user_update: "statement d (snd (q_user_update u now d))"
| granting: "statement d (snd (q_grant uid pid now d))"
| revoking: "statement d (snd (q_revoke uid pid now d))"
| permission_create: "statement d (snd (q_permission_create p now d))"
| permission_update: "statement d (snd (q_permission_update_description pid text now d))"
| permission_delete: "statement d (snd (q_permission_delete pid now d))"
| session_create: "statement d (snd (q_session_create s now d))"
| session_revoke: "statement d (snd (q_session_revoke P stamp now d))"
| session_touch: "statement d (snd (q_session_touch sid stamp now d))"
| session_delete: "statement d (snd (q_session_delete P now d))"
| audit: "statement d (snd (q_audit_insert a now d))"

definition statements :: "database \<Rightarrow> database \<Rightarrow> bool" where
  "statements = statement\<^sup>*\<^sup>*"

interpretation ss: db_relation statements
  by unfold_locales (auto simp: statements_def)

lemma statements_evolve: "statements d e \<Longrightarrow> evolves d e"
  unfolding statements_def
  by (induction rule: rtranclp_induct) (auto elim!: statement.cases intro: ev.Q_trans evolves_queries)

lemma statement_then: "statements c d \<Longrightarrow> statement d e \<Longrightarrow> statements c e"
  unfolding statements_def by (rule rtranclp.rtrancl_into_rtrancl)

text \<open>A call of the database is a statement, or reads only.\<close>

lemma statement_call:
  "(\<And>now d. statement d (snd (f now d)) \<or> snd (f now d) = d) \<Longrightarrow> state_io_rel (on_db statements) (db_call f)"
  unfolding statements_def by (rule ss.on_db_call [unfolded statements_def]) (metis r_into_rtranclp rtranclp.rtrancl_refl)

section \<open>A request is a sequence of statements\<close>

lemma statements_repository [respects]:
  "state_io_rel (on_db statements) (user_repo_find_by_email email)"
  "state_io_rel (on_db statements) (user_repo_find_by_id uid)"
  "state_io_rel (on_db statements) user_repo_list"
  "state_io_rel (on_db statements) (user_repo_create u)"
  "state_io_rel (on_db statements) (user_repo_update_password_hash uid hash)"
  "state_io_rel (on_db statements) (user_repo_update u)"
  "state_io_rel (on_db statements) (permission_repo_list_all collate)"
  "state_io_rel (on_db statements) (role_repo_list collate)"
  "state_io_rel (on_db statements) (permission_repo_find_by_code code)"
  "state_io_rel (on_db statements) (permission_repo_find_by_id pid)"
  "state_io_rel (on_db statements) (permission_repo_list_codes_by_user_id uid)"
  "state_io_rel (on_db statements) (permission_repo_grant uid pid)"
  "state_io_rel (on_db statements) (permission_repo_revoke uid pid)"
  "state_io_rel (on_db statements) (permission_repo_create p)"
  "state_io_rel (on_db statements) (permission_repo_update_description pid description)"
  "state_io_rel (on_db statements) (permission_repo_delete pid)"
  "state_io_rel (on_db statements) (permission_repo_count_assignments pid)"
  "state_io_rel (on_db statements) (permission_repo_count_active_users_with_code code)"
  "state_io_rel (on_db statements) (session_repo_create s)"
  "state_io_rel (on_db statements) (session_repo_find_active_by_token_hash h)"
  "state_io_rel (on_db statements) (session_repo_find_by_token_hash h)"
  "state_io_rel (on_db statements) (session_repo_find_by_id sid)"
  "state_io_rel (on_db statements) (session_repo_revoke_with_timestamp sid)"
  "state_io_rel (on_db statements) (session_repo_revoke_all_by_user uid)"
  "state_io_rel (on_db statements) (session_repo_revoke_all_by_user_except_current uid sid)"
  "state_io_rel (on_db statements) (session_repo_touch_activity sid)"
  "state_io_rel (on_db statements) (session_repo_find_active_by_user_id uid)"
  "state_io_rel (on_db statements) (session_repo_delete_expired retention)"
  "state_io_rel (on_db statements) (audit_repo_insert a)"
  "state_io_rel (on_db statements) (audit_repo_list limit offset)"
  "state_io_rel (on_db statements) db_ping"
  unfolding repository_defs db_ping_def
  by (intro ss.on_rules respects statement_call; simp add: statement.intros)+

lemma statements_audit [respects]:
  "state_io_rel (on_db statements) (audit_service_log uid action entity eid old new)"
  unfolding audit_service_log_def by (intro ss.on_rules respects)

lemma statements_permissions [respects]:
  "state_io_rel (on_db statements) (has_permission pc uid code)"
  "state_io_rel (on_db statements) (grant pc actor uid pid)"
  "state_io_rel (on_db statements) (revoke pc actor uid pid)"
  "state_io_rel (on_db statements) (delete_permission actor pid)"
  unfolding permission_service_defs cache_get_def cache_set_def cache_invalidate_def rdb_defs
  by (intro ss.on_rules respects)+

lemma statements_redis [respects]:
  "state_io_rel (on_db statements) redis_ping"
  "state_io_rel (on_db statements) (rdb_ttl tr k)"
  "state_io_rel (on_db statements) (rdb_get_int k)"
  "state_io_rel (on_db statements) (rdb_get k)"
  "state_io_rel (on_db statements) (rdb_del ks)"
  "state_io_rel (on_db statements) (rdb_incr k)"
  "state_io_rel (on_db statements) (rdb_expire k ttl)"
  "state_io_rel (on_db statements) (rdb_set k v ttl)"
  unfolding redis_ping_def rdb_defs by (rule ss.on_rules)+

interpretation sr: server_relation "on_db statements" pc for pc
  by unfold_locales (rule ss.on_other respects)+

lemma step_statements: "step R A v e v' \<Longrightarrow> wired A \<Longrightarrow> statements (db v) (db v')"
proof (induction rule: step.induct)
  case (request rq w resp w')
  from run_respects [OF sr.respects_serve [OF request(2) refl] request(1)] show ?case by (simp add: on_db_def)
next
  case (cleanup w w')
  from run_respects [OF sr.respects_cleanup cleanup(1)] show ?case by (simp add: on_db_def)
qed (simp add: ss.Q_refl)

lemma runs_statements: "runs R A w es w' \<Longrightarrow> wired A \<Longrightarrow> statements (db w) (db w')"
  by (rule runs_keep [of R A w es w' statements]) (auto intro: step_statements ss.Q_refl ss.Q_trans)

text \<open>
  C10: integrity under concurrency. Every request and every clean-up changes the tables by a sequence of
  the statements of the repositories; and along any sequence of these statements, in any order and from any
  mixture of requests, the tables stay well-formed, the audit log is only appended to, no user is
  deleted, and a session once written keeps owner, token and expiry and stays revoked once it is.
\<close>

theorem interleaving_keeps_integrity:
  assumes "wired A" and "runs R A w es w'" and "statements d e" and "db_wf d"
  shows "statements (db w) (db w') \<and>
    db_wf e \<and> (\<exists>more. audit_logs e = audit_logs d @ more) \<and> user_ids d \<subseteq> user_ids e \<and>
    (\<forall>t\<in>set (sessions e). s_id t < next_session_id d \<longrightarrow>
       (\<exists>s\<in>set (sessions d). s_id t = s_id s \<and> s_user_id t = s_user_id s \<and>
          s_refresh_token_hash t = s_refresh_token_hash s \<and> s_expires_at t = s_expires_at s \<and>
          (s_revoked s \<longrightarrow> s_revoked t)))"
  using runs_statements [OF assms(2,1)] evolves_integrity [OF statements_evolve [OF assms(3)] assms(4)] by blast

text \<open>The four writes of two refreshes with one token, in the order that lets both through.\<close>

definition both_refreshes :: database where
  "both_refreshes =
     (let revoke = (\<lambda>d. snd (q_session_revoke (\<lambda>s. s_id s = 1) 0 0 d));
          create = (\<lambda>token d. snd (q_session_create (sample_session 0 1 token) 0 d))
      in create ''y'' (create ''x'' (revoke (revoke (db session_world)))))"

lemma both_refreshes_statements: "statements (db session_world) both_refreshes"
  unfolding both_refreshes_def Let_def
  by (rule statement_then [OF _ session_create] statement_then [OF _ session_revoke] ss.Q_refl)+

theorem interleaving_keeps_integrity_witness:
  "db_wf both_refreshes \<and> length (filter (\<lambda>s. \<not> s_revoked s \<and> s_user_id s = 1) (sessions both_refreshes)) = 3"
proof -
  have "db_wf both_refreshes"
    using interleaving_keeps_integrity [OF sample_wired sample_run both_refreshes_statements session_world_wf] by blast
  then show ?thesis
    by (simp add: both_refreshes_def q_session_revoke_def q_session_create_def Let_def session_world_def sample_session_def
        revoke_row_def sample_defs)
qed

end
