(* ===== verification/Spec2Isabelle.thy ===== *)
theory Spec2Isabelle
  imports Permission_Properties Login_Properties Password_Policy User_Properties Route_Properties
    Startup_Properties Session_Properties Responses Races Coherence Boot Process Authority Interleavings
begin

text \<open>
  A model of the authentication backend (\<open>src/backend\<close>, Go) and the properties that make it correct.

  \<^bold>\<open>The program.\<close> A Fiber server. A request goes through the table of \<open>routes/routes.go\<close>, the
  middleware of \<open>middleware/\<close>, a handler of \<open>internal/*/handler.go\<close>, a service of
  \<open>internal/service/\<close>, and from there to PostgreSQL through \<open>internal/repository/\<close> and to Redis through
  \<open>cache/\<close>. Errors come back as values; \<open>errorHandler\<close> of \<open>internal/app/app.go\<close> turns what is left of
  them into a response. Beside the requests there are the start (\<open>cmd/api/main.go\<close>, \<open>app.New\<close>,
  \<open>SeedAdmin\<close>) and an hourly clean-up of sessions.

  \<^bold>\<open>The world.\<close> A program is a function on the state \<open>world\<close> (theory \<open>Models\<close>): the tables, the Redis
  store with expiries, the clock, the random bytes to come, and two schedules of failures. A call of
  the database or Redis can work, fail, or fail after it took effect (\<open>Works\<close>, \<open>Fails\<close>, \<open>Lost\<close>), as the
  schedule says; the theorems quantify over the schedules. Every call lets time pass. A Go function
  that answers \<open>(T, error)\<close> is a state monad of \<open>err + T\<close>; \<open>try_bind\<close> is the early return on an error.
  Times and durations are whole microseconds (what PostgreSQL keeps) as unbounded integers; the
  64-bit range of nanoseconds matters in \<open>envMinutes\<close> only, and is written out there. Identities are
  integers, rounded to \<open>float64\<close> and brought back into \<open>int64\<close> where the tokens do; a lifetime in Redis is
  in the seconds or milliseconds the commands carry. Strings are lists of bytes; runes are decoded
  where the Go code ranges over runes.

  \<^bold>\<open>The theories.\<close>
  \<^item> \<open>Prelude\<close>: errors, \<open>try_bind\<close>, Hoare triples, and the locale \<open>step_relation\<close> of reflexive and
    transitive relations that a program respects when its primitives do (collection \<open>respects\<close>).
  \<^item> \<open>Go_Strings\<close>, \<open>Go_Unicode\<close>, \<open>Base64\<close>: what the code uses of \<open>strings\<close>, \<open>strconv\<close>, UTF-8, base64, hex.
  \<^item> \<open>Models\<close>, \<open>Repository\<close>, \<open>Session_Repository\<close>, \<open>Schema\<close>, \<open>Reads\<close>: rows, tables and queries; the
    integrity of the tables \<open>db_wf\<close>; how the database \<open>evolves\<close>, a relation every query respects; what
    reads answer. \<open>Redis\<close>: the commands.
  \<^item> \<open>Permission_Match\<close>: wildcards and the format of codes. \<open>Permission_Cache\<close>: a cache as the locale
    \<open>read_cache\<close>, interpreted on the Redis cache. \<open>Permission_Service\<close>, \<open>Permission_Properties\<close>.
  \<^item> \<open>Rate_Limit\<close>: the limiter of logins with its properties. \<open>Last_Login\<close>: last login, GeoIP.
  \<^item> \<open>Password_Policy\<close>, \<open>Password_Hash\<close>, \<open>Access_Token\<close>: rules for passwords, their hashes, the tokens.
  \<^item> \<open>Audit_Service\<close>, \<open>Auth_Service\<close>, \<open>User_Service\<close>: the services; \<open>Auth_Lemmas\<close>, \<open>Auth_Properties\<close>,
    \<open>Login_Properties\<close>, \<open>Session_Properties\<close>, \<open>User_Properties\<close>: what they guarantee.
  \<^item> \<open>Http\<close>, \<open>Handlers\<close>, \<open>Routes\<close>: requests, responses, middleware, handlers, the table of routes, and
    \<open>serve\<close>, the whole way of a request. \<open>Route_Properties\<close>: what stands before a handler.
  \<^item> \<open>Startup\<close>, \<open>Startup_Properties\<close>: configuration, keys, wiring, flush, first administrator, clean-up.
  \<^item> \<open>Lifecycle\<close>: runs of the server (an inductive step relation over requests, clean-ups and what
    happens outside), invariants of all runs, and the refinement of an automaton for sessions.
  \<^item> \<open>Server_Relations\<close>: the locale \<open>server_relation\<close>, a relation on worlds that the calls of the
    repositories and of Redis keep and that the whole server then keeps; interpreted in the next three.
  \<^item> \<open>Interleavings\<close>: a request is a sequence of atomic statements, and what holds along any mixture
    of the statements of several requests.
  \<^item> \<open>Authority\<close>: no sequence of requests makes a permission that nobody held.
  \<^item> \<open>Coherence\<close>: the cache of permissions stays coherent with the tables along steady runs, and so every
    guarded request is authorised. \<open>Boot\<close>: a started server is one from which such runs begin.
    \<open>Process\<close>: the process as a machine of main, the listener, the requests in flight and the loop of the
    clean-up, interleaved up to the exit, with what is open as part of the state.
  \<^item> \<open>Migrations\<close>: the SQL files as lists of statements on the tables, and what an upgrade does.
  \<^item> \<open>Responses\<close>: the form of every response. \<open>Races\<close>: schedules of overlapping requests.
  \<^item> \<open>Samples\<close>: the small instances on which the properties are applied.

  \<^bold>\<open>What is shown.\<close> Sessions: a refresh token buys one pair, its reuse ends all sessions of the owner, a
  revocation is final for every later request, and each identity runs through an automaton
  that never goes back. Login: only valid credentials of an active user open a session, and the answers
  do not tell why others are refused. Brute force: a bound on the attempts let through. Permissions: the
  check answers what the tables say, no grant gives more than the actor has, an update needs the
  permission for each field, and every guarded route asks first: from the start of the server and along
  every run in which Redis answers. No run makes a permission that nobody held. Integrity of the tables
  along all runs, and along all interleavings of their statements. Round trips of hashes and tokens.
  Exact characterisations of the wildcard match, the format of codes and the rules for passwords. The
  form of every response. A signal ends the process in order, without a request that loses the pool while it
  is served, unless the shutdown of the server runs into its time limit. Some properties and lemmas show where the code falls short of what it means to
  do: two overlapping refreshes, a revocation while Redis is down, the last wildcard, keys that collide,
  the length of a lockout.

  \<^bold>\<open>Fuel.\<close> One loop is not structural: the flush of the permission cache, over the cursors of \<open>SCAN\<close>. It
  gets fuel; for a scanner that keeps the documented guarantee, fuel above the rank of the first cursor
  (the number of turns the scanner still needs) is shown to be enough. All other functions are total.

  \<^bold>\<open>Parameters.\<close> Code outside \<open>src\<close> comes in as fields of records: Argon2 and bcrypt (\<open>kdf\<close>), SHA-256 and the
  JWT library (\<open>auth_service\<close>, \<open>jwt_lib\<close>), \<open>net/mail\<close>, the Unicode tables, SHA-1 and the answers of the leak
  service (\<open>policy_env\<close>), GeoIP and its JSON (\<open>geo_lib\<close>), Fiber's parsers and its router (\<open>fiber_lib\<close>,
  \<open>router\<close>), the migration library, the parsers of keys and URLs, \<open>SCAN\<close> (\<open>startup_lib\<close>), the collation of the
  database (\<open>collate\<close>), what \<open>ShutdownWithTimeout\<close> answers (\<open>shutdown\<close>), the rounding of \<open>TTL\<close> (\<open>as_ttl_reply\<close>), \<open>time.ParseDuration\<close>. A property that needs
  more of one of them says so in a hypothesis.

  \<^bold>\<open>Not modelled.\<close> Log lines, connection pools, contexts and time-outs, the bytes of JSON (a
  response is a tree; an empty list is \<open>Arr []\<close> whether Go writes it as a list or as null), the responses that Fiber
  gives through \<open>errorHandler\<close> before it looks for a route (413, 431, 408: a body, a header or a wait beyond its limits), the
  frontend and the containers. Runs serve one request after the other; the statements of two requests interleave
  in \<open>Races\<close>, on given schedules, and in \<open>Interleavings\<close>, for the integrity of the tables. The
  definitions of the tables are the constraints in the queries and \<open>db_wf\<close>; the down migrations are not
  run by the program.
\<close>

end
